(* ===== verification/Prelude.thy ===== *)
theory Prelude
  imports Main "HOL-Library.Word" "HOL-Library.Monad_Syntax"
begin

unbundle bit_operations_syntax

text \<open>
  Shared vocabulary of the development: the fixed-width integers of the driver, C integer
  conversions, byte swapping, and the lemmas on words and lists that every component uses.

  Conventions used by all theories:
  \<^item> \<open>UInt8\<close>, \<open>UInt16\<close>, \<open>UInt32\<close>, \<open>UInt64\<close> are words; a C \<open>int\<close> is a HOL \<open>int\<close>, wrapped by
    \<open>s32\<close> wherever the source's arithmetic can leave the 32-bit range;
  \<^item> a pointer to an object the operating system owns (\<open>ifnet_t\<close>) is a natural number,
    0 being the null pointer;
  \<^item> a computation of type \<open>'a option\<close> is one that can bring the kernel down: \<open>None\<close> is a
    trap (null dereference, division by zero, access outside an array) or a loop that
    never ends, and \<open>Some r\<close> is a normal return with result \<open>r\<close>. Error codes that the source
    returns are ordinary values of the result.
\<close>

section \<open>Types\<close>

type_synonym u8 = "8 word"
type_synonym u16 = "16 word"
type_synonym u32 = "32 word"
type_synonym u64 = "64 word"
type_synonym mac = "48 word"
type_synonym ifnet = nat

section \<open>Collections of facts\<close>

named_theorems mask_simps \<open>masks with all low bits set, as \<open>take_bit\<close>\<close>
named_theorems wire_defs \<open>definitions of header getters and setters\<close>

section \<open>C integers\<close>

definition s32 :: "int \<Rightarrow> int" where
  "s32 i = signed_take_bit 31 i"

lemma s32_id: "- (2 ^ 31) \<le> i \<Longrightarrow> i < 2 ^ 31 \<Longrightarrow> s32 i = i"
  by (simp add: s32_def signed_take_bit_int_eq_self)

lemma s32_in_range: "- 2147483648 \<le> i \<Longrightarrow> i < 2147483648 \<Longrightarrow> s32 i = i"
  by (rule s32_id) simp_all

lemma s32_lower: "- 2147483648 \<le> s32 i"
  using signed_take_bit_int_greater_eq_minus_exp [of 31 i] by (simp add: s32_def)

lemma s32_upper: "s32 i < 2147483648"
  using signed_take_bit_int_less_exp [of 31 i] by (simp add: s32_def)

lemma s32_sint [simp]: "s32 (sint (w :: u32)) = sint w"
  using sint_range_size [of w] by (intro s32_id) (auto simp: word_size)

text \<open>C division truncates towards zero.\<close>

definition c_div :: "int \<Rightarrow> int \<Rightarrow> int" where
  "c_div a b = sgn a * sgn b * (\<bar>a\<bar> div \<bar>b\<bar>)"

lemma c_div_nonneg: "0 \<le> a \<Longrightarrow> 0 < b \<Longrightarrow> c_div a b = a div b"
  by (cases "a = 0") (auto simp: c_div_def sgn_if)

section \<open>Words\<close>

lemma and_1_mask [mask_simps]: "(x :: 'a::len word) AND 1 = take_bit 1 x"
  by (simp add: take_bit_eq_mask mask_eq_exp_minus_1)

lemma and_15_mask [mask_simps]: "(x :: 'a::len word) AND 15 = take_bit 4 x"
  by (simp add: take_bit_eq_mask mask_eq_exp_minus_1)

lemma and_255_mask [mask_simps]: "(x :: 'a::len word) AND 255 = take_bit 8 x"
  by (simp add: take_bit_eq_mask mask_eq_exp_minus_1)

lemma and_65535_mask [mask_simps]: "(x :: 'a::len word) AND 65535 = take_bit 16 x"
  by (simp add: take_bit_eq_mask mask_eq_exp_minus_1)

text \<open>Host and network byte order on the little-endian hosts the driver is built for.\<close>

definition ntohs :: "u16 \<Rightarrow> u16" where
  "ntohs x = push_bit 8 x OR drop_bit 8 x"

definition htons :: "u16 \<Rightarrow> u16" where
  "htons x = push_bit 8 x OR drop_bit 8 x"

lemma ntohs_htons [simp]: "ntohs (htons x) = x"
  by (rule bit_word_eqI) (auto simp: ntohs_def htons_def bit_simps)

lemma htons_ntohs [simp]: "htons (ntohs x) = x"
  by (rule bit_word_eqI) (auto simp: ntohs_def htons_def bit_simps)

lemma htons_inject [simp]: "htons x = htons y \<longleftrightarrow> x = y"
  by (metis ntohs_htons)

lemma ntohs_0 [simp]: "ntohs 0 = 0"
  by (simp add: ntohs_def)

text \<open>A \<open>UInt16\<close> in memory: low byte first.\<close>

definition mem16 :: "u16 \<Rightarrow> u8 list" where
  "mem16 x = [ucast x, ucast (drop_bit 8 x)]"

definition rd16 :: "u8 \<Rightarrow> u8 \<Rightarrow> u16" where
  "rd16 lo hi = ucast lo OR push_bit 8 (ucast hi)"

lemma length_mem16 [simp]: "length (mem16 x) = 2"
  by (simp add: mem16_def)

lemma rd16_mem16 [simp]: "rd16 (ucast x) (ucast (drop_bit 8 x)) = x"
  by (rule bit_word_eqI) (auto simp: rd16_def bit_simps)

lemma not_bit_u8 [simp]: "8 \<le> n \<Longrightarrow> \<not> bit (w :: u8) n"
  using bit_imp_le_length [of w n] by auto

lemma mem16_rd16 [simp]: "mem16 (rd16 lo hi) = [lo, hi]"
  unfolding mem16_def rd16_def
  by (auto intro!: bit_word_eqI simp: bit_simps)

section \<open>Lists searched and updated by a loop\<close>

text \<open>A loop over an array that stops at the first match.\<close>

fun first_index :: "('a \<Rightarrow> bool) \<Rightarrow> 'a list \<Rightarrow> nat option" where
  "first_index p [] = None"
| "first_index p (x # xs) = (if p x then Some 0 else map_option Suc (first_index p xs))"

lemma first_index_None: "first_index p xs = None \<longleftrightarrow> (\<forall>x \<in> set xs. \<not> p x)"
  by (induction xs) auto

lemma first_index_Some:
  "first_index p xs = Some i \<Longrightarrow> i < length xs \<and> p (xs ! i) \<and> (\<forall>j < i. \<not> p (xs ! j))"
proof (induction xs arbitrary: i)
  case Nil
  then show ?case by simp
next
  case (Cons x xs)
  show ?case
  proof (cases "p x")
    case True
    with Cons.prems show ?thesis by simp
  next
    case False
    with Cons.prems obtain k where k: "first_index p xs = Some k" "i = Suc k" by auto
    from Cons.IH [OF k(1)] False k(2) show ?thesis
      by (auto simp: less_Suc_eq_0_disj)
  qed
qed

lemma first_index_less: "first_index p xs = Some i \<Longrightarrow> i < length xs"
  by (simp add: first_index_Some)

lemma first_index_nth: "first_index p xs = Some i \<Longrightarrow> p (xs ! i)"
  by (simp add: first_index_Some)

text \<open>An update at one position that keeps the predicate there keeps the search result.\<close>

lemma first_index_update:
  assumes "first_index p xs = Some i" "p y"
  shows "first_index p (xs[i := y]) = Some i"
  using assms
proof (induction xs arbitrary: i)
  case Nil
  then show ?case by simp
next
  case (Cons x xs)
  then show ?case by (cases i) (auto split: if_splits)
qed

lemma first_index_update_iff:
  assumes "i < length xs" "p y = p (xs ! i)"
  shows "first_index p (xs[i := y]) = first_index p xs"
  using assms
proof (induction xs arbitrary: i)
  case Nil
  then show ?case by simp
next
  case (Cons x xs)
  then show ?case by (cases i) auto
qed

text \<open>Update of the first element that satisfies a predicate.\<close>

fun update_first :: "('a \<Rightarrow> bool) \<Rightarrow> ('a \<Rightarrow> 'a) \<Rightarrow> 'a list \<Rightarrow> 'a list" where
  "update_first p f [] = []"
| "update_first p f (x # xs) = (if p x then f x # xs else x # update_first p f xs)"

lemma length_update_first [simp]: "length (update_first p f xs) = length xs"
  by (induction xs) auto

lemma update_first_none: "(\<forall>x \<in> set xs. \<not> p x) \<Longrightarrow> update_first p f xs = xs"
  by (induction xs) auto

text \<open>Removal of the first element that satisfies a predicate, the element itself returned.\<close>

fun take_first :: "('a \<Rightarrow> bool) \<Rightarrow> 'a list \<Rightarrow> ('a \<times> 'a list) option" where
  "take_first p [] = None"
| "take_first p (x # xs) =
     (if p x then Some (x, xs)
      else map_option (\<lambda>(y, ys). (y, x # ys)) (take_first p xs))"

lemma take_first_None: "take_first p xs = None \<longleftrightarrow> (\<forall>x \<in> set xs. \<not> p x)"
  by (induction xs) (auto split: option.splits)

lemma take_first_Some:
  "take_first p xs = Some (y, ys) \<Longrightarrow>
   \<exists>us vs. xs = us @ y # vs \<and> ys = us @ vs \<and> p y \<and> (\<forall>u \<in> set us. \<not> p u)"
proof (induction xs arbitrary: ys)
  case Nil
  then show ?case by simp
next
  case (Cons x xs)
  show ?case
  proof (cases "p x")
    case True
    with Cons.prems show ?thesis by (auto intro: exI [of _ "[]"])
  next
    case False
    with Cons.prems obtain zs where zs: "take_first p xs = Some (y, zs)" "ys = x # zs"
      by auto
    from Cons.IH [OF zs(1)] obtain us vs where
      "xs = us @ y # vs" "zs = us @ vs" "p y" "\<forall>u \<in> set us. \<not> p u" by blast
    with False zs(2) show ?thesis
      by (intro exI [of _ "x # us"] exI [of _ vs]) auto
  qed
qed

lemma count_list_ge_1: "x \<in> set xs \<Longrightarrow> 1 \<le> count_list xs x"
  by (induction xs) auto

lemma set_list_update_subset: "set (xs[i := x]) \<subseteq> insert x (set xs)"
  by (rule set_update_subset_insert)

section \<open>Invariants of state machines\<close>

text \<open>A component is a relation between the states before and after an event; a property that every event
  keeps holds in every reachable state.\<close>

locale state_machine =
  fixes step :: "'s \<Rightarrow> 's \<Rightarrow> bool"
    and inv :: "'s \<Rightarrow> bool"
  assumes step_inv: "step s t \<Longrightarrow> inv s \<Longrightarrow> inv t"
begin

lemma steps_inv: "step\<^sup>*\<^sup>* s t \<Longrightarrow> inv s \<Longrightarrow> inv t"
  by (induction rule: rtranclp_induct) (auto intro: step_inv)

end

text \<open>A larger system refines a component when each of its events is, for the component, a sequence of events;
  the component's invariant then holds in every reachable state of the system.\<close>

locale refined_machine = state_machine step inv
  for step :: "'s \<Rightarrow> 's \<Rightarrow> bool" and inv :: "'s \<Rightarrow> bool" +
  fixes event :: "'t \<Rightarrow> 't \<Rightarrow> bool"
    and part :: "'t \<Rightarrow> 's"
  assumes event_steps: "event a b \<Longrightarrow> step\<^sup>*\<^sup>* (part a) (part b)"
begin

lemma events_steps: "event\<^sup>*\<^sup>* a b \<Longrightarrow> step\<^sup>*\<^sup>* (part a) (part b)"
  by (induction rule: rtranclp_induct) (auto dest: event_steps)

lemma events_inv: "event\<^sup>*\<^sup>* a b \<Longrightarrow> inv (part a) \<Longrightarrow> inv (part b)"
  using events_steps steps_inv by blast

end

end
