(* ===== verification/Wire.thy ===== *)
theory Wire
  imports Prelude
begin

unbundle bit_operations_syntax

text \<open>
  The AoE packet headers of \<open>AoE/aoe.h\<close> and the shared constants and macros of
  \<open>Shared/AoEcommon.h\<close> and \<open>Shared/AoEcommon.c\<close>: header structures, the
  getter and setter macros (C integer promotion is to 32 bits, fields are 16 bits in network
  order), the layout of a header in memory, tags and transfer sizes.
\<close>

section \<open>Constants of aoe.h and AoEcommon.h\<close>

abbreviation (input) CONFIG_STR_GET :: u32 where "CONFIG_STR_GET \<equiv> 0"
abbreviation (input) CONFIG_STR_FORCE_SET :: u32 where "CONFIG_STR_FORCE_SET \<equiv> 4"
abbreviation (input) AOE_ATA_COMMAND :: u32 where "AOE_ATA_COMMAND \<equiv> 0"
abbreviation (input) AOE_CFG_COMMAND :: u32 where "AOE_CFG_COMMAND \<equiv> 1"
abbreviation (input) AOE_AFLAGS_E :: u32 where "AOE_AFLAGS_E \<equiv> 0x40"
abbreviation (input) AOE_AFLAGS_W :: u32 where "AOE_AFLAGS_W \<equiv> 0x01"
abbreviation (input) AOE_FLAG_RESPONSE :: u32 where "AOE_FLAG_RESPONSE \<equiv> 8"
abbreviation (input) AOE_FLAG_ERROR :: u32 where "AOE_FLAG_ERROR \<equiv> 4"
abbreviation (input) AOE_SUPPORTED_VER :: u32 where "AOE_SUPPORTED_VER \<equiv> 1"
abbreviation (input) ETHERTYPE_AOE :: u16 where "ETHERTYPE_AOE \<equiv> 0x88a2"
abbreviation (input) MAX_CONFIG_STRING_LENGTH :: nat where "MAX_CONFIG_STRING_LENGTH \<equiv> 1024"
abbreviation (input) MAX_SHELFS :: int where "MAX_SHELFS \<equiv> 65536"
abbreviation (input) SHELF_BROADCAST :: u32 where "SHELF_BROADCAST \<equiv> 0xFFFF"
abbreviation (input) SLOT_BROADCAST :: u32 where "SLOT_BROADCAST \<equiv> 0xFF"
abbreviation (input) DEFAULT_MAX_TRANSFER_SIZE :: int where "DEFAULT_MAX_TRANSFER_SIZE \<equiv> 262144"

abbreviation (input) DEVICE_ONLINE_TAG :: u32 where "DEVICE_ONLINE_TAG \<equiv> 0"
abbreviation (input) TAG_BROADCAST_MASK :: u32 where "TAG_BROADCAST_MASK \<equiv> 0x40000000"
abbreviation (input) MIN_TAG :: u32 where "MIN_TAG \<equiv> 1"
abbreviation (input) MAX_TAG :: u32 where "MAX_TAG \<equiv> 0x3FFFFFFF"
abbreviation (input) MAX_PORTS :: nat where "MAX_PORTS \<equiv> 6"
abbreviation (input) DEFAULT_CONGESTION_WINDOW :: int where "DEFAULT_CONGESTION_WINDOW \<equiv> 128"

abbreviation (input) kATADefaultSectorSize :: int where "kATADefaultSectorSize \<equiv> 512"

text \<open>ATA command codes, as listed in the comment that opens \<open>AoEController.cpp\<close> and in
  the ATA standard.\<close>

abbreviation (input) kATAcmdRead :: u8 where "kATAcmdRead \<equiv> 0x20"
abbreviation (input) kATAcmdReadExtended :: u8 where "kATAcmdReadExtended \<equiv> 0x24"
abbreviation (input) kATAcmdReadDMAExtended :: u8 where "kATAcmdReadDMAExtended \<equiv> 0x25"
abbreviation (input) kATAcmdWrite :: u8 where "kATAcmdWrite \<equiv> 0x30"
abbreviation (input) kATAcmdWriteExtended :: u8 where "kATAcmdWriteExtended \<equiv> 0x34"
abbreviation (input) kATAcmdWriteDMAExtended :: u8 where "kATAcmdWriteDMAExtended \<equiv> 0x35"
abbreviation (input) kATAcmdReadDMA :: u8 where "kATAcmdReadDMA \<equiv> 0xC8"
abbreviation (input) kATAcmdWriteDMA :: u8 where "kATAcmdWriteDMA \<equiv> 0xCA"
abbreviation (input) kATAcmdSleep :: u8 where "kATAcmdSleep \<equiv> 0xE6"
abbreviation (input) kATAcmdFlushCache :: u8 where "kATAcmdFlushCache \<equiv> 0xE7"
abbreviation (input) kATAcmdFlushCacheExtended :: u8 where "kATAcmdFlushCacheExtended \<equiv> 0xEA"
abbreviation (input) kATAcmdDriveIdentify :: u8 where "kATAcmdDriveIdentify \<equiv> 0xEC"
abbreviation (input) kATAcmdSetFeatures :: u8 where "kATAcmdSetFeatures \<equiv> 0xEF"

section \<open>The AoE header\<close>

record aoe_header =
  ah_verflagserr :: u16
  ah_major :: u16
  ah_minorcmd :: u16
  ah_tag0 :: u16
  ah_tag1 :: u16

definition AOE_HEADER_GETVER :: "aoe_header \<Rightarrow> u32" where
  "AOE_HEADER_GETVER p = drop_bit 12 (ucast (ntohs (ah_verflagserr p))) AND 0x0F"

definition AOE_HEADER_GETFLAG :: "aoe_header \<Rightarrow> u32" where
  "AOE_HEADER_GETFLAG p = drop_bit 8 (ucast (ntohs (ah_verflagserr p))) AND 0x0F"

definition AOE_HEADER_GETERR :: "aoe_header \<Rightarrow> u32" where
  "AOE_HEADER_GETERR p = drop_bit 0 (ucast (ntohs (ah_verflagserr p))) AND 0xFF"

definition AOE_HEADER_GETMAJOR :: "aoe_header \<Rightarrow> u16" where
  "AOE_HEADER_GETMAJOR p = ntohs (ah_major p)"

definition AOE_HEADER_GETMINOR :: "aoe_header \<Rightarrow> u32" where
  "AOE_HEADER_GETMINOR p = drop_bit 8 (ucast (ntohs (ah_minorcmd p))) AND 0xFF"

definition AOE_HEADER_GETCMD :: "aoe_header \<Rightarrow> u32" where
  "AOE_HEADER_GETCMD p = drop_bit 0 (ucast (ntohs (ah_minorcmd p))) AND 0xFF"

definition AOE_HEADER_GETTAG :: "aoe_header \<Rightarrow> u32" where
  "AOE_HEADER_GETTAG p = push_bit 16 (ucast (ntohs (ah_tag0 p))) OR ucast (ntohs (ah_tag1 p))"

definition AOE_HEADER_CLEAR :: "aoe_header \<Rightarrow> aoe_header" where
  "AOE_HEADER_CLEAR p = p\<lparr>ah_verflagserr := 0, ah_major := 0, ah_minorcmd := 0,
     ah_tag0 := 0, ah_tag1 := 0\<rparr>"

definition AOE_HEADER_SETVERFLAGERR :: "u32 \<Rightarrow> u32 \<Rightarrow> u32 \<Rightarrow> u16" where
  "AOE_HEADER_SETVERFLAGERR v f e =
     htons (ucast (push_bit 12 (v AND 0xF) OR push_bit 8 (f AND 0xF) OR (e AND 0xF)))"

definition AOE_HEADER_SETMAJOR :: "u32 \<Rightarrow> u16" where
  "AOE_HEADER_SETMAJOR m = htons (ucast m)"

definition AOE_HEADER_SETMINORCMD :: "u32 \<Rightarrow> u32 \<Rightarrow> u16" where
  "AOE_HEADER_SETMINORCMD m c = htons (ucast (push_bit 8 (m AND 0xFF) OR (c AND 0xFF)))"

definition AOE_HEADER_SETTAG1 :: "u32 \<Rightarrow> u16" where
  "AOE_HEADER_SETTAG1 t = htons (ucast (drop_bit 16 t AND 0xFFFF))"

definition AOE_HEADER_SETTAG2 :: "u32 \<Rightarrow> u16" where
  "AOE_HEADER_SETTAG2 t = htons (ucast (t AND 0xFFFF))"

section \<open>The configuration header\<close>

record aoe_cfghdr =
  ac_bufcnt :: u16
  ac_fwver :: u16
  ac_scnt_aoe_ccmd :: u16
  ac_cslen :: u16

definition AOE_CFGHEADER_GETBCOUNT :: "aoe_cfghdr \<Rightarrow> u16" where
  "AOE_CFGHEADER_GETBCOUNT p = ntohs (ac_bufcnt p)"

definition AOE_CFGHEADER_GETSCOUNT :: "aoe_cfghdr \<Rightarrow> u32" where
  "AOE_CFGHEADER_GETSCOUNT p = drop_bit 8 (ucast (ntohs (ac_scnt_aoe_ccmd p))) AND 0xFF"

definition AOE_CFGHEADER_GETAOEVER :: "aoe_cfghdr \<Rightarrow> u32" where
  "AOE_CFGHEADER_GETAOEVER p = drop_bit 4 (ucast (ntohs (ac_scnt_aoe_ccmd p))) AND 0x0F"

definition AOE_CFGHEADER_GETCCMD :: "aoe_cfghdr \<Rightarrow> u32" where
  "AOE_CFGHEADER_GETCCMD p = drop_bit 0 (ucast (ntohs (ac_scnt_aoe_ccmd p))) AND 0x0F"

definition AOE_CFGHEADER_GETCSLEN :: "aoe_cfghdr \<Rightarrow> u16" where
  "AOE_CFGHEADER_GETCSLEN p = ntohs (ac_cslen p)"

definition AOE_CFGHEADER_CLEAR :: "aoe_cfghdr \<Rightarrow> aoe_cfghdr" where
  "AOE_CFGHEADER_CLEAR p = p\<lparr>ac_bufcnt := 0, ac_fwver := 0, ac_scnt_aoe_ccmd := 0, ac_cslen := 0\<rparr>"

definition AOE_HEADER_SETSECTOR_CMD :: "u32 \<Rightarrow> u32 \<Rightarrow> u16" where
  "AOE_HEADER_SETSECTOR_CMD s c =
     htons (ucast (push_bit 8 (s AND 0xFF) OR push_bit 4 (0 AND 0xF) OR (c AND 0xF)))"

definition AOE_HEADER_SETCSTRLEN :: "u32 \<Rightarrow> u16" where
  "AOE_HEADER_SETCSTRLEN c = htons (ucast c)"

section \<open>The ATA header\<close>

record aoe_atahdr =
  aa_aflags_errfeat :: u16
  aa_scnt_cmdstat :: u16
  aa_lba0_1 :: u16
  aa_lba2_3 :: u16
  aa_lba4_5 :: u16
  aa_reserved :: u16

definition AOE_ATAHEADER_CLEAR :: "aoe_atahdr \<Rightarrow> aoe_atahdr" where
  "AOE_ATAHEADER_CLEAR p = p\<lparr>aa_aflags_errfeat := 0, aa_scnt_cmdstat := 0, aa_lba0_1 := 0,
     aa_lba2_3 := 0, aa_lba4_5 := 0, aa_reserved := 0\<rparr>"

text \<open>The five setters \<open>SETAFLAGSFEAT\<close>, \<open>SETSCNTCMD\<close>, \<open>SETLBA01\<close>, \<open>SETLBA23\<close>,
  \<open>SETLBA45\<close> have one and the same body.\<close>

definition AOE_ATAHEADER_SET2 :: "u32 \<Rightarrow> u32 \<Rightarrow> u16" where
  "AOE_ATAHEADER_SET2 a b = htons (ucast (push_bit 8 (a AND 0xFF) OR (b AND 0xFF)))"

text \<open>The ten getters read the high or the low byte of a field.\<close>

definition ata_hi :: "u16 \<Rightarrow> u8" where
  "ata_hi x = ucast (drop_bit 8 (ucast (ntohs x) :: u32) AND 0xFF)"

definition ata_lo :: "u16 \<Rightarrow> u8" where
  "ata_lo x = ucast (drop_bit 0 (ucast (ntohs x) :: u32) AND 0xFF)"

definition AOE_ATAHEADER_GETAFLAGS :: "aoe_atahdr \<Rightarrow> u8" where
  "AOE_ATAHEADER_GETAFLAGS p = ata_hi (aa_aflags_errfeat p)"
definition AOE_ATAHEADER_GETERR :: "aoe_atahdr \<Rightarrow> u8" where
  "AOE_ATAHEADER_GETERR p = ata_lo (aa_aflags_errfeat p)"
definition AOE_ATAHEADER_GETSCNT :: "aoe_atahdr \<Rightarrow> u8" where
  "AOE_ATAHEADER_GETSCNT p = ata_hi (aa_scnt_cmdstat p)"
definition AOE_ATAHEADER_GETSTAT :: "aoe_atahdr \<Rightarrow> u8" where
  "AOE_ATAHEADER_GETSTAT p = ata_lo (aa_scnt_cmdstat p)"
definition AOE_ATAHEADER_GETLBA0 :: "aoe_atahdr \<Rightarrow> u8" where
  "AOE_ATAHEADER_GETLBA0 p = ata_hi (aa_lba0_1 p)"
definition AOE_ATAHEADER_GETLBA1 :: "aoe_atahdr \<Rightarrow> u8" where
  "AOE_ATAHEADER_GETLBA1 p = ata_lo (aa_lba0_1 p)"
definition AOE_ATAHEADER_GETLBA2 :: "aoe_atahdr \<Rightarrow> u8" where
  "AOE_ATAHEADER_GETLBA2 p = ata_hi (aa_lba2_3 p)"
definition AOE_ATAHEADER_GETLBA3 :: "aoe_atahdr \<Rightarrow> u8" where
  "AOE_ATAHEADER_GETLBA3 p = ata_lo (aa_lba2_3 p)"
definition AOE_ATAHEADER_GETLBA4 :: "aoe_atahdr \<Rightarrow> u8" where
  "AOE_ATAHEADER_GETLBA4 p = ata_hi (aa_lba4_5 p)"
definition AOE_ATAHEADER_GETLBA5 :: "aoe_atahdr \<Rightarrow> u8" where
  "AOE_ATAHEADER_GETLBA5 p = ata_lo (aa_lba4_5 p)"

lemmas header_getters [wire_defs] =
  AOE_HEADER_GETVER_def AOE_HEADER_GETFLAG_def AOE_HEADER_GETERR_def
  AOE_HEADER_GETMAJOR_def AOE_HEADER_GETMINOR_def AOE_HEADER_GETCMD_def AOE_HEADER_GETTAG_def
  AOE_CFGHEADER_GETBCOUNT_def AOE_CFGHEADER_GETSCOUNT_def AOE_CFGHEADER_GETAOEVER_def
  AOE_CFGHEADER_GETCCMD_def AOE_CFGHEADER_GETCSLEN_def

lemmas header_setters [wire_defs] =
  AOE_HEADER_CLEAR_def AOE_HEADER_SETVERFLAGERR_def AOE_HEADER_SETMAJOR_def
  AOE_HEADER_SETMINORCMD_def AOE_HEADER_SETTAG1_def AOE_HEADER_SETTAG2_def
  AOE_CFGHEADER_CLEAR_def AOE_HEADER_SETSECTOR_CMD_def AOE_HEADER_SETCSTRLEN_def
  AOE_ATAHEADER_CLEAR_def

lemmas ata_getters [wire_defs] =
  AOE_ATAHEADER_GETAFLAGS_def AOE_ATAHEADER_GETERR_def AOE_ATAHEADER_GETSCNT_def
  AOE_ATAHEADER_GETSTAT_def AOE_ATAHEADER_GETLBA0_def AOE_ATAHEADER_GETLBA1_def
  AOE_ATAHEADER_GETLBA2_def AOE_ATAHEADER_GETLBA3_def AOE_ATAHEADER_GETLBA4_def
  AOE_ATAHEADER_GETLBA5_def

lemma ata_hi_SET2 [simp]: "ata_hi (AOE_ATAHEADER_SET2 a b) = ucast a"
  unfolding ata_hi_def AOE_ATAHEADER_SET2_def
  by (rule bit_word_eqI) (auto simp: mask_simps bit_simps)

lemma ata_lo_SET2 [simp]: "ata_lo (AOE_ATAHEADER_SET2 a b) = ucast b"
  unfolding ata_lo_def AOE_ATAHEADER_SET2_def
  by (rule bit_word_eqI) (auto simp: mask_simps bit_simps)

section \<open>Headers in memory\<close>

text \<open>
  A header is read and written through a pointer cast of the mbuf's data. \<open>_mem\<close> is the
  structure laid out in memory, and \<open>_at\<close> reads the structure at the start of a block of
  memory (\<open>None\<close>: the block is shorter than the structure).
\<close>

definition aoe_header_mem :: "aoe_header \<Rightarrow> u8 list" where
  "aoe_header_mem h = mem16 (ah_verflagserr h) @ mem16 (ah_major h) @ mem16 (ah_minorcmd h)
     @ mem16 (ah_tag0 h) @ mem16 (ah_tag1 h)"

fun aoe_header_at :: "u8 list \<Rightarrow> aoe_header option" where
  "aoe_header_at (v0 # v1 # m0 # m1 # c0 # c1 # t0 # t1 # t2 # t3 # rest) =
     Some \<lparr>ah_verflagserr = rd16 v0 v1, ah_major = rd16 m0 m1, ah_minorcmd = rd16 c0 c1,
       ah_tag0 = rd16 t0 t1, ah_tag1 = rd16 t2 t3\<rparr>"
| "aoe_header_at _ = None"

definition aoe_cfghdr_mem :: "aoe_cfghdr \<Rightarrow> u8 list" where
  "aoe_cfghdr_mem h = mem16 (ac_bufcnt h) @ mem16 (ac_fwver h) @ mem16 (ac_scnt_aoe_ccmd h)
     @ mem16 (ac_cslen h)"

fun aoe_cfghdr_at :: "u8 list \<Rightarrow> aoe_cfghdr option" where
  "aoe_cfghdr_at (b0 # b1 # f0 # f1 # c0 # c1 # l0 # l1 # rest) =
     Some \<lparr>ac_bufcnt = rd16 b0 b1, ac_fwver = rd16 f0 f1, ac_scnt_aoe_ccmd = rd16 c0 c1,
       ac_cslen = rd16 l0 l1\<rparr>"
| "aoe_cfghdr_at _ = None"

definition aoe_atahdr_mem :: "aoe_atahdr \<Rightarrow> u8 list" where
  "aoe_atahdr_mem h = mem16 (aa_aflags_errfeat h) @ mem16 (aa_scnt_cmdstat h) @ mem16 (aa_lba0_1 h)
     @ mem16 (aa_lba2_3 h) @ mem16 (aa_lba4_5 h) @ mem16 (aa_reserved h)"

fun aoe_atahdr_at :: "u8 list \<Rightarrow> aoe_atahdr option" where
  "aoe_atahdr_at (f0 # f1 # s0 # s1 # a0 # a1 # b0 # b1 # c0 # c1 # r0 # r1 # rest) =
     Some \<lparr>aa_aflags_errfeat = rd16 f0 f1, aa_scnt_cmdstat = rd16 s0 s1, aa_lba0_1 = rd16 a0 a1,
       aa_lba2_3 = rd16 b0 b1, aa_lba4_5 = rd16 c0 c1, aa_reserved = rd16 r0 r1\<rparr>"
| "aoe_atahdr_at _ = None"

lemma aoe_header_at_mem: "aoe_header_at (aoe_header_mem h @ rest) = Some h"
  by (simp add: aoe_header_mem_def mem16_def)

lemma aoe_cfghdr_at_mem: "aoe_cfghdr_at (aoe_cfghdr_mem h @ rest) = Some h"
  by (simp add: aoe_cfghdr_mem_def mem16_def)

lemma aoe_atahdr_at_mem: "aoe_atahdr_at (aoe_atahdr_mem h @ rest) = Some h"
  by (simp add: aoe_atahdr_mem_def mem16_def)

lemma length_aoe_header_mem [simp]: "length (aoe_header_mem h) = 10"
  by (simp add: aoe_header_mem_def)

lemma length_aoe_cfghdr_mem [simp]: "length (aoe_cfghdr_mem h) = 8"
  by (simp add: aoe_cfghdr_mem_def)

lemma length_aoe_atahdr_mem [simp]: "length (aoe_atahdr_mem h) = 12"
  by (simp add: aoe_atahdr_mem_def)

section \<open>Packets\<close>

text \<open>
  An outgoing mbuf chain: the ethernet header that \<open>send_packet\<close> prepends, the AoE
  header, the ATA or configuration header, and the data of the chained mbufs.
\<close>

datatype aoe_body = ATA aoe_atahdr | CFG aoe_cfghdr

record packet =
  ether_dhost :: mac
  ether_shost :: mac
  ether_type :: u16
  pk_aoe :: aoe_header
  pk_body :: aoe_body
  pk_data :: "u8 list"

definition body_mem :: "aoe_body \<Rightarrow> u8 list" where
  "body_mem b = (case b of ATA h \<Rightarrow> aoe_atahdr_mem h | CFG h \<Rightarrow> aoe_cfghdr_mem h)"

definition payload_mem :: "packet \<Rightarrow> u8 list" where
  "payload_mem p = aoe_header_mem (pk_aoe p) @ body_mem (pk_body p) @ pk_data p"

section \<open>Transfer sizes and times\<close>

text \<open>\<open>sizeof(aoe_atahdr_full) + sizeof(struct ether_header)\<close>; \<open>size_t\<close> has 32 bits in the
  kernel of Mac OS X 10.5 that the driver is written for.\<close>

definition BYTES_IN_AOE_HEADER :: u32 where
  "BYTES_IN_AOE_HEADER = (10 + 12) + 14"

definition COUNT_SECTORS_FROM_MTU :: "u32 \<Rightarrow> u32" where
  "COUNT_SECTORS_FROM_MTU MTU = (MTU - BYTES_IN_AOE_HEADER) div 512"

definition CONVERT_NS_TO_US :: "u64 \<Rightarrow> u64" where
  "CONVERT_NS_TO_US x = (x + 500) div 1000"

definition CONVERT_NS_TO_MS :: "u64 \<Rightarrow> u64" where
  "CONVERT_NS_TO_MS x = (x + 500000) div 1000000"

section \<open>Properties\<close>

text \<open>A version/flags/error word built by \<open>AOE_HEADER_SETVERFLAGERR\<close> and read back through
  the getters gives the version and the flags modulo 16, and the error code modulo 16 as well:
  the setter masks the error with 0xF although the getter and the protocol have 8 bits.\<close>

theorem header_verflagerr_roundtrip:
  "let h = p\<lparr>ah_verflagserr := AOE_HEADER_SETVERFLAGERR v f e\<rparr> in
     AOE_HEADER_GETVER h = v AND 0xF \<and> AOE_HEADER_GETFLAG h = f AND 0xF \<and>
     AOE_HEADER_GETERR h = e AND 0xF"
  unfolding Let_def wire_defs
  by (auto intro!: bit_word_eqI simp: mask_simps bit_simps)

text \<open>Shelf, slot, command and the whole 32-bit tag survive being written into an AoE header
  and read back, for every 16-bit shelf, 8-bit slot and command and every tag.\<close>

theorem header_address_tag_roundtrip:
  "let h = p\<lparr>ah_major := AOE_HEADER_SETMAJOR (ucast (shelf :: u16)),
             ah_minorcmd := AOE_HEADER_SETMINORCMD (ucast (slot :: u8)) (ucast (cmd :: u8)),
             ah_tag0 := AOE_HEADER_SETTAG1 tag, ah_tag1 := AOE_HEADER_SETTAG2 tag\<rparr> in
     AOE_HEADER_GETMAJOR h = shelf \<and> AOE_HEADER_GETMINOR h = ucast slot \<and>
     AOE_HEADER_GETCMD h = ucast cmd \<and> AOE_HEADER_GETTAG h = tag"
  unfolding Let_def wire_defs
  by (auto intro!: bit_word_eqI simp: mask_simps bit_simps) (drule bit_imp_le_length, simp)+

text \<open>The bytes of an outgoing packet, read back by the pointer casts that the receive path
  uses, give the headers that were written, for ATA and for configuration packets, whatever
  data follows.\<close>

theorem payload_roundtrip:
  "aoe_header_at (payload_mem p) = Some (pk_aoe p) \<and>
   (case pk_body p of
      ATA h \<Rightarrow> aoe_atahdr_at (drop 10 (payload_mem p)) = Some h \<and> drop 22 (payload_mem p) = pk_data p
    | CFG h \<Rightarrow> aoe_cfghdr_at (drop 10 (payload_mem p)) = Some h \<and> drop 18 (payload_mem p) = pk_data p)"
  by (simp add: payload_mem_def body_mem_def aoe_header_at_mem aoe_atahdr_at_mem aoe_cfghdr_at_mem
      split: aoe_body.split)

lemma unat_count_sectors:
  assumes "36 \<le> unat MTU"
  shows "unat (COUNT_SECTORS_FROM_MTU MTU) = (unat MTU - 36) div 512"
proof -
  from assms have "(36 :: u32) \<le> MTU" by (simp add: word_le_nat_alt)
  then have "unat (MTU - 36) = unat MTU - 36" by (simp add: unat_sub)
  then show ?thesis by (simp add: COUNT_SECTORS_FROM_MTU_def BYTES_IN_AOE_HEADER_def unat_div)
qed

text \<open>The number of sectors per packet is the largest that fits: for every MTU of at least the
  36 header bytes, headers and sectors together stay within the MTU and one more sector would
  exceed it.\<close>

theorem count_sectors_maximal:
  assumes "36 \<le> unat MTU"
  shows "36 + 512 * unat (COUNT_SECTORS_FROM_MTU MTU) \<le> unat MTU \<and>
         unat MTU < 36 + 512 * (unat (COUNT_SECTORS_FROM_MTU MTU) + 1)"
proof -
  define d where "d = unat MTU - 36"
  define q where "q = d div 512"
  have "512 * q \<le> d" "d < 512 * q + 512"
    using dividend_less_times_div [of 512 d] by (simp_all add: q_def)
  moreover have "unat MTU = d + 36"
    using assms by (simp add: d_def)
  moreover have "unat (COUNT_SECTORS_FROM_MTU MTU) = q"
    using unat_count_sectors [OF assms] by (simp add: q_def d_def)
  ultimately show ?thesis by simp
qed

theorem count_sectors_maximal_witness:
  "unat (COUNT_SECTORS_FROM_MTU 1500) = 2 \<and> 36 + 512 * unat (COUNT_SECTORS_FROM_MTU 1500) \<le> 1500"
  using count_sectors_maximal [of 1500]
  by (simp add: COUNT_SECTORS_FROM_MTU_def BYTES_IN_AOE_HEADER_def)

end
