(* ===== verification/Kernel.thy ===== *)
theory Kernel
  imports Wire
begin

text \<open>
  What the driver relies on in the operating system, as one record that the operations take as
  an argument: the clock, the network interface calls (\<open>ifnet_mtu\<close>, \<open>ifnet_unit\<close>,
  \<open>ifnet_lladdr_copy_bytes\<close>, \<open>ifnet_find_by_name\<close>, \<open>iflt_attach\<close>) and the outcome of
  memory allocations. Nothing is assumed of these values unless a theorem says so. The file also
  holds the filter table of \<open>AoE/AoEtherFilter.c\<close>, which attaches the packet filter to an
  interface, and the time functions of \<open>Shared/AoEcommon.c\<close>.
\<close>

record kernel =
  uptime :: u64                              \<comment> \<open>\<open>clock_get_uptime\<close>\<close>
  abs_to_ns :: "u64 \<Rightarrow> u64"                  \<comment> \<open>\<open>absolutetime_to_nanoseconds\<close>\<close>
  ifnet_mtu :: "ifnet \<Rightarrow> u32"
  ifnet_unit :: "ifnet \<Rightarrow> u32"
  ifnet_lladdr :: "ifnet \<Rightarrow> mac"
  ifnet_lladdr_err :: "ifnet \<Rightarrow> int"
  ifnet_broadcast :: "ifnet \<Rightarrow> mac"
  find_by_name :: "int \<Rightarrow> int \<times> ifnet"      \<comment> \<open>\<open>ifnet_find_by_name("en%d")\<close> and the pointer it leaves\<close>
  iflt_attach :: "ifnet \<Rightarrow> int \<times> nat"       \<comment> \<open>return code and filter reference\<close>
  mbuf_gethdr_err :: int
  mbuf_prepend_err :: int
  mbuf_attach_err :: int                     \<comment> \<open>the calls of \<open>attach_ext_to_mbuf\<close>\<close>
  IOMalloc_sent_ok :: bool                   \<comment> \<open>\<open>IOMalloc\<close> of a sent queue item\<close>
  IOMalloc_to_send_ok :: bool
  OSArray_ok :: "int \<Rightarrow> bool"               \<comment> \<open>\<open>OSArray::withCapacity\<close> succeeds\<close>

abbreviation (input) KERN_SUCCESS :: int where "KERN_SUCCESS \<equiv> 0"
abbreviation (input) KERN_FAILURE :: int where "KERN_FAILURE \<equiv> 5"

text \<open>A concrete machine, for evaluating the model on examples: interfaces \<open>n + 1\<close> named
  \<open>en\<open>n\<close>\<close>, an MTU of 1500 and no failing call.\<close>

definition example_kernel :: kernel where
  "example_kernel = \<lparr>uptime = 1000000000, abs_to_ns = (\<lambda>t. t), ifnet_mtu = (\<lambda>_. 1500),
     ifnet_unit = (\<lambda>i. of_nat (i - 1)), ifnet_lladdr = (\<lambda>i. of_nat i), ifnet_lladdr_err = (\<lambda>_. 0),
     ifnet_broadcast = (\<lambda>_. - 1), find_by_name = (\<lambda>n. (0, nat n + 1)), iflt_attach = (\<lambda>i. (0, i)),
     mbuf_gethdr_err = 0, mbuf_prepend_err = 0, mbuf_attach_err = 0, IOMalloc_sent_ok = True, IOMalloc_to_send_ok = True,
     OSArray_ok = (\<lambda>_. True)\<rparr>"

section \<open>Time\<close>

definition time_since_now_ns :: "kernel \<Rightarrow> u64 \<Rightarrow> u64" where
  "time_since_now_ns k old_time = abs_to_ns k (uptime k) - abs_to_ns k old_time"

definition time_since_now_ms :: "kernel \<Rightarrow> u64 \<Rightarrow> u64" where
  "time_since_now_ms k old_time = CONVERT_NS_TO_MS (time_since_now_ns k old_time)"

definition time_since_now_us :: "kernel \<Rightarrow> u64 \<Rightarrow> u64" where
  "time_since_now_us k old_time = CONVERT_NS_TO_US (time_since_now_ns k old_time)"

section \<open>The interface filter table\<close>

record InterfaceInfo =
  Interface_Filters :: nat
  fi_ifnet :: ifnet

text \<open>The global \<open>g_aInterfaces\<close>, and the filters handed to \<open>iflt_detach\<close> so far.\<close>

record filter_table =
  g_aInterfaces :: "InterfaceInfo list"
  detached :: "nat list"

definition filter_init :: "filter_table \<Rightarrow> filter_table" where
  "filter_init t = t\<lparr>g_aInterfaces := map (\<lambda>i. i\<lparr>Interface_Filters := 0\<rparr>) (g_aInterfaces t)\<rparr>"

definition enable_filtering :: "kernel \<Rightarrow> int \<Rightarrow> ifnet \<Rightarrow> filter_table \<Rightarrow> (int \<times> filter_table) option" where
  "enable_filtering k nEthernetNumber Enetifnet t =
     (if nEthernetNumber < 0 \<or> int (length (g_aInterfaces t)) \<le> nEthernetNumber then None
      else
        let n = nat nEthernetNumber;
            (retval, filter) = iflt_attach k Enetifnet;
            i = g_aInterfaces t ! n;
            i = (if retval = KERN_SUCCESS then i\<lparr>Interface_Filters := filter\<rparr> else i);
            i = i\<lparr>fi_ifnet := Enetifnet\<rparr>;
            t = t\<lparr>g_aInterfaces := (g_aInterfaces t)[n := i]\<rparr>
        in Some (if retval = KERN_SUCCESS then retval else KERN_FAILURE, t))"

text \<open>
  \<open>retval == KERN_SUCCESS;\<close> in the source compares and drops the result, so the return
  value stays \<open>KERN_FAILURE\<close>; the filter reference is not cleared either.
\<close>

definition disable_filtering :: "int \<Rightarrow> filter_table \<Rightarrow> (int \<times> filter_table) option" where
  "disable_filtering nEthernetNumber t =
     (if nEthernetNumber < 0 \<or> int (length (g_aInterfaces t)) \<le> nEthernetNumber then None
      else
        let f = Interface_Filters (g_aInterfaces t ! nat nEthernetNumber)
        in if f \<noteq> 0
           then Some (KERN_FAILURE, t\<lparr>detached := detached t @ [f]\<rparr>)
           else Some (KERN_FAILURE, t))"

fun filter_uninit_from :: "nat list \<Rightarrow> filter_table \<Rightarrow> filter_table option" where
  "filter_uninit_from [] t = Some t"
| "filter_uninit_from (n # ns) t =
     (if Interface_Filters (g_aInterfaces t ! n) \<noteq> 0
      then do { (_, t) \<leftarrow> disable_filtering (int n) t; filter_uninit_from ns t }
      else filter_uninit_from ns t)"

definition filter_uninit :: "filter_table \<Rightarrow> filter_table option" where
  "filter_uninit t = filter_uninit_from [0..<length (g_aInterfaces t)] t"

lemma filter_uninit_from_detached:
  assumes "\<forall>n \<in> set ns. n < length (g_aInterfaces t)"
  shows "filter_uninit_from ns t =
    Some (t\<lparr>detached := detached t @
      filter (\<lambda>f. f \<noteq> 0) (map (\<lambda>n. Interface_Filters (g_aInterfaces t ! n)) ns)\<rparr>)"
  using assms
proof (induction ns arbitrary: t)
  case Nil
  then show ?case by simp
next
  case (Cons n ns)
  then show ?case by (auto simp: disable_filtering_def Let_def)
qed

text \<open>Disabling the filter of a port that has one detaches exactly that filter, yet reports
  \<open>KERN_FAILURE\<close> and leaves the stale reference in the table, so that \<open>filter_uninit\<close>
  detaches the same filter a second time.\<close>

theorem disable_filtering_detaches_twice:
  assumes "n < length (g_aInterfaces t)" "Interface_Filters (g_aInterfaces t ! n) = f" "f \<noteq> 0"
  shows "\<exists>t'. disable_filtering (int n) t = Some (KERN_FAILURE, t') \<and>
    detached t' = detached t @ [f] \<and>
    (\<exists>t''. filter_uninit t' = Some t'' \<and> 2 \<le> count_list (detached t'') f)"
proof -
  let ?t' = "t\<lparr>detached := detached t @ [f]\<rparr>"
  have dis: "disable_filtering (int n) t = Some (KERN_FAILURE, ?t')"
    using assms by (simp add: disable_filtering_def Let_def)
  let ?fs = "filter (\<lambda>f. f \<noteq> 0)
      (map (\<lambda>n. Interface_Filters (g_aInterfaces t ! n)) [0..<length (g_aInterfaces t)])"
  have un: "filter_uninit ?t' = Some (?t'\<lparr>detached := (detached t @ [f]) @ ?fs\<rparr>)"
    using filter_uninit_from_detached [of "[0..<length (g_aInterfaces t)]" ?t']
    by (simp add: filter_uninit_def)
  have "f \<in> set ?fs" using assms by force
  then have "1 \<le> count_list ?fs f" by (rule count_list_ge_1)
  then have "2 \<le> count_list ((detached t @ [f]) @ ?fs) f" by (simp add: count_list_append)
  with dis un show ?thesis by auto
qed

definition example_filters :: filter_table where
  "example_filters = \<lparr>g_aInterfaces =
     (replicate 6 \<lparr>Interface_Filters = 0, fi_ifnet = 0\<rparr>)[1 := \<lparr>Interface_Filters = 7, fi_ifnet = 3\<rparr>],
     detached = []\<rparr>"

theorem disable_filtering_detaches_twice_witness:
  "\<exists>t'. disable_filtering 1 example_filters = Some (KERN_FAILURE, t') \<and>
     (\<exists>t''. filter_uninit t' = Some t'' \<and> 2 \<le> count_list (detached t'') 7)"
  using disable_filtering_detaches_twice [of 1 example_filters 7]
  by (auto simp: example_filters_def numeral_eq_Suc)

end
