(* ===== verification/NetInterfaces.thy ===== *)
theory NetInterfaces
  imports Kernel
begin

text \<open>
  The network interfaces and their congestion state: \<open>EInterface\<close> (\<open>AoE/EInterface.h\<close>,
  \<open>EInterface.cpp\<close>) and the table \<open>EInterfaces\<close> (\<open>EInterfaces.h\<close>,
  \<open>EInterfaces.cpp\<close>). Every accessor searches the table for the first entry with the given
  \<open>ifnet_t\<close>. A \<open>UInt32\<close> returned as an \<open>int\<close> is read with \<open>sint\<close>.
\<close>

section \<open>One interface\<close>

record EInterface =
  m_fEnabled :: bool
  m_ifnet :: ifnet
  m_nOutstandingCount :: int
  m_nSSThresh :: u32
  m_nCwd :: u32
  m_nCwdFractional :: u32
  m_TimeSinceLastSend :: u64
  m_anMaxOutstanding :: "int \<Rightarrow> u32"
  m_nMinimumMaxOutstanding :: u32

definition EInterface_init :: EInterface where
  "EInterface_init = \<lparr>m_fEnabled = False, m_ifnet = 0, m_nOutstandingCount = 0,
     m_nSSThresh = word_of_int DEFAULT_CONGESTION_WINDOW div 2, m_nCwd = 1, m_nCwdFractional = 0,
     m_TimeSinceLastSend = 0, m_anMaxOutstanding = (\<lambda>_. 0),
     m_nMinimumMaxOutstanding = word_of_int DEFAULT_CONGESTION_WINDOW\<rparr>"

text \<open>The shelf array has \<open>MAX_SHELFS\<close> entries; an index outside of it is a trap.
  \<open>MIN\<close> compares a \<open>UInt32\<close> with an \<open>int\<close>, that is as unsigned values.\<close>

definition EInterface_set_max_oustanding :: "int \<Rightarrow> int \<Rightarrow> EInterface \<Rightarrow> EInterface option" where
  "EInterface_set_max_oustanding nShelf nMaxOutstanding e =
     (if nShelf < 0 \<or> MAX_SHELFS \<le> nShelf then None
      else Some (e\<lparr>m_anMaxOutstanding :=
                    (m_anMaxOutstanding e)(nShelf := word_of_int nMaxOutstanding),
                  m_nMinimumMaxOutstanding :=
                    min (m_nMinimumMaxOutstanding e) (word_of_int nMaxOutstanding)\<rparr>))"

definition EInterface_get_max_oustanding :: "int \<Rightarrow> EInterface \<Rightarrow> int option" where
  "EInterface_get_max_oustanding nShelf e =
     (if nShelf < 0 \<or> MAX_SHELFS \<le> nShelf then None else Some (sint (m_anMaxOutstanding e nShelf)))"

definition EInterface_get_max_outstanding_all_shelves :: "EInterface \<Rightarrow> int" where
  "EInterface_get_max_outstanding_all_shelves e = sint (m_nMinimumMaxOutstanding e)"

section \<open>The table of interfaces\<close>

text \<open>\<open>prop_enabled\<close> is the registry property \<open>ENABLED_INTERFACES_PROPERTY\<close> of the provider.\<close>

record EInterfaces =
  m_aInterfaces :: "EInterface list"
  m_nInterfacesInUse :: int
  m_Min_MTU :: u32
  m_nMaxUserWindow :: int
  prop_enabled :: "nat list option"

definition EInterfaces_init :: EInterfaces where
  "EInterfaces_init = \<lparr>m_aInterfaces = replicate MAX_PORTS EInterface_init, m_nInterfacesInUse = 0,
     m_Min_MTU = 0, m_nMaxUserWindow = DEFAULT_CONGESTION_WINDOW, prop_enabled = None\<rparr>"

definition find_if :: "EInterfaces \<Rightarrow> ifnet \<Rightarrow> nat option" where
  "find_if I ifref = first_index (\<lambda>e. ifref = m_ifnet e) (m_aInterfaces I)"

text \<open>The setters return 0 when they found the interface and -1 when they did not.\<close>

definition update_if :: "ifnet \<Rightarrow> (EInterface \<Rightarrow> EInterface) \<Rightarrow> EInterfaces \<Rightarrow> int \<times> EInterfaces" where
  "update_if ifref f I = (case find_if I ifref of None \<Rightarrow> (- 1, I)
     | Some n \<Rightarrow> (0, I\<lparr>m_aInterfaces := (m_aInterfaces I)[n := f (m_aInterfaces I ! n)]\<rparr>))"

definition read_if :: "EInterfaces \<Rightarrow> ifnet \<Rightarrow> 'a \<Rightarrow> (EInterface \<Rightarrow> 'a) \<Rightarrow> 'a" where
  "read_if I ifref d g = (case find_if I ifref of None \<Rightarrow> d | Some n \<Rightarrow> g (m_aInterfaces I ! n))"

text \<open>\<open>set_max_outstanding\<close> has no \<open>break\<close>: every entry with that pointer is updated.\<close>

fun set_max_outstanding_loop :: "ifnet \<Rightarrow> int \<Rightarrow> int \<Rightarrow> EInterface list \<Rightarrow> EInterface list option" where
  "set_max_outstanding_loop ifref nShelf nMax [] = Some []"
| "set_max_outstanding_loop ifref nShelf nMax (e # es) = do {
     e \<leftarrow> (if ifref = m_ifnet e then EInterface_set_max_oustanding nShelf nMax e else Some e);
     es \<leftarrow> set_max_outstanding_loop ifref nShelf nMax es;
     Some (e # es) }"

definition EInterfaces_set_max_outstanding ::
    "ifnet \<Rightarrow> int \<Rightarrow> int \<Rightarrow> EInterfaces \<Rightarrow> EInterfaces option" where
  "EInterfaces_set_max_outstanding ifref nShelf nMax I = do {
     es \<leftarrow> set_max_outstanding_loop ifref nShelf nMax (m_aInterfaces I);
     Some (I\<lparr>m_aInterfaces := es\<rparr>) }"

definition EInterfaces_get_max_outstanding :: "EInterfaces \<Rightarrow> ifnet \<Rightarrow> int \<Rightarrow> int option" where
  "EInterfaces_get_max_outstanding I ifref nShelf =
     (if 0 \<le> nShelf
      then read_if I ifref (Some 0) (EInterface_get_max_oustanding nShelf)
      else read_if I ifref (Some 0) (\<lambda>e. Some (EInterface_get_max_outstanding_all_shelves e)))"

text \<open>1 used, 0 not used, -1 not in the table.\<close>

definition EInterfaces_is_used :: "EInterfaces \<Rightarrow> ifnet \<Rightarrow> int" where
  "EInterfaces_is_used I ifref = read_if I ifref (- 1) (\<lambda>e. if m_fEnabled e then 1 else 0)"

definition EInterfaces_get_outstanding :: "EInterfaces \<Rightarrow> ifnet \<Rightarrow> int" where
  "EInterfaces_get_outstanding I ifref = read_if I ifref (- 1) m_nOutstandingCount"

definition EInterfaces_get_cwnd :: "EInterfaces \<Rightarrow> ifnet \<Rightarrow> int" where
  "EInterfaces_get_cwnd I ifref = read_if I ifref (- 1) (\<lambda>e. sint (m_nCwd e))"

definition EInterfaces_get_time_since_last_send :: "EInterfaces \<Rightarrow> ifnet \<Rightarrow> u64" where
  "EInterfaces_get_time_since_last_send I ifref = read_if I ifref 0 m_TimeSinceLastSend"

definition EInterfaces_update_time_since_last_send :: "kernel \<Rightarrow> ifnet \<Rightarrow> EInterfaces \<Rightarrow> int \<times> EInterfaces" where
  "EInterfaces_update_time_since_last_send k ifref I =
     update_if ifref (\<lambda>e. e\<lparr>m_TimeSinceLastSend := uptime k\<rparr>) I"

definition EInterfaces_set_cwnd :: "ifnet \<Rightarrow> int \<Rightarrow> EInterfaces \<Rightarrow> int \<times> EInterfaces" where
  "EInterfaces_set_cwnd ifref nCwd I =
     update_if ifref (\<lambda>e. e\<lparr>m_nCwd := word_of_int nCwd, m_nCwdFractional := 0\<rparr>) I"

definition EInterfaces_get_ssthresh :: "EInterfaces \<Rightarrow> ifnet \<Rightarrow> int" where
  "EInterfaces_get_ssthresh I ifref = read_if I ifref (- 1) (\<lambda>e. sint (m_nSSThresh e))"

definition EInterfaces_set_ssthresh :: "ifnet \<Rightarrow> int \<Rightarrow> EInterfaces \<Rightarrow> int \<times> EInterfaces" where
  "EInterfaces_set_ssthresh ifref nSSThresh I =
     update_if ifref (\<lambda>e. e\<lparr>m_nSSThresh := word_of_int nSSThresh\<rparr>) I"

text \<open>The body of \<open>grow_cwnd\<close> on the entry it found; the division by the previous window traps
  when that window is 0.\<close>

definition EInterface_grow :: "int \<Rightarrow> int \<Rightarrow> EInterface \<Rightarrow> EInterface option" where
  "EInterface_grow nIntegerGrowth nFractionalGrowth e =
     (let nPrevCwnd = m_nCwd e;
          cwd = m_nCwd e + word_of_int nIntegerGrowth;
          frac = m_nCwdFractional e + word_of_int nFractionalGrowth
      in if cwd \<le> frac
         then if nPrevCwnd = 0 then None
              else Some (e\<lparr>m_nCwd := cwd + frac div nPrevCwnd, m_nCwdFractional := frac mod nPrevCwnd\<rparr>)
         else Some (e\<lparr>m_nCwd := cwd, m_nCwdFractional := frac\<rparr>))"

definition EInterfaces_grow_cwnd :: "ifnet \<Rightarrow> int \<Rightarrow> int \<Rightarrow> EInterfaces \<Rightarrow> (int \<times> EInterfaces) option" where
  "EInterfaces_grow_cwnd ifref nIntegerGrowth nFractionalGrowth I =
     (case find_if I ifref of None \<Rightarrow> Some (- 1, I)
      | Some n \<Rightarrow> do {
          e \<leftarrow> EInterface_grow nIntegerGrowth nFractionalGrowth (m_aInterfaces I ! n);
          Some (0, I\<lparr>m_aInterfaces := (m_aInterfaces I)[n := e]\<rparr>) })"

text \<open>0 when every enabled interface has at least \<open>nMax\<close> commands outstanding, -1 otherwise.\<close>

fun all_full_loop :: "int \<Rightarrow> EInterface list \<Rightarrow> int" where
  "all_full_loop nMax [] = 0"
| "all_full_loop nMax (e # es) =
     (if m_fEnabled e \<and> m_nOutstandingCount e < nMax then - 1 else all_full_loop nMax es)"

definition EInterfaces_all_full :: "EInterfaces \<Rightarrow> int \<Rightarrow> int" where
  "EInterfaces_all_full I nMax = all_full_loop nMax (m_aInterfaces I)"

text \<open>
  The pointer to an outstanding counter, as the index of its entry. The test that should report an
  unknown interface reads \<open>nInterfaceNum > numberof(m_aInterfaces)\<close>, which is never true: the
  result for an unknown interface is one past the end of the table.
\<close>

definition EInterfaces_get_ptr_outstanding :: "EInterfaces \<Rightarrow> ifnet \<Rightarrow> nat option" where
  "EInterfaces_get_ptr_outstanding I ifref =
     (let nInterfaceNum = (case find_if I ifref of Some n \<Rightarrow> n | None \<Rightarrow> length (m_aInterfaces I))
      in if nInterfaceNum > length (m_aInterfaces I) then None else Some nInterfaceNum)"

definition EInterfaces_get_nth_interface :: "EInterfaces \<Rightarrow> nat \<Rightarrow> ifnet" where
  "EInterfaces_get_nth_interface I n =
     (case first_index m_fEnabled (drop n (m_aInterfaces I)) of
        Some j \<Rightarrow> m_ifnet (m_aInterfaces I ! (n + j)) | None \<Rightarrow> 0)"

section \<open>Idle reset\<close>

definition reset_if_idle_step :: "kernel \<Rightarrow> u64 \<Rightarrow> nat \<Rightarrow> EInterfaces \<Rightarrow> EInterfaces" where
  "reset_if_idle_step k TimeOut n I =
     (let e = m_aInterfaces I ! n in
      if m_fEnabled e \<and> m_TimeSinceLastSend e \<noteq> 0
         \<and> TimeOut < time_since_now_us k (m_TimeSinceLastSend e)
      then
        let I = snd (EInterfaces_set_cwnd (m_ifnet e) 1 I);
            I = snd (EInterfaces_set_ssthresh (m_ifnet e)
                  (c_div (EInterface_get_max_outstanding_all_shelves (m_aInterfaces I ! n)) 2) I);
            e = m_aInterfaces I ! n
        in if m_nOutstandingCount e \<noteq> 0
           then I\<lparr>m_aInterfaces := (m_aInterfaces I)[n := e\<lparr>m_nOutstandingCount := 0\<rparr>]\<rparr> else I
      else I)"

definition EInterfaces_reset_if_idle :: "kernel \<Rightarrow> u64 \<Rightarrow> EInterfaces \<Rightarrow> EInterfaces" where
  "EInterfaces_reset_if_idle k TimeOut I =
     fold (reset_if_idle_step k TimeOut) [0..<length (m_aInterfaces I)] I"

section \<open>Enabling, disconnecting and reconnecting a port\<close>

text \<open>
  \<open>recalculate_mtu\<close>: with no enabled interface the source assigns 1500 and then overwrites it
  with the computed minimum, 0.
\<close>

fun min_mtu_loop :: "kernel \<Rightarrow> u32 \<Rightarrow> EInterface list \<Rightarrow> u32" where
  "min_mtu_loop k Min_MTU [] = Min_MTU"
| "min_mtu_loop k Min_MTU (e # es) =
     (if m_fEnabled e
      then min_mtu_loop k (if Min_MTU \<noteq> 0 then min (ifnet_mtu k (m_ifnet e)) Min_MTU
                           else ifnet_mtu k (m_ifnet e)) es
      else min_mtu_loop k Min_MTU es)"

definition recalculate_mtu :: "kernel \<Rightarrow> EInterfaces \<Rightarrow> EInterfaces" where
  "recalculate_mtu k I =
     (let Min_MTU = min_mtu_loop k 0 (m_aInterfaces I);
          I = (if Min_MTU = 0 then I\<lparr>m_Min_MTU := 1500\<rparr> else I)
      in I\<lparr>m_Min_MTU := Min_MTU\<rparr>)"

definition enabled_ports :: "EInterfaces \<Rightarrow> nat list" where
  "enabled_ports I = filter (\<lambda>n. m_fEnabled (m_aInterfaces I ! n)) [0..<length (m_aInterfaces I)]"

definition EInterfaces_update_interface_property :: "kernel \<Rightarrow> EInterfaces \<Rightarrow> EInterfaces" where
  "EInterfaces_update_interface_property k I =
     I\<lparr>prop_enabled := (if m_nInterfacesInUse I \<noteq> 0 \<and> OSArray_ok k (m_nInterfacesInUse I)
                        then Some (enabled_ports I) else None)\<rparr>"

definition mark_enabled :: "nat \<Rightarrow> ifnet \<Rightarrow> EInterfaces \<Rightarrow> EInterfaces" where
  "mark_enabled n enetifnet I =
     (let I = (if m_fEnabled (m_aInterfaces I ! n) then I
               else I\<lparr>m_nInterfacesInUse := m_nInterfacesInUse I + 1\<rparr>)
      in I\<lparr>m_aInterfaces := (m_aInterfaces I)
             [n := (m_aInterfaces I ! n)\<lparr>m_ifnet := enetifnet, m_fEnabled := True\<rparr>]\<rparr>)"

definition reset_congestion :: "nat \<Rightarrow> EInterfaces \<Rightarrow> EInterfaces" where
  "reset_congestion n I =
     (let I = snd (EInterfaces_set_cwnd (m_ifnet (m_aInterfaces I ! n)) 1 I);
          I = snd (EInterfaces_set_ssthresh (m_ifnet (m_aInterfaces I ! n))
                (c_div (EInterface_get_max_outstanding_all_shelves (m_aInterfaces I ! n)) 2) I)
      in I\<lparr>m_aInterfaces := (m_aInterfaces I)
             [n := (m_aInterfaces I ! n)\<lparr>m_nOutstandingCount := 0\<rparr>]\<rparr>)"

text \<open>
  \<open>enable_interface\<close>: only the upper bound of the port number is checked. The port is marked as
  enabled with whatever pointer the lookup left, also when the lookup failed.
\<close>

definition EInterfaces_enable_interface ::
    "kernel \<Rightarrow> int \<Rightarrow> EInterfaces \<Rightarrow> filter_table \<Rightarrow> (int \<times> EInterfaces \<times> filter_table) option" where
  "EInterfaces_enable_interface k nEthernetNumber I t =
     (if int MAX_PORTS \<le> nEthernetNumber then Some (- 1, I, t)
      else if nEthernetNumber < 0 \<or> int (length (m_aInterfaces I)) \<le> nEthernetNumber then None
      else do {
        let n = nat nEthernetNumber;
        let (retval, enetifnet) = find_by_name k nEthernetNumber;
        t \<leftarrow> (if retval = KERN_SUCCESS
              then map_option snd (enable_filtering k nEthernetNumber enetifnet t) else Some t);
        let I = reset_congestion n (mark_enabled n enetifnet I);
        let I = recalculate_mtu k I;
        let I = EInterfaces_update_interface_property k I;
        Some (retval, I, t) })"

definition EInterfaces_interface_disconnected :: "kernel \<Rightarrow> int \<Rightarrow> EInterfaces \<Rightarrow> (int \<times> EInterfaces) option" where
  "EInterfaces_interface_disconnected k nEthernetNumber I =
     (if int MAX_PORTS \<le> nEthernetNumber then Some (- 1, I)
      else if nEthernetNumber < 0 \<or> int (length (m_aInterfaces I)) \<le> nEthernetNumber then None
      else
        let n = nat nEthernetNumber;
            I = I\<lparr>m_aInterfaces := (m_aInterfaces I)
                   [n := (m_aInterfaces I ! n)\<lparr>m_ifnet := 0, m_fEnabled := False\<rparr>],
                  m_nInterfacesInUse := m_nInterfacesInUse I - 1\<rparr>
        in Some (0, EInterfaces_update_interface_property k I))"

definition EInterfaces_interface_reconnected :: "kernel \<Rightarrow> int \<Rightarrow> ifnet \<Rightarrow> EInterfaces \<Rightarrow> EInterfaces option" where
  "EInterfaces_interface_reconnected k nEthernetNumber enetifnet I =
     (if nEthernetNumber < 0 \<or> int (length (m_aInterfaces I)) \<le> nEthernetNumber then None
      else
        let n = nat nEthernetNumber;
            I = I\<lparr>m_aInterfaces := (m_aInterfaces I)
                   [n := (m_aInterfaces I ! n)\<lparr>m_ifnet := enetifnet, m_fEnabled := True\<rparr>],
                  m_nInterfacesInUse := m_nInterfacesInUse I + 1\<rparr>;
            I = recalculate_mtu k I
        in Some (EInterfaces_update_interface_property k I))"

text \<open>\<open>OSIncrementAtomic\<close> and \<open>OSDecrementAtomic\<close> through a counter pointer.\<close>

definition outstanding_at :: "EInterfaces \<Rightarrow> nat \<Rightarrow> int" where
  "outstanding_at I n = m_nOutstandingCount (m_aInterfaces I ! n)"

definition set_outstanding_at :: "nat \<Rightarrow> int \<Rightarrow> EInterfaces \<Rightarrow> EInterfaces option" where
  "set_outstanding_at n v I =
     (if n < length (m_aInterfaces I)
      then Some (I\<lparr>m_aInterfaces := (m_aInterfaces I)
                   [n := (m_aInterfaces I ! n)\<lparr>m_nOutstandingCount := v\<rparr>]\<rparr>)
      else None)"

definition add_outstanding_at :: "nat \<Rightarrow> int \<Rightarrow> EInterfaces \<Rightarrow> EInterfaces option" where
  "add_outstanding_at n d I = set_outstanding_at n (s32 (outstanding_at I n + d)) I"

section \<open>Reading back what was written\<close>

definition known :: "EInterfaces \<Rightarrow> ifnet \<Rightarrow> bool" where
  "known I r \<longleftrightarrow> find_if I r \<noteq> None"

lemma find_if_less: "find_if I r = Some n \<Longrightarrow> n < length (m_aInterfaces I)"
  by (simp add: find_if_def first_index_less)

lemma find_if_ifnet: "find_if I r = Some n \<Longrightarrow> m_ifnet (m_aInterfaces I ! n) = r"
  using first_index_nth [of "\<lambda>e. r = m_ifnet e" "m_aInterfaces I" n] by (simp add: find_if_def)

lemma find_if_update:
  assumes "\<And>e. m_ifnet (f e) = m_ifnet e"
  shows "find_if (snd (update_if r f I)) r' = find_if I r'"
proof (cases "find_if I r")
  case None
  then show ?thesis by (simp add: update_if_def)
next
  case (Some n)
  with assms show ?thesis
    by (simp add: update_if_def find_if_def first_index_update_iff first_index_less)
qed

lemma known_update:
  "(\<And>e. m_ifnet (f e) = m_ifnet e) \<Longrightarrow> known (snd (update_if r f I)) r' = known I r'"
  by (simp add: known_def find_if_update)

lemma read_if_update_same:
  assumes "\<And>e. m_ifnet (f e) = m_ifnet e" "known I r"
  shows "read_if (snd (update_if r f I)) r d g = read_if I r d (\<lambda>e. g (f e))"
proof -
  from assms(2) obtain n where n: "find_if I r = Some n" by (auto simp: known_def)
  then have "find_if (snd (update_if r f I)) r = Some n"
    using find_if_update [of f, OF assms(1)] by simp
  with n find_if_less [OF n] show ?thesis by (simp add: read_if_def update_if_def)
qed

lemma read_if_update_other:
  assumes "\<And>e. m_ifnet (f e) = m_ifnet e" "r \<noteq> r'"
  shows "read_if (snd (update_if r f I)) r' d g = read_if I r' d g"
proof (cases "find_if I r")
  case None
  then show ?thesis by (simp add: update_if_def)
next
  case (Some n)
  have find: "find_if (snd (update_if r f I)) r' = find_if I r'"
    using assms(1) by (rule find_if_update)
  show ?thesis
  proof (cases "find_if I r'")
    case None
    then show ?thesis by (simp add: read_if_def find)
  next
    case (Some m)
    have "m \<noteq> n"
      using find_if_ifnet [OF Some] find_if_ifnet [OF \<open>find_if I r = Some n\<close>] assms(2) by auto
    with Some \<open>find_if I r = Some n\<close> show ?thesis
      unfolding read_if_def find by (simp add: update_if_def)
  qed
qed

lemma read_if_update_field:
  assumes "\<And>e. m_ifnet (f e) = m_ifnet e" "\<And>e. g (f e) = g e"
  shows "read_if (snd (update_if r f I)) r' d g = read_if I r' d g"
proof (cases "r = r'")
  case True
  show ?thesis
  proof (cases "known I r")
    case known: True
    have "read_if (snd (update_if r f I)) r d g = read_if I r d (\<lambda>e. g (f e))"
      using assms(1) known by (rule read_if_update_same)
    with True assms(2) show ?thesis by simp
  next
    case False
    then have "update_if r f I = (- 1, I)" by (simp add: known_def update_if_def)
    then show ?thesis by simp
  qed
next
  case False
  with assms(1) show ?thesis by (rule read_if_update_other)
qed

lemma read_if_const [simp]: "known I r \<Longrightarrow> read_if I r d (\<lambda>_. c) = c"
  by (auto simp: read_if_def known_def)

text \<open>
  The interface every per-interface setting has: a getter and a setter keyed by \<open>ifnet_t\<close>.
  The client is the flow control of \<open>AoEService.cpp\<close>.
\<close>

locale interface_setting =
  fixes get :: "EInterfaces \<Rightarrow> ifnet \<Rightarrow> int"
    and set :: "ifnet \<Rightarrow> int \<Rightarrow> EInterfaces \<Rightarrow> EInterfaces"
  assumes get_set: "known I r \<Longrightarrow> - (2 ^ 31) \<le> v \<Longrightarrow> v < 2 ^ 31 \<Longrightarrow> get (set r v I) r = v"
    and get_set_other: "r \<noteq> r' \<Longrightarrow> get (set r v I) r' = get I r'"
    and known_set: "known (set r v I) r' = known I r'"
begin

lemma set_twice: "known I r \<Longrightarrow> - (2 ^ 31) \<le> w \<Longrightarrow> w < 2 ^ 31 \<Longrightarrow> get (set r w (set r v I)) r = w"
  by (simp add: get_set known_set)

lemma set_commute_get:
  "known I r \<Longrightarrow> r \<noteq> r' \<Longrightarrow> - (2 ^ 31) \<le> v \<Longrightarrow> v < 2 ^ 31 \<Longrightarrow> get (set r' w (set r v I)) r = v"
  by (simp add: get_set get_set_other)

end

text \<open>
  Two settings that do not disturb each other, a window and a threshold, with the back-off that
  a retransmission makes: half the window becomes the threshold and the window restarts at 1.
\<close>

locale congestion_settings =
  cw: interface_setting get_cw set_cw + th: interface_setting get_th set_th
  for get_cw set_cw get_th set_th +
  assumes cw_set_th: "get_cw (set_th r v I) r' = get_cw I r'"
    and th_set_cw: "get_th (set_cw r v I) r' = get_th I r'"
begin

lemma back_off:
  assumes "known I r" "w = max (c_div (get_cw I r) 2) 1" "get_cw I r < 2 ^ 31"
  shows "get_cw (set_cw r 1 (set_th r w I)) r = 1"
    and "get_th (set_cw r 1 (set_th r w I)) r = w"
    and "1 \<le> w"
proof -
  have le: "c_div c 2 \<le> max c 0" for c :: int
    by (cases "0 \<le> c") (auto simp: c_div_def sgn_if)
  have "w \<le> max (get_cw I r) 1" using assms(2) le [of "get_cw I r"] by linarith
  then have "w < 2 ^ 31" using assms(3) by (simp add: max_def split: if_splits)
  then show "get_th (set_cw r 1 (set_th r w I)) r = w"
    using assms by (simp add: th_set_cw th.get_set)
  show "get_cw (set_cw r 1 (set_th r w I)) r = 1" "1 \<le> w"
    using assms by (simp_all add: cw.get_set th.known_set)
qed

end

lemma sint_word_of_int_32: "- (2 ^ 31) \<le> v \<Longrightarrow> v < 2 ^ 31 \<Longrightarrow> sint (word_of_int v :: u32) = v"
  by (simp add: sint_sbintrunc' signed_take_bit_int_eq_self)

lemmas setting_defs = EInterfaces_get_cwnd_def EInterfaces_set_cwnd_def
  EInterfaces_get_ssthresh_def EInterfaces_set_ssthresh_def

interpretation cwnd: interface_setting
  EInterfaces_get_cwnd "\<lambda>r v I. snd (EInterfaces_set_cwnd r v I)"
  by unfold_locales
    (simp_all add: setting_defs read_if_update_same read_if_update_other known_update
      sint_word_of_int_32)

interpretation ssthresh: interface_setting
  EInterfaces_get_ssthresh "\<lambda>r v I. snd (EInterfaces_set_ssthresh r v I)"
  by unfold_locales
    (simp_all add: setting_defs read_if_update_same read_if_update_other known_update
      sint_word_of_int_32)

interpretation congestion: congestion_settings
  EInterfaces_get_cwnd "\<lambda>r v I. snd (EInterfaces_set_cwnd r v I)"
  EInterfaces_get_ssthresh "\<lambda>r v I. snd (EInterfaces_set_ssthresh r v I)"
  by unfold_locales (simp_all add: setting_defs read_if_update_field)

section \<open>Congestion window\<close>

text \<open>The window is positive and its fraction, counted in units of one window, is below it.\<close>

definition cwnd_ok :: "EInterface \<Rightarrow> bool" where
  "cwnd_ok e \<longleftrightarrow> 0 < m_nCwd e \<and> m_nCwdFractional e < m_nCwd e"

fun grow_times :: "nat \<Rightarrow> int \<Rightarrow> int \<Rightarrow> EInterface \<Rightarrow> EInterface option" where
  "grow_times 0 i f e = Some e"
| "grow_times (Suc n) i f e = Option.bind (EInterface_grow i f e) (grow_times n i f)"

lemma unat_Suc_less: "unat (w :: u32) < 2 ^ 32 - 1 \<Longrightarrow> unat (w + 1) = Suc (unat w)"
  by (simp add: unat_word_ariths)

lemma frac_step: "(f :: u32) < c \<Longrightarrow> unat (f + 1) = Suc (unat f)"
  using unsigned_less [of c, where 'a = nat] by (intro unat_Suc_less) (simp add: word_less_nat_alt)

lemma grow_fraction_below:
  assumes "m_nCwdFractional e + 1 < m_nCwd e"
  shows "EInterface_grow 0 1 e = Some (e\<lparr>m_nCwdFractional := m_nCwdFractional e + 1\<rparr>)"
  using assms by (auto simp: EInterface_grow_def Let_def)

lemma grow_fraction_rolls_over:
  assumes "0 < m_nCwd e" "m_nCwdFractional e + 1 = m_nCwd e"
  shows "EInterface_grow 0 1 e = Some (e\<lparr>m_nCwd := m_nCwd e + 1, m_nCwdFractional := 0\<rparr>)"
proof -
  have "m_nCwd e div m_nCwd e = 1" "m_nCwd e mod m_nCwd e = 0"
    using assms(1) by (auto simp: word_unat_eq_iff unat_div_distrib unat_mod_distrib word_less_nat_alt)
  with assms show ?thesis by (auto simp: EInterface_grow_def Let_def)
qed

text \<open>Slow start and congestion avoidance never trap and keep the window well formed: a growth
  by (1, 0) or by (0, 1), the only ones the receive path asks for, succeeds on a well-formed window
  below the largest value, adds at most one to it, and leaves the rest of the entry alone.\<close>

theorem grow_keeps_window:
  assumes "cwnd_ok e" "unat (m_nCwd e) < 2 ^ 32 - 1" "(i, f) = (1, 0) \<or> (i, f) = (0, 1)"
  shows "\<exists>e'. EInterface_grow i f e = Some e' \<and> cwnd_ok e'
    \<and> (m_nCwd e' = m_nCwd e \<or> m_nCwd e' = m_nCwd e + 1)
    \<and> e' = e\<lparr>m_nCwd := m_nCwd e', m_nCwdFractional := m_nCwdFractional e'\<rparr>"
proof -
  have pos: "0 < m_nCwd e" and frac: "m_nCwdFractional e < m_nCwd e"
    using assms(1) by (auto simp: cwnd_ok_def)
  have suc: "m_nCwd e < m_nCwd e + 1"
    using unat_Suc_less [OF assms(2)] by (simp add: word_less_nat_alt)
  from assms(3) show ?thesis
  proof
    assume "(i, f) = (1, 0)"
    with pos frac suc show ?thesis
      by (auto simp: EInterface_grow_def Let_def cwnd_ok_def)
  next
    assume "(i, f) = (0, 1)"
    moreover have "m_nCwdFractional e + 1 < m_nCwd e \<or> m_nCwdFractional e + 1 = m_nCwd e"
      using frac_step [OF frac] frac by (auto simp: word_less_nat_alt word_unat_eq_iff)
    ultimately show ?thesis
      using pos suc grow_fraction_below grow_fraction_rolls_over
      by (fastforce simp: cwnd_ok_def)
  qed
qed

lemma grow_keeps_window_witness:
  "\<exists>e'. EInterface_grow 0 1 EInterface_init = Some e' \<and> cwnd_ok e'
    \<and> (m_nCwd e' = m_nCwd EInterface_init \<or> m_nCwd e' = m_nCwd EInterface_init + 1)
    \<and> e' = EInterface_init\<lparr>m_nCwd := m_nCwd e', m_nCwdFractional := m_nCwdFractional e'\<rparr>"
  by (rule grow_keeps_window) (simp_all add: cwnd_ok_def EInterface_init_def)

lemma grow_times_fraction:
  "unat (m_nCwdFractional e) + n < unat (m_nCwd e) \<Longrightarrow>
   grow_times n 0 1 e = Some (e\<lparr>m_nCwdFractional := m_nCwdFractional e + of_nat n\<rparr>)"
proof (induction n arbitrary: e)
  case 0
  then show ?case by simp
next
  case (Suc n)
  have "m_nCwdFractional e < m_nCwd e" using Suc.prems by (simp add: word_less_nat_alt)
  then have s: "unat (m_nCwdFractional e + 1) = Suc (unat (m_nCwdFractional e))" by (rule frac_step)
  then have "EInterface_grow 0 1 e = Some (e\<lparr>m_nCwdFractional := m_nCwdFractional e + 1\<rparr>)"
    using Suc.prems by (intro grow_fraction_below) (simp add: word_less_nat_alt)
  with Suc.IH [of "e\<lparr>m_nCwdFractional := m_nCwdFractional e + 1\<rparr>"] Suc.prems s
  show ?case by (simp add: algebra_simps)
qed

lemma grow_times_add:
  "grow_times (m + n) i f e = Option.bind (grow_times m i f e) (grow_times n i f)"
  by (induction m arbitrary: e) (auto split: bind_splits)

text \<open>C29: congestion avoidance is additive increase, one segment per window: from a window of
  \<open>c\<close> segments with no fraction, exactly \<open>c\<close> acknowledgements (each growing the fraction by 1)
  make the window \<open>c + 1\<close>, again with no fraction.\<close>

theorem additive_increase:
  assumes "0 < m_nCwd e" "m_nCwdFractional e = 0"
  shows "grow_times (unat (m_nCwd e)) 0 1 e = Some (e\<lparr>m_nCwd := m_nCwd e + 1\<rparr>)"
proof -
  obtain n where n: "unat (m_nCwd e) = n + 1"
    using assms(1) by (cases "unat (m_nCwd e)") (auto simp: word_gt_0 unat_eq_0)
  let ?e = "e\<lparr>m_nCwdFractional := of_nat n\<rparr>"
  have "grow_times n 0 1 e = Some ?e"
    using grow_times_fraction [of e n] n assms(2) by simp
  moreover have "(of_nat n :: u32) + 1 = m_nCwd e"
  proof -
    have "m_nCwd e = word_of_nat (unat (m_nCwd e))" by simp
    also have "\<dots> = of_nat n + 1" unfolding n by simp
    finally show ?thesis by simp
  qed
  then have "EInterface_grow 0 1 ?e = Some (?e\<lparr>m_nCwd := m_nCwd e + 1, m_nCwdFractional := 0\<rparr>)"
    using grow_fraction_rolls_over [of ?e] assms(1) by simp
  ultimately show ?thesis
    using assms(2) unfolding n grow_times_add by (cases e) simp
qed

lemma additive_increase_witness:
  "grow_times 3 0 1 (EInterface_init\<lparr>m_nCwd := 3\<rparr>) = Some (EInterface_init\<lparr>m_nCwd := 4\<rparr>)"
  using additive_increase [of "EInterface_init\<lparr>m_nCwd := 3\<rparr>"] by (simp add: EInterface_init_def)

section \<open>Minimum MTU\<close>

definition enabled_mtus :: "kernel \<Rightarrow> EInterface list \<Rightarrow> u32 list" where
  "enabled_mtus k es = map (\<lambda>e. ifnet_mtu k (m_ifnet e)) (filter m_fEnabled es)"

lemma min_mtu_loop_min:
  "M \<noteq> 0 \<Longrightarrow> 0 \<notin> set (enabled_mtus k es) \<Longrightarrow>
   min_mtu_loop k M es = Min (insert M (set (enabled_mtus k es)))"
proof (induction es arbitrary: M)
  case Nil
  then show ?case by (simp add: enabled_mtus_def)
next
  case (Cons e es)
  show ?case
  proof (cases "m_fEnabled e")
    case True
    then have es: "enabled_mtus k (e # es) = ifnet_mtu k (m_ifnet e) # enabled_mtus k es"
      by (simp add: enabled_mtus_def)
    with Cons.prems have "min (ifnet_mtu k (m_ifnet e)) M \<noteq> 0" "0 \<notin> set (enabled_mtus k es)"
      by (auto simp: min_def)
    from Cons.IH [OF this] True Cons.prems(1) show ?thesis
      by (cases "set (enabled_mtus k es) = {}") (simp_all add: es ac_simps)
  qed (use Cons in \<open>simp add: enabled_mtus_def\<close>)
qed

text \<open>The MTU that the packet sizes are computed from is the smallest MTU of the enabled
  interfaces. With no interface enabled it is 0: the 1500 that the source assigns in this case is
  overwritten by the statement that follows.\<close>

theorem recalculate_mtu_minimum:
  assumes "0 \<notin> set (enabled_mtus k (m_aInterfaces I))"
  shows "m_Min_MTU (recalculate_mtu k I) =
    (if enabled_mtus k (m_aInterfaces I) = [] then 0
     else Min (set (enabled_mtus k (m_aInterfaces I))))"
proof -
  have "min_mtu_loop k 0 es = (if enabled_mtus k es = [] then 0 else Min (set (enabled_mtus k es)))"
    if "0 \<notin> set (enabled_mtus k es)" for es
    using that by (induction es) (simp_all add: enabled_mtus_def min_mtu_loop_min split: if_splits)
  with assms show ?thesis by (simp add: recalculate_mtu_def Let_def)
qed

lemma recalculate_mtu_minimum_witness:
  "m_Min_MTU (recalculate_mtu example_kernel EInterfaces_init) =
    (if enabled_mtus example_kernel (m_aInterfaces EInterfaces_init) = [] then 0
     else Min (set (enabled_mtus example_kernel (m_aInterfaces EInterfaces_init))))"
  by (rule recalculate_mtu_minimum) (auto simp: enabled_mtus_def example_kernel_def)

section \<open>The number of interfaces in use\<close>

definition in_use_ok :: "EInterfaces \<Rightarrow> bool" where
  "in_use_ok I \<longleftrightarrow> length (m_aInterfaces I) = MAX_PORTS
     \<and> m_nInterfacesInUse I = int (length (filter m_fEnabled (m_aInterfaces I)))"

lemma length_filter_update:
  "n < length xs \<Longrightarrow> length (filter p (xs[n := y])) + (if p (xs ! n) then 1 else 0)
     = length (filter p xs) + (if p y then 1 else 0)"
proof (induction xs arbitrary: n)
  case Nil
  then show ?case by simp
next
  case (Cons x xs)
  then show ?case by (cases n) auto
qed

lemma length_filter_update_same:
  "p y = p (xs ! n) \<Longrightarrow> length (filter p (xs[n := y])) = length (filter p xs)"
  using length_filter_update [of n xs p y] by (cases "n < length xs") (auto simp: list_update_beyond split: if_splits)

lemma in_use_ok_update_if:
  "(\<And>e. m_fEnabled (f e) = m_fEnabled e) \<Longrightarrow> in_use_ok I \<Longrightarrow> in_use_ok (snd (update_if r f I))"
  by (auto simp: in_use_ok_def update_if_def length_filter_update_same split: option.split)

lemma in_use_ok_setters:
  "in_use_ok I \<Longrightarrow> in_use_ok (snd (EInterfaces_set_cwnd r v I))"
  "in_use_ok I \<Longrightarrow> in_use_ok (snd (EInterfaces_set_ssthresh r v I))"
  "in_use_ok I \<Longrightarrow> in_use_ok (recalculate_mtu k I)"
  "in_use_ok I \<Longrightarrow> in_use_ok (EInterfaces_update_interface_property k I)"
  by (auto simp: setting_defs intro!: in_use_ok_update_if)
    (auto simp: recalculate_mtu_def EInterfaces_update_interface_property_def in_use_ok_def Let_def)

lemma in_use_ok_reset_congestion: "in_use_ok I \<Longrightarrow> in_use_ok (reset_congestion n I)"
proof -
  assume "in_use_ok I"
  moreover have "in_use_ok (I\<lparr>m_aInterfaces := (m_aInterfaces I)
      [n := (m_aInterfaces I ! n)\<lparr>m_nOutstandingCount := v\<rparr>]\<rparr>)" if "in_use_ok I" for I v
    using that by (simp add: in_use_ok_def length_filter_update_same)
  ultimately show ?thesis by (simp add: reset_congestion_def Let_def in_use_ok_setters)
qed

lemma in_use_ok_mark_enabled: "in_use_ok I \<Longrightarrow> n < MAX_PORTS \<Longrightarrow> in_use_ok (mark_enabled n p I)"
  using length_filter_update
    [of n "m_aInterfaces I" m_fEnabled "(m_aInterfaces I ! n)\<lparr>m_ifnet := p, m_fEnabled := True\<rparr>"]
  by (auto simp: in_use_ok_def mark_enabled_def)

text \<open>Enabling a port keeps the count of interfaces in use equal to the number of enabled
  entries, whatever the lookup of the interface returned and whether or not the port was
  enabled before.\<close>

theorem enable_keeps_in_use_count:
  assumes "in_use_ok I" "EInterfaces_enable_interface k p I t = Some (r, I', t')"
  shows "in_use_ok I'"
proof (cases "int MAX_PORTS \<le> p")
  case True
  with assms show ?thesis by (simp add: EInterfaces_enable_interface_def)
next
  case False
  then have "nat p < MAX_PORTS" by simp
  with assms False show ?thesis
    by (auto simp: EInterfaces_enable_interface_def Let_def split: if_splits bind_splits prod.splits
        intro!: in_use_ok_setters in_use_ok_reset_congestion in_use_ok_mark_enabled)
qed

definition example_ports :: "EInterfaces \<times> filter_table" where
  "example_ports = (EInterfaces_init,
     \<lparr>g_aInterfaces = replicate MAX_PORTS \<lparr>Interface_Filters = 0, fi_ifnet = 0\<rparr>, detached = []\<rparr>)"

lemma enable_keeps_in_use_count_witness:
  "case EInterfaces_enable_interface example_kernel 2 (fst example_ports) (snd example_ports) of
     Some (r, I', t') \<Rightarrow> r = 0 \<and> in_use_ok I' \<and> m_nInterfacesInUse I' = 1 | None \<Rightarrow> False"
proof -
  have ok: "in_use_ok (fst example_ports)"
    by (simp add: example_ports_def in_use_ok_def EInterfaces_init_def EInterface_init_def)
  have "case EInterfaces_enable_interface example_kernel 2 (fst example_ports) (snd example_ports) of
      Some (r, I', t') \<Rightarrow> r = 0 \<and> m_nInterfacesInUse I' = 1 | None \<Rightarrow> False"
    by code_simp
  then show ?thesis by (auto split: option.splits intro: enable_keeps_in_use_count [OF ok])
qed

text \<open>Disconnecting decrements the count whether or not the port was enabled: after
  disconnecting a port that was not, the count is one less than the number of enabled entries.\<close>

theorem disconnect_in_use_count:
  assumes "in_use_ok I" "0 \<le> p" "p < int MAX_PORTS"
  shows "\<exists>I'. EInterfaces_interface_disconnected k p I = Some (0, I') \<and>
    \<not> m_fEnabled (m_aInterfaces I' ! nat p) \<and>
    m_nInterfacesInUse I' = int (length (filter m_fEnabled (m_aInterfaces I')))
      - (if m_fEnabled (m_aInterfaces I ! nat p) then 0 else 1)"
proof -
  have "nat p < length (m_aInterfaces I)" using assms by (auto simp: in_use_ok_def)
  then show ?thesis
    using assms length_filter_update [of "nat p" "m_aInterfaces I" m_fEnabled
        "(m_aInterfaces I ! nat p)\<lparr>m_ifnet := 0, m_fEnabled := False\<rparr>"]
    by (auto simp: EInterfaces_interface_disconnected_def Let_def in_use_ok_def
        EInterfaces_update_interface_property_def)
qed

lemma disconnect_in_use_count_witness:
  "\<exists>I'. EInterfaces_interface_disconnected example_kernel 3 EInterfaces_init = Some (0, I') \<and>
    \<not> m_fEnabled (m_aInterfaces I' ! nat 3) \<and>
    m_nInterfacesInUse I' = int (length (filter m_fEnabled (m_aInterfaces I')))
      - (if m_fEnabled (m_aInterfaces EInterfaces_init ! nat 3) then 0 else 1)"
  by (rule disconnect_in_use_count) (simp_all add: in_use_ok_def EInterfaces_init_def EInterface_init_def)

section \<open>Idle reset, entry by entry\<close>

text \<open>Every enabled entry is the one its own pointer is looked up to.\<close>

definition table_ok :: "EInterfaces \<Rightarrow> bool" where
  "table_ok I \<longleftrightarrow> (\<forall>n < length (m_aInterfaces I). m_fEnabled (m_aInterfaces I ! n) \<longrightarrow>
     find_if I (m_ifnet (m_aInterfaces I ! n)) = Some n)"

definition idle_entry :: "kernel \<Rightarrow> u64 \<Rightarrow> EInterface \<Rightarrow> EInterface" where
  "idle_entry k TimeOut e =
     (if m_fEnabled e \<and> m_TimeSinceLastSend e \<noteq> 0 \<and> TimeOut < time_since_now_us k (m_TimeSinceLastSend e)
      then e\<lparr>m_nCwd := 1, m_nCwdFractional := 0, m_nOutstandingCount := 0,
             m_nSSThresh := word_of_int (c_div (EInterface_get_max_outstanding_all_shelves e) 2)\<rparr>
      else e)"

lemma idle_entry_fields [simp]:
  "m_ifnet (idle_entry k T e) = m_ifnet e" "m_fEnabled (idle_entry k T e) = m_fEnabled e"
  by (simp_all add: idle_entry_def)

lemma table_ok_update:
  assumes "table_ok I" "n < length (m_aInterfaces I)"
    "m_ifnet e = m_ifnet (m_aInterfaces I ! n)" "m_fEnabled e = m_fEnabled (m_aInterfaces I ! n)"
  shows "table_ok (I\<lparr>m_aInterfaces := (m_aInterfaces I)[n := e]\<rparr>)"
  using assms by (auto simp: table_ok_def find_if_def first_index_update_iff nth_list_update)

lemma reset_if_idle_step_entry:
  assumes "table_ok I" "n < length (m_aInterfaces I)"
  shows "reset_if_idle_step k T n I =
    I\<lparr>m_aInterfaces := (m_aInterfaces I)[n := idle_entry k T (m_aInterfaces I ! n)]\<rparr>"
proof (cases "m_fEnabled (m_aInterfaces I ! n) \<and> m_TimeSinceLastSend (m_aInterfaces I ! n) \<noteq> 0
    \<and> T < time_since_now_us k (m_TimeSinceLastSend (m_aInterfaces I ! n))")
  case True
  with assms have "first_index (\<lambda>e. m_ifnet (m_aInterfaces I ! n) = m_ifnet e) (m_aInterfaces I) = Some n"
    by (simp add: table_ok_def find_if_def)
  with True assms(2) show ?thesis
    by (cases "m_aInterfaces I ! n") (simp add: reset_if_idle_step_def idle_entry_def Let_def
        setting_defs update_if_def find_if_def first_index_update
        EInterface_get_max_outstanding_all_shelves_def)
next
  case False
  show ?thesis
    unfolding reset_if_idle_step_def idle_entry_def Let_def if_not_P [OF False] by simp
qed

lemma fold_reset_if_idle:
  assumes "table_ok I" "j \<le> length (m_aInterfaces I)"
  shows "fold (reset_if_idle_step k T) [0..<j] I =
      I\<lparr>m_aInterfaces := map (idle_entry k T) (take j (m_aInterfaces I)) @ drop j (m_aInterfaces I)\<rparr>
    \<and> table_ok (fold (reset_if_idle_step k T) [0..<j] I)"
  using assms(2)
proof (induction j)
  case 0
  with assms(1) show ?case by simp
next
  case (Suc j)
  let ?I = "fold (reset_if_idle_step k T) [0..<j] I"
  have *: "?I = I\<lparr>m_aInterfaces := map (idle_entry k T) (take j (m_aInterfaces I)) @ drop j (m_aInterfaces I)\<rparr>"
    and ok: "table_ok ?I" using Suc by auto
  have len: "j < length (m_aInterfaces ?I)" using Suc.prems by (simp add: *)
  have step: "reset_if_idle_step k T j ?I =
      ?I\<lparr>m_aInterfaces := (m_aInterfaces ?I)[j := idle_entry k T (m_aInterfaces ?I ! j)]\<rparr>"
    using ok len by (rule reset_if_idle_step_entry)
  have "table_ok (reset_if_idle_step k T j ?I)"
    unfolding step using ok len by (intro table_ok_update) auto
  moreover have "reset_if_idle_step k T j ?I = I\<lparr>m_aInterfaces :=
      map (idle_entry k T) (take (Suc j) (m_aInterfaces I)) @ drop (Suc j) (m_aInterfaces I)\<rparr>"
    unfolding step unfolding * using Suc.prems
    by (simp add: nth_append list_update_append take_Suc_conv_app_nth
        Cons_nth_drop_Suc [symmetric])
  ultimately show ?case by simp
qed

text \<open>The idle watchdog treats every interface on its own: an enabled interface that last sent
  longer ago than the timeout restarts at window 1 with threshold half the smallest shelf limit and
  no command outstanding, and every other interface keeps its state.\<close>

theorem reset_if_idle_per_interface:
  assumes "table_ok I"
  shows "EInterfaces_reset_if_idle k T I = I\<lparr>m_aInterfaces := map (idle_entry k T) (m_aInterfaces I)\<rparr>"
  using fold_reset_if_idle [OF assms, of "length (m_aInterfaces I)" k T]
  by (simp add: EInterfaces_reset_if_idle_def)

definition example_table :: EInterfaces where
  "example_table = EInterfaces_init\<lparr>m_aInterfaces := (m_aInterfaces EInterfaces_init)
     [2 := EInterface_init\<lparr>m_fEnabled := True, m_ifnet := 3, m_nCwd := 9, m_nOutstandingCount := 4,
                           m_TimeSinceLastSend := 5\<rparr>],
     m_nInterfacesInUse := 1\<rparr>"

lemma table_ok_example: "table_ok example_table"
  by (auto simp: table_ok_def example_table_def EInterfaces_init_def EInterface_init_def
      find_if_def numeral_eq_Suc less_Suc_eq nth_Cons')

lemma reset_if_idle_per_interface_witness:
  "EInterfaces_reset_if_idle example_kernel 10 example_table
     = example_table\<lparr>m_aInterfaces := map (idle_entry example_kernel 10) (m_aInterfaces example_table)\<rparr>"
  by (rule reset_if_idle_per_interface) (rule table_ok_example)

end
