(* ===== verification/FlowControl.thy ===== *)
theory FlowControl
  imports NetInterfaces
begin

unbundle bit_operations_syntax

text \<open>
  Flow control of \<open>AoE/AoEService.cpp\<close>: the queue of packets to send, the queue of packets sent
  and not yet answered, the round trip estimate, the three timers, and the functions that move
  packets between the queues.

  A queue is a list, a queue item a record; \<open>pOutstandingCount\<close> is the index of the interface
  whose counter it points to. The mutexes are not modelled: each operation runs alone, and the clock
  does not advance during one operation. \<open>mbuf_dup\<close> with \<open>MBUF_WAITOK\<close> copies the packet, and an
  mbuf always has data. \<open>ifnet_output\<close> logs the calls of \<open>ifnet_output_raw\<close>.
\<close>

section \<open>State\<close>

record SentPkt =
  first_mbuf :: packet
  sq_if_sent :: ifnet
  TimeSent :: u64
  TimeFirstSent :: u64
  RetransmitTime_us :: u64
  sq_Tag :: u32
  sq_nShelf :: u32
  fPacketHasBeenRetransmit :: bool
  sq_pOutstandingCount :: "nat option"

record ToSendPkt =
  ts_mbuf :: packet
  ts_if_sent :: ifnet
  ts_Tag :: u32
  ts_nShelf :: u32
  fSendImmediately :: bool
  ts_pOutstandingCount :: "nat option"

record timer =
  tm_enabled :: bool
  tm_timeout_us :: u32

record service =
  m_sent_queue :: "SentPkt list"
  m_to_send_queue :: "ToSendPkt list"
  m_pInterfaces :: EInterfaces
  m_nRTO_ns :: u64
  m_nScaledRTTavg :: int
  m_nScaledRTTvar :: int
  m_MaxTimeOutBeforeDrop :: u64
  m_pRetransmitTimer :: timer
  m_pTransmitTimer :: timer
  m_pIdleTimer :: timer
  m_nNumUnexpectedResponses :: int
  m_nNumRetransmits :: int
  m_nLoggingLevel :: int
  m_pszOurCString :: "u8 list"
  prop_our_cstring :: "u8 list option"
  ifnet_output :: "(ifnet \<times> packet) list"

abbreviation (input) RTO_MIN_NS :: u64 where "RTO_MIN_NS \<equiv> 1000000"
abbreviation (input) RTO_MAX_NS :: u64 where "RTO_MAX_NS \<equiv> 10000000"
abbreviation (input) MAX_RETRANSMIT_TIMEOUT_US :: u64 where "MAX_RETRANSMIT_TIMEOUT_US \<equiv> 5000"
abbreviation (input) MAX_TIMEOUT_BEFORE_DROP_US :: u64 where "MAX_TIMEOUT_BEFORE_DROP_US \<equiv> 60000000"
abbreviation (input) IDLE_DELAY_US :: u32 where "IDLE_DELAY_US \<equiv> 5000000"

definition timer_off :: timer where
  "timer_off = \<lparr>tm_enabled = False, tm_timeout_us = 0\<rparr>"

text \<open>The state \<open>start\<close> leaves, with a zeroed configuration string buffer.\<close>

definition service_start :: service where
  "service_start = \<lparr>m_sent_queue = [], m_to_send_queue = [], m_pInterfaces = EInterfaces_init,
     m_nRTO_ns = RTO_MAX_NS, m_nScaledRTTavg = 0, m_nScaledRTTvar = 0,
     m_MaxTimeOutBeforeDrop = MAX_TIMEOUT_BEFORE_DROP_US, m_pRetransmitTimer = timer_off,
     m_pTransmitTimer = timer_off, m_pIdleTimer = timer_off, m_nNumUnexpectedResponses = 0,
     m_nNumRetransmits = 0, m_nLoggingLevel = 0,
     m_pszOurCString = replicate MAX_CONFIG_STRING_LENGTH 0, prop_our_cstring = None, ifnet_output = []\<rparr>"

text \<open>\<open>stop\<close>: the timers are removed and both queues emptied.\<close>

definition service_stop :: "service \<Rightarrow> service" where
  "service_stop s = s\<lparr>m_pTransmitTimer := timer_off, m_pRetransmitTimer := timer_off,
     m_pIdleTimer := timer_off, m_sent_queue := [], m_to_send_queue := [], m_pszOurCString := [],
     prop_our_cstring := None, m_pInterfaces := (m_pInterfaces s)\<lparr>prop_enabled := None\<rparr>\<rparr>"

section \<open>Round trip estimate\<close>

definition update_rto :: "u64 \<Rightarrow> service \<Rightarrow> service" where
  "update_rto nRTT s =
     (let nErr = s32 (uint nRTT - m_nScaledRTTavg s);
          avg = s32 (m_nScaledRTTavg s + nErr div 8);
          nErr = (if nErr < 0 then s32 (- nErr) else nErr);
          nErr = s32 (nErr - m_nScaledRTTvar s);
          var = s32 (m_nScaledRTTvar s + nErr div 4)
      in s\<lparr>m_nScaledRTTavg := avg, m_nScaledRTTvar := var,
           m_nRTO_ns := word_of_int (s32 (avg + s32 (var * 4)))\<rparr>)"

definition get_rto_us :: "service \<Rightarrow> u64" where
  "get_rto_us s = CONVERT_NS_TO_US (max (m_nRTO_ns s) RTO_MIN_NS)"

section \<open>Timers\<close>

text \<open>\<open>setTimeoutUS\<close> takes 32 bits. \<open>TRIGGER_RETRANSMIT_WHEN_TX_COMPLETE\<close> is defined: the retransmit
  timer restarts at every call; the transmit timer keeps running when it already does.\<close>

definition enable_retransmit_timer :: "service \<Rightarrow> service" where
  "enable_retransmit_timer s =
     s\<lparr>m_pRetransmitTimer := \<lparr>tm_enabled = True, tm_timeout_us = ucast (get_rto_us s)\<rparr>\<rparr>"

definition enable_transmit_timer :: "int \<Rightarrow> service \<Rightarrow> service" where
  "enable_transmit_timer nDelaySend_us s =
     (if tm_enabled (m_pTransmitTimer s) then s
      else s\<lparr>m_pTransmitTimer := \<lparr>tm_enabled = True, tm_timeout_us = word_of_int nDelaySend_us\<rparr>\<rparr>)"

definition enable_idle_timer :: "service \<Rightarrow> service" where
  "enable_idle_timer s = s\<lparr>m_pIdleTimer := \<lparr>tm_enabled = True, tm_timeout_us = IDLE_DELAY_US\<rparr>\<rparr>"

definition IdleTimer :: "kernel \<Rightarrow> service \<Rightarrow> service" where
  "IdleTimer k s = s\<lparr>m_pInterfaces := EInterfaces_reset_if_idle k (ucast IDLE_DELAY_US) (m_pInterfaces s)\<rparr>"

section \<open>Queues\<close>

definition add_to_send_queue ::
    "kernel \<Rightarrow> ifnet \<Rightarrow> u32 \<Rightarrow> packet \<Rightarrow> u32 \<Rightarrow> nat option \<Rightarrow> bool \<Rightarrow> service \<Rightarrow> int \<times> service" where
  "add_to_send_queue k ifp tag m nShelf pOut imm s =
     (let s = (if IOMalloc_to_send_ok k
               then s\<lparr>m_to_send_queue := m_to_send_queue s @
                      [\<lparr>ts_mbuf = m, ts_if_sent = ifp, ts_Tag = tag, ts_nShelf = nShelf,
                        fSendImmediately = imm, ts_pOutstandingCount = pOut\<rparr>]\<rparr>
               else s)
      in (0, enable_transmit_timer 0 s))"

definition remove_to_send :: "ToSendPkt \<Rightarrow> service \<Rightarrow> service" where
  "remove_to_send i s = s\<lparr>m_to_send_queue := remove1 i (m_to_send_queue s)\<rparr>"

definition purge_to_send :: "service \<Rightarrow> service" where
  "purge_to_send s = s\<lparr>m_to_send_queue :=
     filter (\<lambda>i. EInterfaces_is_used (m_pInterfaces s) (ts_if_sent i) = 1) (m_to_send_queue s)\<rparr>"

definition purge_sent :: "service \<Rightarrow> service" where
  "purge_sent s = s\<lparr>m_sent_queue :=
     filter (\<lambda>i. EInterfaces_is_used (m_pInterfaces s) (sq_if_sent i) = 1) (m_sent_queue s)\<rparr>"

definition add_outstanding :: "nat option \<Rightarrow> int \<Rightarrow> service \<Rightarrow> service option" where
  "add_outstanding p d s = (case p of None \<Rightarrow> None
     | Some n \<Rightarrow> map_option (\<lambda>I. s\<lparr>m_pInterfaces := I\<rparr>) (add_outstanding_at n d (m_pInterfaces s)))"

section \<open>Sending\<close>

definition new_sent_item :: "service \<Rightarrow> ifnet \<Rightarrow> u32 \<Rightarrow> packet \<Rightarrow> int \<Rightarrow> bool \<Rightarrow> SentPkt" where
  "new_sent_item s ifp tag m nShelf fRetransmit =
     \<lparr>first_mbuf = m, sq_if_sent = ifp, TimeSent = 0, TimeFirstSent = 0,
      RetransmitTime_us = (if fRetransmit then get_rto_us s else 0), sq_Tag = tag,
      sq_nShelf = word_of_int nShelf, fPacketHasBeenRetransmit = False,
      sq_pOutstandingCount = EInterfaces_get_ptr_outstanding (m_pInterfaces s) ifp\<rparr>"

text \<open>When the allocation of the sent item fails the source goes on to read its counter pointer.\<close>

definition send_packet_on_interface ::
    "kernel \<Rightarrow> ifnet \<Rightarrow> u32 \<Rightarrow> packet \<Rightarrow> int \<Rightarrow> bool \<Rightarrow> service \<Rightarrow> (int \<times> service) option" where
  "send_packet_on_interface k ifp tag m nShelf fRetransmit s =
     (if EInterfaces_is_used (m_pInterfaces s) ifp \<noteq> 1 then Some (- 1, purge_to_send s)
      else
        let result = ifnet_lladdr_err k ifp in
        if result \<noteq> 0 then Some (result, s)
        else
          let m = m\<lparr>ether_shost := ifnet_lladdr k ifp\<rparr> in
          if \<not> IOMalloc_sent_ok k then None
          else
            let item = new_sent_item s ifp tag m nShelf fRetransmit;
                s = s\<lparr>m_sent_queue := m_sent_queue s @ [item]\<rparr>
            in Some (add_to_send_queue k ifp tag m (word_of_int nShelf)
                       (sq_pOutstandingCount item) False s))"

text \<open>The times of the first sent item with the tag are set when the packet really goes out.\<close>

definition stamp :: "u64 \<Rightarrow> SentPkt \<Rightarrow> SentPkt" where
  "stamp now i = (if TimeFirstSent i = 0 then i\<lparr>TimeFirstSent := now, TimeSent := now\<rparr>
                  else i\<lparr>TimeSent := now\<rparr>)"

definition send_packet_from_queue :: "kernel \<Rightarrow> ToSendPkt \<Rightarrow> service \<Rightarrow> service option" where
  "send_packet_from_queue k i s =
     (if \<exists>p \<in> set (m_sent_queue s). sq_Tag p = ts_Tag i
      then do {
        let s = s\<lparr>m_sent_queue :=
                    update_first (\<lambda>p. sq_Tag p = ts_Tag i) (stamp (uptime k)) (m_sent_queue s)\<rparr>;
        s \<leftarrow> (if fSendImmediately i then Some s else add_outstanding (ts_pOutstandingCount i) 1 s);
        let s = s\<lparr>m_pInterfaces :=
                    snd (EInterfaces_update_time_since_last_send k (ts_if_sent i) (m_pInterfaces s))\<rparr>;
        let s = s\<lparr>ifnet_output := ifnet_output s @ [(ts_if_sent i, ts_mbuf i)]\<rparr>;
        let s = enable_retransmit_timer s;
        let s = (if ts_Tag i AND TAG_BROADCAST_MASK = 0 then enable_idle_timer s else s);
        Some (remove_to_send i s) }
      else Some (remove_to_send i s))"

section \<open>The transmit timer\<close>

text \<open>The limit on outstanding commands for an item: congestion window, shelf, user window.\<close>

definition max_outstanding :: "service \<Rightarrow> ToSendPkt \<Rightarrow> int option" where
  "max_outstanding s i = do {
     let nCWND = EInterfaces_get_cwnd (m_pInterfaces s) (ts_if_sent i);
     nMaxForThisShelf \<leftarrow>
       EInterfaces_get_max_outstanding (m_pInterfaces s) (ts_if_sent i) (sint (ts_nShelf i));
     Some (min (min nCWND nMaxForThisShelf) (m_nMaxUserWindow (m_pInterfaces s))) }"

fun send_immediate_loop :: "kernel \<Rightarrow> ToSendPkt list \<Rightarrow> service \<Rightarrow> service option" where
  "send_immediate_loop k [] s = Some s"
| "send_immediate_loop k (i # is) s =
     (if fSendImmediately i
      then do { s \<leftarrow> send_packet_from_queue k i s; send_immediate_loop k is s }
      else send_immediate_loop k is s)"

text \<open>At most one packet is sent; the result says whether one was.\<close>

fun transmit_loop :: "kernel \<Rightarrow> ToSendPkt list \<Rightarrow> service \<Rightarrow> (bool \<times> service) option" where
  "transmit_loop k [] s = Some (False, s)"
| "transmit_loop k (i # is) s = do {
     let nOutstanding = EInterfaces_get_outstanding (m_pInterfaces s) (ts_if_sent i);
     nMaxoutstanding \<leftarrow> max_outstanding s i;
     (if nMaxoutstanding \<le> nOutstanding
      then if EInterfaces_all_full (m_pInterfaces s) nMaxoutstanding = 0 then Some (False, s)
           else transmit_loop k is s
      else do { s \<leftarrow> send_packet_from_queue k i s; Some (True, s) }) }"

definition TransmitTimer :: "kernel \<Rightarrow> service \<Rightarrow> service option" where
  "TransmitTimer k s = do {
     let s = s\<lparr>m_pTransmitTimer := (m_pTransmitTimer s)\<lparr>tm_enabled := False\<rparr>\<rparr>;
     s \<leftarrow> send_immediate_loop k (m_to_send_queue s) s;
     (fMoreToSend, s) \<leftarrow> transmit_loop k (m_to_send_queue s) s;
     Some (if fMoreToSend \<and> m_to_send_queue s \<noteq> [] then enable_transmit_timer 3 s else s) }"

section \<open>The retransmit timer\<close>

text \<open>The fields of a sent item that \<open>resend_packet\<close> changes.\<close>

definition resent :: "SentPkt \<Rightarrow> SentPkt" where
  "resent i = i\<lparr>RetransmitTime_us := min (2 * RetransmitTime_us i) MAX_RETRANSMIT_TIMEOUT_US,
                TimeSent := 0, fPacketHasBeenRetransmit := True\<rparr>"

text \<open>\<open>nTargets\<close>: the number of targets the controller interface knows, \<open>None\<close> when there is no
  controller interface.\<close>

definition resend_packet :: "kernel \<Rightarrow> int option \<Rightarrow> SentPkt \<Rightarrow> service \<Rightarrow> SentPkt \<times> service" where
  "resend_packet k nTargets i s =
     (let i = resent i;
          s = snd (add_to_send_queue k (sq_if_sent i) (sq_Tag i) (first_mbuf i) (sq_nShelf i)
                     (sq_pOutstandingCount i) True s)
      in (i, case nTargets of
               Some n \<Rightarrow> if n > 0 then s\<lparr>m_nNumRetransmits := s32 (m_nNumRetransmits s + 1)\<rparr> else s
             | None \<Rightarrow> s))"

text \<open>The back-off of the first timed-out packet of a timer run.\<close>

definition back_off :: "ifnet \<Rightarrow> service \<Rightarrow> service" where
  "back_off ifref s =
     (let I = m_pInterfaces s;
          nPrevCWND = EInterfaces_get_cwnd I ifref;
          nSSThresh = max (c_div nPrevCWND 2) 1;
          I = snd (EInterfaces_set_ssthresh ifref nSSThresh I);
          I = snd (EInterfaces_set_cwnd ifref 1 I)
      in s\<lparr>m_pInterfaces := I\<rparr>)"

text \<open>
  One item of the sent queue. The result is what is left of the item in the queue (\<open>None\<close>: removed),
  whether the window has been adjusted, and the service. A removed item is freed before its flag and
  its counter pointer are read: \<open>freed\<close> is what the freed block then reads as.
\<close>

definition retransmit_item ::
    "kernel \<Rightarrow> (SentPkt \<Rightarrow> SentPkt) \<Rightarrow> int option \<Rightarrow> SentPkt \<Rightarrow> bool \<Rightarrow> service
      \<Rightarrow> (SentPkt option \<times> bool \<times> service) option" where
  "retransmit_item k freed nTargets i fHaveAdjustedCWND s =
     (if RetransmitTime_us i \<noteq> 0 then
        if TimeFirstSent i \<noteq> 0 \<and> TimeSent i \<noteq> 0 then
          if m_MaxTimeOutBeforeDrop s < time_since_now_us k (TimeFirstSent i) then do {
            s \<leftarrow> (if \<not> fPacketHasBeenRetransmit (freed i)
                  then add_outstanding (sq_pOutstandingCount (freed i)) (- 1) s else Some s);
            Some (None, fHaveAdjustedCWND, s) }
          else if RetransmitTime_us i < time_since_now_us k (TimeSent i) then do {
            let s = (if fHaveAdjustedCWND then s else back_off (sq_if_sent i) s);
            s \<leftarrow> (if \<not> fPacketHasBeenRetransmit i
                  then add_outstanding (sq_pOutstandingCount i) (- 1) s else Some s);
            let (i, s) = resend_packet k nTargets i s;
            Some (Some i, True, s) }
          else Some (Some i, fHaveAdjustedCWND, s)
        else Some (Some i, fHaveAdjustedCWND, s)
      else do {
        s \<leftarrow> (if \<not> fPacketHasBeenRetransmit (freed i)
              then add_outstanding (sq_pOutstandingCount (freed i)) (- 1) s else Some s);
        Some (None, fHaveAdjustedCWND, s) })"

text \<open>The loop over the sent queue: the items already visited and kept, and those to visit.\<close>

fun retransmit_loop ::
    "kernel \<Rightarrow> (SentPkt \<Rightarrow> SentPkt) \<Rightarrow> int option \<Rightarrow> SentPkt list \<Rightarrow> SentPkt list \<Rightarrow> bool \<Rightarrow> service
      \<Rightarrow> service option" where
  "retransmit_loop k freed nTargets kept [] adj s = Some (s\<lparr>m_sent_queue := kept\<rparr>)"
| "retransmit_loop k freed nTargets kept (i # is) adj s = do {
     (r, adj, s) \<leftarrow> retransmit_item k freed nTargets i adj s;
     retransmit_loop k freed nTargets (kept @ (case r of Some i \<Rightarrow> [i] | None \<Rightarrow> [])) is adj s }"

definition RetransmitTimer ::
    "kernel \<Rightarrow> (SentPkt \<Rightarrow> SentPkt) \<Rightarrow> int option \<Rightarrow> service \<Rightarrow> service option" where
  "RetransmitTimer k freed nTargets s = do {
     let s = s\<lparr>m_pRetransmitTimer := (m_pRetransmitTimer s)\<lparr>tm_enabled := False\<rparr>\<rparr>;
     s \<leftarrow> retransmit_loop k freed nTargets [] (m_sent_queue s) False s;
     Some (if m_sent_queue s \<noteq> [] then enable_retransmit_timer s else s) }"

section \<open>A response to a sent packet\<close>

text \<open>
  The first part of \<open>cg_aoe_incoming\<close>, for a packet with the response flag: the first sent item with
  its tag is taken off the queue, its counter decremented and kept at 0 or above, the round trip
  estimate and the congestion window of its interface updated. The item is freed before its
  interface is read. The result says whether the tag was found.
\<close>

definition response_outstanding :: "SentPkt \<Rightarrow> service \<Rightarrow> service option" where
  "response_outstanding i s =
     (case sq_pOutstandingCount i of None \<Rightarrow> Some s
      | Some n \<Rightarrow> do {
          s \<leftarrow> (if \<not> fPacketHasBeenRetransmit i then add_outstanding (Some n) (- 1) s else Some s);
          if outstanding_at (m_pInterfaces s) n < 0
          then map_option (\<lambda>I. s\<lparr>m_pInterfaces := I\<rparr>) (set_outstanding_at n 0 (m_pInterfaces s))
          else Some s })"

definition response_window :: "ifnet \<Rightarrow> service \<Rightarrow> service option" where
  "response_window ifref s =
     (let I = m_pInterfaces s;
          growth = (if EInterfaces_get_cwnd I ifref < EInterfaces_get_ssthresh I ifref
                    then (1, 0) else (0, 1))
      in map_option (\<lambda>(_, I). s\<lparr>m_pInterfaces := I\<rparr>)
           (EInterfaces_grow_cwnd ifref (fst growth) (snd growth) I))"

definition response_found ::
    "kernel \<Rightarrow> (SentPkt \<Rightarrow> SentPkt) \<Rightarrow> u32 \<Rightarrow> service \<Rightarrow> (bool \<times> service) option" where
  "response_found k freed tag s =
     (case take_first (\<lambda>i. sq_Tag i = tag) (m_sent_queue s) of
        None \<Rightarrow> Some (False, s)
      | Some (i, rest) \<Rightarrow> do {
          s \<leftarrow> response_outstanding i s;
          let s = (if \<not> fPacketHasBeenRetransmit i
                   then update_rto (time_since_now_ns k (TimeSent i)) s else s);
          let s = s\<lparr>m_sent_queue := rest\<rparr>;
          s \<leftarrow> response_window (sq_if_sent (freed i)) s;
          Some (True, s) })"

section \<open>What the operations leave alone\<close>

lemma timer_frames [simp]:
  "m_sent_queue (enable_transmit_timer d s) = m_sent_queue s"
  "m_sent_queue (enable_retransmit_timer s) = m_sent_queue s"
  "m_sent_queue (enable_idle_timer s) = m_sent_queue s"
  "m_to_send_queue (enable_transmit_timer d s) = m_to_send_queue s"
  "m_to_send_queue (enable_retransmit_timer s) = m_to_send_queue s"
  "m_to_send_queue (enable_idle_timer s) = m_to_send_queue s"
  "m_pInterfaces (enable_transmit_timer d s) = m_pInterfaces s"
  "m_pInterfaces (enable_retransmit_timer s) = m_pInterfaces s"
  "m_pInterfaces (enable_idle_timer s) = m_pInterfaces s"
  "m_MaxTimeOutBeforeDrop (enable_transmit_timer d s) = m_MaxTimeOutBeforeDrop s"
  "m_MaxTimeOutBeforeDrop (enable_retransmit_timer s) = m_MaxTimeOutBeforeDrop s"
  "m_MaxTimeOutBeforeDrop (enable_idle_timer s) = m_MaxTimeOutBeforeDrop s"
  "ifnet_output (enable_transmit_timer d s) = ifnet_output s"
  "ifnet_output (enable_retransmit_timer s) = ifnet_output s"
  "ifnet_output (enable_idle_timer s) = ifnet_output s"
  by (simp_all add: enable_transmit_timer_def enable_retransmit_timer_def enable_idle_timer_def)

lemma update_rto_frames [simp]:
  "m_sent_queue (update_rto rtt s) = m_sent_queue s"
  "m_to_send_queue (update_rto rtt s) = m_to_send_queue s"
  "m_pInterfaces (update_rto rtt s) = m_pInterfaces s"
  by (simp_all add: update_rto_def Let_def)

lemma add_to_send_queue_frames [simp]:
  "fst (add_to_send_queue k ifp tag m sh p imm s) = 0"
  "m_sent_queue (snd (add_to_send_queue k ifp tag m sh p imm s)) = m_sent_queue s"
  "m_pInterfaces (snd (add_to_send_queue k ifp tag m sh p imm s)) = m_pInterfaces s"
  "m_MaxTimeOutBeforeDrop (snd (add_to_send_queue k ifp tag m sh p imm s)) = m_MaxTimeOutBeforeDrop s"
  "ifnet_output (snd (add_to_send_queue k ifp tag m sh p imm s)) = ifnet_output s"
  by (simp_all add: add_to_send_queue_def)

lemma back_off_frames [simp]:
  "m_sent_queue (back_off r s) = m_sent_queue s"
  "m_to_send_queue (back_off r s) = m_to_send_queue s"
  "m_MaxTimeOutBeforeDrop (back_off r s) = m_MaxTimeOutBeforeDrop s"
  by (simp_all add: back_off_def Let_def)

lemma remove_to_send_frames [simp]:
  "m_sent_queue (remove_to_send i s) = m_sent_queue s"
  "m_pInterfaces (remove_to_send i s) = m_pInterfaces s"
  "ifnet_output (remove_to_send i s) = ifnet_output s"
  by (simp_all add: remove_to_send_def)

lemma add_outstanding_frames:
  assumes "add_outstanding p d s = Some s'"
  shows "m_sent_queue s' = m_sent_queue s" "m_to_send_queue s' = m_to_send_queue s"
    "m_MaxTimeOutBeforeDrop s' = m_MaxTimeOutBeforeDrop s" "ifnet_output s' = ifnet_output s"
  using assms by (auto simp: add_outstanding_def split: option.splits)

end
