(* ===== verification/Target.thy ===== *)
theory Target
  imports FlowControl
begin

unbundle bit_operations_syntax

text \<open>
  What a controller knows of its target: the \<open>TargetInfo\<close> structure of \<open>Shared/AoEcommon.h\<close> with
  the operations of \<open>AoE/AoEController.cpp\<close> on its list of interfaces, and the two block address
  formats of an ATA command with their increments.

  The arrays have \<open>MAX_PORTS\<close> entries; an access outside of them is a trap. The two counters
  \<open>nNumberOfInterfaces\<close> and \<open>nLastSentInterface\<close> are natural numbers.
\<close>

section \<open>TargetInfo\<close>

record TargetInfo =
  nTargetNumber :: u32
  nSlot :: u32
  nShelf :: u32
  NumSectors :: u32
  nNumberOfInterfaces :: nat
  aInterfaces :: "ifnet list"
  aInterfaceNum :: "u32 list"
  aaSrcMACAddress :: "mac list"
  aaDestMACAddress :: "mac list"
  nLastSentInterface :: nat

text \<open>The part of \<open>AoEController::init\<close> that sets up the structure. The copy of the hardware address
  leaves the entry as it was when it fails.\<close>

definition target_init :: "kernel \<Rightarrow> int \<Rightarrow> int \<Rightarrow> ifnet \<Rightarrow> mac \<Rightarrow> int \<Rightarrow> TargetInfo" where
  "target_init k shelf slot ifnet_receive targets_mac number =
     \<lparr>nTargetNumber = word_of_int number, nSlot = word_of_int slot, nShelf = word_of_int shelf,
      NumSectors = 0, nNumberOfInterfaces = 1,
      aInterfaces = (replicate MAX_PORTS 0)[0 := ifnet_receive],
      aInterfaceNum = (replicate MAX_PORTS 0)[0 := ifnet_unit k ifnet_receive],
      aaSrcMACAddress = (replicate MAX_PORTS 0)
        [0 := if ifnet_lladdr_err k ifnet_receive = 0 then ifnet_lladdr k ifnet_receive else 0],
      aaDestMACAddress = (replicate MAX_PORTS 0)[0 := targets_mac],
      nLastSentInterface = 0\<rparr>"

text \<open>The structure is well formed: arrays of the declared length, no more entries than that.\<close>

definition target_ok :: "TargetInfo \<Rightarrow> bool" where
  "target_ok t \<longleftrightarrow> length (aInterfaces t) = MAX_PORTS \<and> length (aInterfaceNum t) = MAX_PORTS \<and>
     length (aaSrcMACAddress t) = MAX_PORTS \<and> length (aaDestMACAddress t) = MAX_PORTS \<and>
     nNumberOfInterfaces t \<le> MAX_PORTS"

definition interfaces_of :: "TargetInfo \<Rightarrow> ifnet list" where
  "interfaces_of t = take (nNumberOfInterfaces t) (aInterfaces t)"

text \<open>The last interface of the list moves to the place of the removed one. The source's
  \<open>bcopy(src, dst)\<close> calls have their arguments in the opposite order: they copy the addresses of
  the removed interface over those of the last one, which are then cleared.\<close>

definition remove_interface :: "int \<Rightarrow> TargetInfo \<Rightarrow> TargetInfo option" where
  "remove_interface nInterfaceNumber t =
     (let i = nat nInterfaceNumber; l = nNumberOfInterfaces t - 1 in
      if nInterfaceNumber < 0 \<or> MAX_PORTS \<le> i \<or> nNumberOfInterfaces t = 0
         \<or> MAX_PORTS < nNumberOfInterfaces t then None
      else
        let t = t\<lparr>aInterfaces := (aInterfaces t)[i := aInterfaces t ! l],
                  aInterfaceNum := (aInterfaceNum t)[i := aInterfaceNum t ! l],
                  aaSrcMACAddress := (aaSrcMACAddress t)[l := aaSrcMACAddress t ! i],
                  aaDestMACAddress := (aaDestMACAddress t)[l := aaDestMACAddress t ! i]\<rparr>
        in Some (t\<lparr>aInterfaces := (aInterfaces t)[l := 0], aInterfaceNum := (aInterfaceNum t)[l := 0],
                   aaSrcMACAddress := (aaSrcMACAddress t)[l := 0],
                   aaDestMACAddress := (aaDestMACAddress t)[l := 0],
                   nNumberOfInterfaces := l\<rparr>))"

text \<open>\<open>while ( m_target.nNumberOfInterfaces ) remove_interface(0)\<close>, with the count as fuel.\<close>

fun remove_interfaces :: "nat \<Rightarrow> TargetInfo \<Rightarrow> TargetInfo option" where
  "remove_interfaces 0 t = Some t"
| "remove_interfaces (Suc n) t =
     (if nNumberOfInterfaces t = 0 then Some t
      else Option.bind (remove_interface 0 t) (remove_interfaces n))"

definition remove_all_target_interfaces :: "TargetInfo \<Rightarrow> TargetInfo option" where
  "remove_all_target_interfaces t = remove_interfaces (nNumberOfInterfaces t) t"

definition find_target_if :: "ifnet \<Rightarrow> TargetInfo \<Rightarrow> nat option" where
  "find_target_if r t = first_index (\<lambda>x. r = x) (interfaces_of t)"

definition add_interface :: "kernel \<Rightarrow> ifnet \<Rightarrow> mac \<Rightarrow> TargetInfo \<Rightarrow> TargetInfo option" where
  "add_interface k ifnet_receive targets_mac t =
     (let n = nNumberOfInterfaces t in
      if MAX_PORTS \<le> n then None
      else Some (t\<lparr>aInterfaces := (aInterfaces t)[n := ifnet_receive],
                   aInterfaceNum := (aInterfaceNum t)[n := ifnet_unit k ifnet_receive],
                   aaSrcMACAddress := (if ifnet_lladdr_err k ifnet_receive = 0
                     then (aaSrcMACAddress t)[n := ifnet_lladdr k ifnet_receive] else aaSrcMACAddress t),
                   aaDestMACAddress := (aaDestMACAddress t)[n := targets_mac],
                   nNumberOfInterfaces := n + 1\<rparr>))"

text \<open>The list part of \<open>update_target_info\<close>. The result says whether the time of the last
  communication is updated.\<close>

definition update_target_list ::
    "kernel \<Rightarrow> ifnet \<Rightarrow> mac \<Rightarrow> bool \<Rightarrow> TargetInfo \<Rightarrow> (bool \<times> TargetInfo) option" where
  "update_target_list k ifnet_receive targets_mac fOnline t =
     (case find_target_if ifnet_receive t of
        Some n \<Rightarrow> if fOnline then Some (True, t)
                  else map_option (Pair False) (remove_interface (int n) t)
      | None \<Rightarrow> if fOnline then map_option (Pair True) (add_interface k ifnet_receive targets_mac t)
                else Some (False, t))"

definition connected_to_interface :: "ifnet \<Rightarrow> TargetInfo \<Rightarrow> int" where
  "connected_to_interface r t = (if find_target_if r t \<noteq> None then 0 else - 1)"

definition is_device :: "int \<Rightarrow> int \<Rightarrow> TargetInfo \<Rightarrow> int" where
  "is_device shelf slot t =
     (if word_of_int shelf = nShelf t \<and> word_of_int slot = nSlot t then 0 else - 1)"

section \<open>The interface list\<close>

lemma target_ok_init [simp]: "target_ok (target_init k sh sl r m n)"
  by (simp add: target_ok_def target_init_def)

lemma interfaces_of_init [simp]: "interfaces_of (target_init k sh sl r m n) = [r]"
  by (simp add: interfaces_of_def target_init_def numeral_eq_Suc)

lemma length_interfaces_of: "target_ok t \<Longrightarrow> length (interfaces_of t) = nNumberOfInterfaces t"
  by (simp add: interfaces_of_def target_ok_def)

lemma remove_interface_ok:
  assumes "target_ok t" "i < nNumberOfInterfaces t"
  shows "\<exists>t'. remove_interface (int i) t = Some t' \<and> target_ok t' \<and>
    nNumberOfInterfaces t' = nNumberOfInterfaces t - 1"
  using assms by (auto simp: remove_interface_def target_ok_def Let_def)

text \<open>Removing entry \<open>i\<close>: the list loses that entry and the last one takes its place.\<close>

lemma remove_interface_list:
  assumes "target_ok t" "i < nNumberOfInterfaces t" "remove_interface (int i) t = Some t'"
  shows "interfaces_of t' = butlast ((interfaces_of t)[i := last (interfaces_of t)])"
proof -
  let ?n = "nNumberOfInterfaces t"
  have len: "?n \<le> length (aInterfaces t)" "0 < ?n" using assms by (auto simp: target_ok_def)
  have "last (interfaces_of t) = aInterfaces t ! (?n - 1)"
    using len by (subst last_conv_nth) (auto simp: interfaces_of_def)
  moreover have "interfaces_of t' =
      take (?n - 1) ((aInterfaces t)[i := aInterfaces t ! (?n - 1), ?n - 1 := 0])"
    using assms by (auto simp: remove_interface_def interfaces_of_def Let_def split: if_splits)
  ultimately show ?thesis
    using len by (simp add: interfaces_of_def butlast_conv_take take_update_swap
        take_update_cancel min_def flip: take_update_swap)
qed

lemma remove_interface_mac:
  assumes "target_ok t" "i < nNumberOfInterfaces t - 1" "remove_interface (int i) t = Some t'"
  shows "aInterfaces t' ! i = aInterfaces t ! (nNumberOfInterfaces t - 1)"
    "aaDestMACAddress t' ! i = aaDestMACAddress t ! i"
    "aaSrcMACAddress t' ! i = aaSrcMACAddress t ! i"
  using assms by (auto simp: remove_interface_def Let_def target_ok_def split: if_splits)

text \<open>Removing an interface from a target leaves the wrong hardware address behind: the last
  interface of the list moves to the freed place, but the target's address there stays the one of
  the removed interface, so packets for the target on the moved interface go to that address.\<close>

theorem remove_interface_keeps_stale_address:
  assumes "target_ok t" "i < nNumberOfInterfaces t - 1"
  shows "\<exists>t'. remove_interface (int i) t = Some t' \<and> target_ok t' \<and>
    interfaces_of t' ! i = last (interfaces_of t) \<and>
    aaDestMACAddress t' ! i = aaDestMACAddress t ! i"
proof -
  let ?n = "nNumberOfInterfaces t"
  obtain t' where t': "remove_interface (int i) t = Some t'" "target_ok t'"
      "nNumberOfInterfaces t' = ?n - 1"
    using remove_interface_ok [of t i] assms by fastforce
  have len: "length (interfaces_of t) = ?n" using assms(1) by (rule length_interfaces_of)
  have "interfaces_of t' = butlast ((interfaces_of t)[i := last (interfaces_of t)])"
    using assms t'(1) by (intro remove_interface_list) auto
  then have "interfaces_of t' ! i = last (interfaces_of t)"
    using assms(2) len by (simp add: nth_butlast)
  with t' remove_interface_mac [OF assms t'(1)] show ?thesis by auto
qed

definition example_target :: TargetInfo where
  "example_target = (target_init example_kernel 0 1 2 17 1)\<lparr>nNumberOfInterfaces := 2,
     aInterfaces := [2, 3, 0, 0, 0, 0], aaDestMACAddress := [17, 18, 0, 0, 0, 0]\<rparr>"

lemma remove_interface_keeps_stale_address_witness:
  "\<exists>t'. remove_interface (int 0) example_target = Some t' \<and> target_ok t' \<and>
    interfaces_of t' ! 0 = last (interfaces_of example_target) \<and>
    aaDestMACAddress t' ! 0 = aaDestMACAddress example_target ! 0"
  by (rule remove_interface_keeps_stale_address)
    (simp_all add: target_ok_def example_target_def target_init_def)

lemma remove_interfaces_all:
  "target_ok t \<Longrightarrow> nNumberOfInterfaces t \<le> n \<Longrightarrow>
   \<exists>t'. remove_interfaces n t = Some t' \<and> target_ok t' \<and> nNumberOfInterfaces t' = 0"
proof (induction n arbitrary: t)
  case 0
  then show ?case by simp
next
  case (Suc n)
  show ?case
  proof (cases "nNumberOfInterfaces t = 0")
    case True
    with Suc.prems show ?thesis by simp
  next
    case False
    with Suc.prems obtain t1 where t1: "remove_interface (int 0) t = Some t1" "target_ok t1"
        "nNumberOfInterfaces t1 = nNumberOfInterfaces t - 1"
      using remove_interface_ok [of t 0] by auto
    with Suc.IH [OF t1(2)] Suc.prems(2) False show ?thesis by auto
  qed
qed

text \<open>C27: the bookkeeping of a target's interfaces is total on a well-formed target but for one case:
  a packet from a new interface when the list is full writes past the end of the arrays. Otherwise
  the target stays well formed, a known interface is never entered twice, a new one is appended, and
  removing all of them ends with an empty list.\<close>

theorem target_interfaces_kept:
  assumes "target_ok t" "distinct (interfaces_of t)"
  shows "(update_target_list k r m True t = None \<longleftrightarrow>
      r \<notin> set (interfaces_of t) \<and> nNumberOfInterfaces t = MAX_PORTS) \<and>
    (\<forall>b t'. update_target_list k r m True t = Some (b, t') \<longrightarrow> b \<and> target_ok t' \<and>
      interfaces_of t' = interfaces_of t @ (if r \<in> set (interfaces_of t) then [] else [r]) \<and>
      distinct (interfaces_of t')) \<and>
    (\<exists>t'. remove_all_target_interfaces t = Some t' \<and> target_ok t' \<and> interfaces_of t' = [])"
proof (intro conjI allI impI)
  have mem: "find_target_if r t = None \<longleftrightarrow> r \<notin> set (interfaces_of t)"
    by (auto simp: find_target_if_def first_index_None)
  show none: "update_target_list k r m True t = None \<longleftrightarrow>
      r \<notin> set (interfaces_of t) \<and> nNumberOfInterfaces t = MAX_PORTS"
    using assms(1) mem
    by (auto simp: update_target_list_def add_interface_def Let_def target_ok_def
        split: option.split)
  fix b t'
  assume run: "update_target_list k r m True t = Some (b, t')"
  have new: "target_ok t1 \<and> interfaces_of t1 = interfaces_of t @ [r]"
    if "add_interface k r m t = Some t1" for t1
    using that assms(1)
    by (auto simp: add_interface_def Let_def target_ok_def interfaces_of_def take_Suc_conv_app_nth
        split: if_splits)
  have "b \<and> target_ok t' \<and>
      interfaces_of t' = interfaces_of t @ (if r \<in> set (interfaces_of t) then [] else [r])"
    using run mem assms(1) new by (auto simp: update_target_list_def split: option.splits)
  with assms(2) show "b" "target_ok t'" "distinct (interfaces_of t')"
    "interfaces_of t' = interfaces_of t @ (if r \<in> set (interfaces_of t) then [] else [r])"
    by (auto split: if_splits)
next
  obtain t' where "remove_interfaces (nNumberOfInterfaces t) t = Some t'" "target_ok t'"
      "nNumberOfInterfaces t' = 0"
    using remove_interfaces_all [OF assms(1) order_refl] by auto
  then show "\<exists>t'. remove_all_target_interfaces t = Some t' \<and> target_ok t' \<and> interfaces_of t' = []"
    by (auto simp: remove_all_target_interfaces_def interfaces_of_def)
qed

lemma target_interfaces_kept_witness:
  "interfaces_of (snd (the (update_target_list example_kernel 4 19 True example_target))) = [2, 3, 4]"
proof -
  have ok: "target_ok example_target" "interfaces_of example_target = [2, 3]"
    by (simp_all add: target_ok_def example_target_def target_init_def interfaces_of_def numeral_eq_Suc)
  then have d: "distinct (interfaces_of example_target)" by simp
  have n: "nNumberOfInterfaces example_target \<noteq> MAX_PORTS"
    by (simp add: example_target_def target_init_def)
  obtain b t' where "update_target_list example_kernel 4 19 True example_target = Some (b, t')"
    using target_interfaces_kept [OF ok(1) d, of example_kernel 4 19] n
    by (cases "update_target_list example_kernel 4 19 True example_target") auto
  with target_interfaces_kept [OF ok(1) d, of example_kernel 4 19] ok(2) show ?thesis by auto
qed

section \<open>Block addresses\<close>

text \<open>The 48-bit registers of \<open>IOExtendedLBA\<close> and the task file of an ATA command.\<close>

record extended_lba =
  LBALow16 :: u16
  LBAMid16 :: u16
  LBAHigh16 :: u16
  SectorCount16 :: u16
  Features16 :: u16
  ext_Command :: u8                 \<comment> \<open>only when not shared with the task file\<close>

record task_file =
  ataTFFeatures :: u8
  ataTFCount :: u8
  ataTFSector :: u8
  ataTFCylLo :: u8
  ataTFCylHigh :: u8
  ataTFSDH :: u8
  ataTFCommand :: u8

definition ext_address :: "extended_lba \<Rightarrow> u64" where
  "ext_address e =
     push_bit 40 (ucast (drop_bit 8 (LBAHigh16 e AND 0xFF00))) OR
     push_bit 32 (ucast (drop_bit 8 (LBAMid16 e AND 0xFF00))) OR
     push_bit 24 (ucast (drop_bit 8 (LBALow16 e AND 0xFF00))) OR
     push_bit 16 (ucast (LBAHigh16 e AND 0x00FF)) OR
     push_bit 8 (ucast (LBAMid16 e AND 0x00FF)) OR
     push_bit 0 (ucast (LBALow16 e AND 0x00FF))"

definition ext_set_address :: "u64 \<Rightarrow> extended_lba \<Rightarrow> extended_lba" where
  "ext_set_address a e =
     (let b = (\<lambda>n. drop_bit n a AND 0xFF) in
      e\<lparr>LBALow16 := ucast (push_bit 8 (b 24) OR b 0),
        LBAMid16 := ucast (push_bit 8 (b 32) OR b 8),
        LBAHigh16 := ucast (push_bit 8 (b 40) OR b 16)\<rparr>)"

definition increment_address_ext :: "int \<Rightarrow> extended_lba \<Rightarrow> extended_lba" where
  "increment_address_ext nInc e = ext_set_address (ext_address e + word_of_int nInc) e"

definition tf_address :: "task_file \<Rightarrow> u32" where
  "tf_address t = push_bit 16 (ucast (ataTFCylHigh t)) OR push_bit 8 (ucast (ataTFCylLo t)) OR
     ucast (ataTFSector t)"

definition tf_set_address :: "u32 \<Rightarrow> task_file \<Rightarrow> task_file" where
  "tf_set_address a t = t\<lparr>ataTFSector := ucast (drop_bit 0 a AND 0xFF),
     ataTFCylLo := ucast (drop_bit 8 a AND 0xFF), ataTFCylHigh := ucast (drop_bit 16 a AND 0xFF)\<rparr>"

definition increment_address_tf :: "int \<Rightarrow> task_file \<Rightarrow> task_file" where
  "increment_address_tf nInc t = tf_set_address (tf_address t + word_of_int nInc) t"

lemma bit_FF00: "bit (0xFF00 :: u16) n \<longleftrightarrow> 8 \<le> n \<and> n < 16"
proof -
  have eq: "(0xFF00 :: u16) = push_bit 8 (mask 8)" by (simp add: mask_eq_exp_minus_1)
  show ?thesis
    unfolding eq bit_push_bit_iff bit_mask_iff by auto
qed

lemma drop_8_and_FF00 [simp]: "drop_bit 8 ((x :: u16) AND 0xFF00) = drop_bit 8 x"
proof (rule bit_word_eqI)
  fix n :: nat
  show "bit (drop_bit 8 (x AND 0xFF00)) n = bit (drop_bit 8 x) n"
    unfolding bit_drop_bit_eq bit_and_iff o_def bit_FF00
    using bit_imp_le_length [of x "8 + n"] by auto
qed

lemma tf_address_set: "tf_address (tf_set_address a t) = take_bit 24 a"
proof (rule bit_word_eqI)
  fix n :: nat
  assume "n < LENGTH(32)"
  consider "n < 8" | "8 \<le> n" "n < 16" | "16 \<le> n" "n < 24" | "24 \<le> n" by linarith
  then show "bit (tf_address (tf_set_address a t)) n = bit (take_bit 24 a) n"
    unfolding tf_address_def tf_set_address_def
    by cases (auto simp: bit_simps mask_simps)
qed

lemma ext_address_set: "ext_address (ext_set_address a e) = take_bit 48 a"
proof (rule bit_word_eqI)
  fix n :: nat
  assume "n < LENGTH(64)"
  have "n < 8 \<or> (\<exists>m < 8. n = 8 + m) \<or> (\<exists>m < 8. n = 16 + m) \<or> (\<exists>m < 8. n = 24 + m)
      \<or> (\<exists>m < 8. n = 32 + m) \<or> (\<exists>m < 8. n = 40 + m) \<or> (\<exists>m. n = 48 + m)"
    by presburger
  then consider "n < 8" | m where "n = 8 + m" "m < 8" | m where "n = 16 + m" "m < 8"
    | m where "n = 24 + m" "m < 8" | m where "n = 32 + m" "m < 8" | m where "n = 40 + m" "m < 8"
    | m where "n = 48 + m" by blast
  then show "bit (ext_address (ext_set_address a e)) n = bit (take_bit 48 a) n"
    unfolding ext_address_def ext_set_address_def Let_def drop_8_and_FF00
    by cases (simp_all add: bit_simps mask_simps)
qed

text \<open>
  A block address format: the number it stands for and the increment, modulo the size of the
  address space. The client is the splitting of a transfer into packets in \<open>asyncCommand\<close>.
\<close>

locale block_address =
  fixes lba :: "'a \<Rightarrow> int" and inc :: "int \<Rightarrow> 'a \<Rightarrow> 'a" and bits :: nat
  assumes lba_inc: "lba (inc n e) = (lba e + n) mod 2 ^ bits"
    and lba_range: "0 \<le> lba e" "lba e < 2 ^ bits"
begin

lemma lba_mod [simp]: "lba e mod 2 ^ bits = lba e"
  using lba_range by simp

lemma inc_inc: "lba (inc m (inc n e)) = lba (inc (n + m) e)"
  by (simp add: lba_inc mod_simps algebra_simps)

lemma lba_funpow: "lba ((inc n ^^ j) e) = (lba e + int j * n) mod 2 ^ bits"
  by (induction j) (simp_all add: lba_inc mod_simps algebra_simps)

lemma inc_no_wrap: "0 \<le> n \<Longrightarrow> lba e + n < 2 ^ bits \<Longrightarrow> lba (inc n e) = lba e + n"
  using lba_range [of e] by (simp add: lba_inc)

end

definition ext_lba :: "extended_lba \<Rightarrow> int" where
  "ext_lba e = uint (ext_address e)"

definition tf_lba :: "task_file \<Rightarrow> int" where
  "tf_lba t = uint (tf_address t)"

lemma not_bit_u16 [simp]: "16 \<le> n \<Longrightarrow> \<not> bit (w :: u16) n"
  using bit_imp_le_length [of w n] by auto

lemma ext_address_48: "take_bit 48 (ext_address e) = ext_address e"
proof (rule bit_word_eqI)
  fix n :: nat
  have "n < 48 \<or> (\<exists>m. n = 48 + m)" by presburger
  then consider "n < 48" | m where "n = 48 + m" by blast
  then show "bit (take_bit 48 (ext_address e)) n = bit (ext_address e) n"
    unfolding ext_address_def drop_8_and_FF00
    by cases (simp_all add: bit_simps mask_simps)
qed

lemma tf_address_24: "take_bit 24 (tf_address t) = tf_address t"
proof (rule bit_word_eqI)
  fix n :: nat
  have "n < 24 \<or> (\<exists>m. n = 24 + m)" by presburger
  then consider "n < 24" | m where "n = 24 + m" by blast
  then show "bit (take_bit 24 (tf_address t)) n = bit (tf_address t) n"
    unfolding tf_address_def by cases (simp_all add: bit_simps mask_simps)
qed

text \<open>Truncation to \<open>k\<close> bits of a sum in a wider word is the sum modulo \<open>2 ^ k\<close>.\<close>

lemma uint_take_bit_add:
  fixes a :: "'a::len word"
  assumes "k \<le> LENGTH('a)"
  shows "uint (take_bit k (a + word_of_int n)) = (uint a + n) mod 2 ^ k"
proof -
  have dvd: "(2 :: int) ^ k dvd 2 ^ LENGTH('a)" using assms by (rule le_imp_power_dvd)
  have "uint (take_bit k (a + word_of_int n)) = take_bit k (uint (a + word_of_int n))"
    by (rule unsigned_take_bit_eq)
  also have "uint (a + word_of_int n) = (uint a + n) mod 2 ^ LENGTH('a)"
    by (simp add: uint_word_ariths uint_word_of_int mod_simps)
  also have "take_bit k ((uint a + n) mod 2 ^ LENGTH('a)) = (uint a + n) mod 2 ^ k"
    by (simp only: take_bit_eq_mod mod_mod_cancel [OF dvd])
  finally show ?thesis .
qed

lemma uint_take_bit_less: "take_bit k a = a \<Longrightarrow> uint a < 2 ^ k"
  by (metis unsigned_take_bit_eq take_bit_int_less_exp)

interpretation ext48: block_address ext_lba increment_address_ext 48
  by unfold_locales
    (simp_all only: ext_lba_def increment_address_ext_def ext_address_set uint_take_bit_add
      uint_take_bit_less ext_address_48 len_of_numeral_defs, simp_all)

interpretation tf24: block_address tf_lba increment_address_tf 24
  by unfold_locales
    (simp_all only: tf_lba_def increment_address_tf_def tf_address_set uint_take_bit_add
      uint_take_bit_less tf_address_24 len_of_numeral_defs, simp_all)

text \<open>C26: stepping through consecutive packets advances the block address of a command exactly by the
  number of sectors sent, in both address formats: after \<open>j\<close> increments by \<open>n\<close> it is the first address plus
  \<open>j * n\<close>, modulo the size of the address space of 48 or 24 bits.\<close>

theorem address_after_increments:
  "ext_lba ((increment_address_ext n ^^ j) e) = (ext_lba e + int j * n) mod 2 ^ 48 \<and>
   tf_lba ((increment_address_tf n ^^ j) t) = (tf_lba t + int j * n) mod 2 ^ 24"
  by (simp only: ext48.lba_funpow tf24.lba_funpow simp_thms)

end
