(* ===== verification/Controller.thy ===== *)
theory Controller
  imports Target
begin

unbundle bit_operations_syntax

text \<open>
  The ATA controller of one target, \<open>AoE/AoEController.cpp\<close>: its state, its set-up and tear-down, the
  handling of configuration replies, and the bus functions that the ATA family calls. The send path,
  commands and responses are in the theories \<open>SendPath\<close>, \<open>Commands\<close>, \<open>Responses\<close>.

  The base class \<open>IOATAController\<close> and the classes of the ATA family are not part of the sources:
  what the driver calls of them is the record \<open>ata_family\<close>, an argument of the operations. The base
  class methods work on the controller and on the state of its provider, the controller interface.
\<close>

section \<open>Values of the ATA family\<close>

datatype ioreturn = kATANoErr | kATADeviceError | kATAErrDevBusy | kATAErrUnknownType
  | kATAUnknownOpcode | kATATimeoutErr | kATADevIntNoCmd | kATAModeNotSupported
  | kIOReturnUnsupported | IOReturnCode int

datatype transState = kATADataTx | kATAStatus | kATAComplete | kATAOtherState nat

datatype ataEventCode = kATAOnlineEvent | kATAOfflineEvent | kATAResetEvent

datatype reg_bit = mATAErrFeaturesValid | mATASectorCntValid | mATASectorNumValid
  | mATACylinderLoValid | mATACylinderHiValid | mATAStatusCmdValid | mATASDHValid
  | mATAAltSDevCValid | mATADataValid

text \<open>Properties in the registry. \<open>OSNumber::withNumber\<close> keeps the given number of bits.\<close>

datatype prop_key = TARGET_PROPERTY | SHELF_PROPERTY | SLOT_PROPERTY | TARGET_NUMER_PROPERTY
  | CAPACITY_PROPERTY | CONFIG_STRING_PROPERTY | BUFFER_COUNT_PROPERTY
  | ATTACHED_INTERFACES_PROPERTY | IDENT_CAPACITY_PROPERTY | IDENT_MODEL_PROPERTY
  | IDENT_SERIAL_PROPERTY

datatype prop_value = PNumber int | PString "u8 list" | PArray "u32 list" | PBool bool

definition withNumber :: "int \<Rightarrow> nat \<Rightarrow> prop_value" where
  "withNumber n bits = PNumber (take_bit bits n)"

section \<open>State\<close>

text \<open>
  An \<open>IOATABusCommand\<close>: flags, counts, registers, memory. \<open>cmd_tf_ok\<close> and \<open>cmd_ext_ok\<close> say whether
  \<open>getTaskFilePtr\<close> and \<open>getExtendedLBA\<close> return a pointer.
\<close>

record ata_command =
  mATAFlag48BitLBA :: bool
  mATAFlagIOWrite :: bool
  mATAFlagIORead :: bool
  mATAFlagUseDMA :: bool
  mATAFlagTFAccess :: bool
  mATAFlagTFAccessResult :: bool
  cmd_regMask :: "reg_bit list"
  cmd_byteCount :: u32
  cmd_actualTransfer :: u32
  cmd_position :: u32
  cmd_chunkSize :: u32
  cmd_tf :: task_file
  cmd_tf_ok :: bool
  cmd_ext :: extended_lba
  cmd_ext_ok :: bool
  cmd_state :: transState
  cmd_endResult :: "(u8 \<times> u8) option"
  cmd_buffer :: "u8 list"

datatype ctl_event = EventCallout ataEventCode | RegisterService | DeviceUninit

text \<open>
  \<open>ctl_id\<close> stands for the address of the object. \<open>m_pReceivedATAHeader\<close> is the header of the last
  packet with the data that follows it in the first mbuf. \<open>ctl_events\<close> logs the calls of
  \<open>executeEventCallouts\<close> and those of the disk device.
\<close>

record controller =
  ctl_id :: nat
  m_pAoEDevice :: bool
  m_target :: TargetInfo
  m_MTU :: u32
  m_nMaxSectorsPerTransfer :: int
  m_pReceivedATAHeader :: "(aoe_atahdr \<times> u8 list) option"
  m_unReceivedATADataSize :: u32
  m_fExtendedLBA :: bool
  m_nReadWriteRepliesRequired :: int
  m_unReadBaseTag :: u32
  m_unReceivedTag :: u32
  m_PreviousWriteStatus :: u8
  m_ReceivedMBufCont :: "u8 list list"
  m_PreviousWriteError :: u8
  m_aConfigString :: "u8 list"
  m_nBufferCount :: int
  m_time_since_last_comm :: u64
  m_nMaxTransferSize :: int
  m_fRegistered :: bool
  m_ATAState :: ataEventCode
  m_nOutstandingIdentTag :: u32
  m_IdentifiedCapacity :: u64
  currentCommand :: "ata_command option"
  doubleBuffer :: "u8 list"
  doubleBuffer_size :: u32
  devInfo_packetSend :: "int list"
  selectedUnit :: int
  ctl_props :: "prop_key \<Rightarrow> prop_value option"
  ctl_events :: "ctl_event list"

text \<open>
  The state of \<open>AOE_CONTROLLER_INTERFACE_NAME\<close> other than its list of controllers; its controllers
  reach it through \<open>m_pProvider\<close>. \<open>removed_targets\<close> holds the numbers of targets whose removal was
  requested from inside one of their own operations. A timer of the interface is a null pointer, stopped,
  or due after some milliseconds.
\<close>

datatype ci_timer = NULL_timer | Stopped | Armed int

record provider =
  m_nCurrentTag :: u32
  ci_nMaxTransferSize :: int
  m_fLUNSearchRunning :: bool
  m_TimeUntilTargetOffline_us :: u64
  m_pControllerToFakeResponse :: "nat option"
  m_pStateUpdateTimer :: ci_timer
  m_pFakeReturnTimer :: ci_timer
  m_pAoEService :: service
  removed_targets :: "u32 list"

record ata_family =
  af_completeIO :: "ioreturn \<Rightarrow> controller \<times> provider \<Rightarrow> controller \<times> provider"
  af_asyncIO :: "controller \<times> provider \<Rightarrow> (ioreturn \<times> controller \<times> provider) option"
  af_checkTimeout :: "controller \<Rightarrow> bool"
  af_busCanDispatch :: "controller \<Rightarrow> bool"
  af_init_ok :: bool
  af_controller_attach :: bool
  af_controller_start :: bool
  af_create_device :: bool
  af_device_attach :: bool
  af_device_start :: bool
  af_swapBytes16 :: "u8 list \<Rightarrow> u8 list"
  af_Supports48BitLBA :: "u8 list \<Rightarrow> bool"
  af_ExtendedLBASize :: "u8 list \<Rightarrow> u32 \<times> u32"
  af_writeBytes :: "u32 \<Rightarrow> u8 list \<Rightarrow> u8 list \<Rightarrow> u8 list"
  af_readBytes :: "u32 \<Rightarrow> u32 \<Rightarrow> u8 list \<Rightarrow> u8 list"
  af_IOMallocContiguous_ok :: bool
  af_shared_command :: bool          \<comment> \<open>\<open>IOExtendedLBA::setCommand\<close> sets the task file's command\<close>
  af_setTimeout :: int               \<comment> \<open>result of \<open>IOTimerEventSource::setTimeout\<close>\<close>
  af_uninit_err :: ioreturn          \<comment> \<open>what an uninitialised local variable reads as\<close>

definition map_command :: "(ata_command \<Rightarrow> ata_command) \<Rightarrow> controller \<Rightarrow> controller" where
  "map_command f c = c\<lparr>currentCommand := map_option f (currentCommand c)\<rparr>"

definition set_state :: "transState \<Rightarrow> controller \<Rightarrow> controller" where
  "set_state st = map_command (\<lambda>x. x\<lparr>cmd_state := st\<rparr>)"

definition log_event :: "ctl_event \<Rightarrow> controller \<Rightarrow> controller" where
  "log_event e c = c\<lparr>ctl_events := ctl_events c @ [e]\<rparr>"

definition setProperty :: "prop_key \<Rightarrow> prop_value \<Rightarrow> controller \<Rightarrow> controller" where
  "setProperty key v c = c\<lparr>ctl_props := (ctl_props c)(key := Some v)\<rparr>"

definition removeProperty :: "prop_key \<Rightarrow> controller \<Rightarrow> controller" where
  "removeProperty key c = c\<lparr>ctl_props := (ctl_props c)(key := None)\<rparr>"

section \<open>Set-up and tear-down\<close>

definition update_interface_property :: "kernel \<Rightarrow> controller \<Rightarrow> controller" where
  "update_interface_property k c =
     (let n = nNumberOfInterfaces (m_target c);
          c = removeProperty ATTACHED_INTERFACES_PROPERTY c
      in if n \<noteq> 0 \<and> OSArray_ok k (int n)
         then setProperty ATTACHED_INTERFACES_PROPERTY (PArray (take n (aInterfaceNum (m_target c)))) c
         else c)"

text \<open>
  \<open>init\<close> of a zeroed object. \<open>setProperty(TARGET_NUMER_PROPERTY, nNumber)\<close> passes an \<open>int\<close>, which
  selects the boolean overload.
\<close>

definition controller_init ::
    "kernel \<Rightarrow> ata_family \<Rightarrow> nat \<Rightarrow> int \<Rightarrow> int \<Rightarrow> ifnet \<Rightarrow> mac \<Rightarrow> u32 \<Rightarrow> int \<Rightarrow> int \<Rightarrow> bool \<times> controller" where
  "controller_init k af this Shelf Slot ifnet_receive mac MTU nMaxTransferSize nNumber =
     (let c = \<lparr>ctl_id = this, m_pAoEDevice = False,
            m_target = target_init k Shelf Slot ifnet_receive mac nNumber, m_MTU = MTU,
            m_nMaxSectorsPerTransfer = sint (COUNT_SECTORS_FROM_MTU MTU),
            m_pReceivedATAHeader = None, m_unReceivedATADataSize = 0, m_fExtendedLBA = False,
            m_nReadWriteRepliesRequired = 0, m_unReadBaseTag = 0, m_unReceivedTag = 0,
            m_PreviousWriteStatus = 0, m_ReceivedMBufCont = [], m_PreviousWriteError = 0,
            m_aConfigString = replicate MAX_CONFIG_STRING_LENGTH 0, m_nBufferCount = 0,
            m_time_since_last_comm = uptime k, m_nMaxTransferSize = nMaxTransferSize,
            m_fRegistered = False, m_ATAState = kATAOnlineEvent, m_nOutstandingIdentTag = 0,
            m_IdentifiedCapacity = 0, currentCommand = None, doubleBuffer = [],
            doubleBuffer_size = 0, devInfo_packetSend = [0, 0], selectedUnit = 0,
            ctl_props = Map.empty, ctl_events = []\<rparr>;
          c = setProperty TARGET_PROPERTY (withNumber nNumber 16) c;
          c = setProperty SHELF_PROPERTY (withNumber Shelf 16) c;
          c = setProperty SLOT_PROPERTY (withNumber Slot 8) c;
          c = setProperty TARGET_NUMER_PROPERTY (PBool (nNumber \<noteq> 0)) c;
          c = setProperty CAPACITY_PROPERTY (withNumber 0 64) c
      in (af_init_ok af, update_interface_property k c))"

definition registerDiskService :: "controller \<Rightarrow> controller" where
  "registerDiskService c =
     (let c = c\<lparr>m_fRegistered := True\<rparr>
      in if m_pAoEDevice c then log_event RegisterService c else c)"

definition is_registered :: "controller \<Rightarrow> int" where
  "is_registered c = (if m_fRegistered c then 0 else - 1)"

definition device_online :: "controller \<Rightarrow> controller" where
  "device_online c =
     (let c = (if m_ATAState c = kATAOfflineEvent then log_event (EventCallout kATAOnlineEvent) c else c)
      in c\<lparr>m_ATAState := kATAOnlineEvent\<rparr>)"

definition cancel_command :: "ata_family \<Rightarrow> bool \<Rightarrow> controller \<times> provider \<Rightarrow> controller \<times> provider" where
  "cancel_command af fClean cp =
     (let (c, p) = cp;
          err = (if fClean then kATANoErr else kATADeviceError);
          c = log_event (EventCallout kATAOfflineEvent) c;
          c = set_state kATAComplete c;
          (c, p) = af_completeIO af err (c, p)
      in (c\<lparr>m_ATAState := kATAOfflineEvent\<rparr>, p))"

definition controller_uninit :: "ata_family \<Rightarrow> controller \<times> provider \<Rightarrow> controller \<times> provider" where
  "controller_uninit af cp =
     (let (c, p) = cancel_command af True cp;
          c = fold removeProperty [SHELF_PROPERTY, SLOT_PROPERTY, CAPACITY_PROPERTY,
                CONFIG_STRING_PROPERTY, TARGET_NUMER_PROPERTY, BUFFER_COUNT_PROPERTY,
                TARGET_PROPERTY, IDENT_CAPACITY_PROPERTY, IDENT_MODEL_PROPERTY,
                IDENT_SERIAL_PROPERTY] c
      in (if m_pAoEDevice c then (log_event DeviceUninit c)\<lparr>m_pAoEDevice := False\<rparr> else c, p))"

definition device_attached :: "controller \<Rightarrow> int" where
  "device_attached c = (if m_pAoEDevice c then 0 else - 1)"

text \<open>When \<open>attach\<close> fails the device is released and its pointer cleared, and then \<open>start\<close> is
  called on it.\<close>

definition attach_device :: "ata_family \<Rightarrow> controller \<Rightarrow> controller option" where
  "attach_device af c =
     (let c = c\<lparr>m_pAoEDevice := af_create_device af\<rparr> in
      if m_pAoEDevice c then
        if \<not> af_device_attach af then None
        else if \<not> af_device_start af then Some (c\<lparr>m_pAoEDevice := False\<rparr>)
        else Some c
      else Some c)"

section \<open>Target handling\<close>

definition SetLBAExtendedSupport :: "bool \<Rightarrow> controller \<Rightarrow> controller" where
  "SetLBAExtendedSupport f c = c\<lparr>m_fExtendedLBA := f\<rparr>"

definition set_number_sectors :: "u64 \<Rightarrow> controller \<Rightarrow> controller" where
  "set_number_sectors Sectors c =
     (let c = setProperty CAPACITY_PROPERTY (withNumber (uint Sectors) 64) c
      in c\<lparr>m_target := (m_target c)\<lparr>NumSectors := ucast Sectors\<rparr>\<rparr>)"

definition set_mtu_size :: "int \<Rightarrow> controller \<Rightarrow> controller" where
  "set_mtu_size nMTU c =
     (let c = c\<lparr>m_MTU := word_of_int nMTU\<rparr>
      in c\<lparr>m_nMaxSectorsPerTransfer := sint (COUNT_SECTORS_FROM_MTU (m_MTU c))\<rparr>)"

text \<open>The property follows the list whenever an interface is added or removed.\<close>

definition update_target_info ::
    "kernel \<Rightarrow> ifnet \<Rightarrow> mac \<Rightarrow> bool \<Rightarrow> controller \<Rightarrow> (int \<times> controller) option" where
  "update_target_info k ifnet_receive mac fOnline c = do {
     let fInterfaceExists = (find_target_if ifnet_receive (m_target c) \<noteq> None);
     (fSeen, t) \<leftarrow> update_target_list k ifnet_receive mac fOnline (m_target c);
     let c = c\<lparr>m_target := t\<rparr>;
     let c = (if fSeen then c\<lparr>m_time_since_last_comm := uptime k\<rparr> else c);
     Some (0, if fInterfaceExists \<noteq> fOnline then update_interface_property k c else c) }"

definition remove_all_interfaces :: "kernel \<Rightarrow> controller \<Rightarrow> controller option" where
  "remove_all_interfaces k c = do {
     t \<leftarrow> remove_all_target_interfaces (m_target c);
     Some (update_interface_property k (c\<lparr>m_target := t\<rparr>)) }"

section \<open>The configuration string\<close>

text \<open>A C string in a buffer; reading past the end of a buffer without a terminator is a trap.\<close>

definition cstr :: "u8 list \<Rightarrow> u8 list option" where
  "cstr b = (if 0 \<in> set b then Some (takeWhile (\<lambda>x. x \<noteq> 0) b) else None)"

text \<open>\<open>strncmp(a, b, n) == 0\<close> on buffers of at least \<open>n\<close> bytes.\<close>

fun strncmp_eq :: "nat \<Rightarrow> u8 list \<Rightarrow> u8 list \<Rightarrow> bool" where
  "strncmp_eq 0 a b = True"
| "strncmp_eq (Suc n) (x # xs) (y # ys) = (x = y \<and> (x = 0 \<or> strncmp_eq n xs ys))"
| "strncmp_eq (Suc n) _ _ = False"

definition cstring_is_ours :: "u8 list \<Rightarrow> controller \<Rightarrow> int" where
  "cstring_is_ours pszString c =
     (if strncmp_eq MAX_CONFIG_STRING_LENGTH pszString (m_aConfigString c) then 0 else - 1)"

text \<open>
  \<open>handle_aoe_cmd\<close>: \<open>cfg\<close> is the configuration header and \<open>ac_cstring\<close> what follows it in the first
  mbuf. The string is copied without a terminator.
\<close>

definition copy_config_string :: "nat \<Rightarrow> u8 list \<Rightarrow> u8 list \<Rightarrow> u8 list option" where
  "copy_config_string nSize ac_cstring old =
     (if length ac_cstring < nSize \<or> length old < nSize then None
      else Some (take nSize ac_cstring @ drop nSize old))"

definition handle_aoe_cmd ::
    "ifnet \<Rightarrow> aoe_cfghdr \<Rightarrow> u8 list \<Rightarrow> controller \<times> provider \<Rightarrow> (controller \<times> provider) option" where
  "handle_aoe_cmd ifnet_receive cfg ac_cstring cp = do {
     let (c, p) = cp;
     let c = c\<lparr>m_nBufferCount := uint (AOE_CFGHEADER_GETBCOUNT cfg)\<rparr>;
     let c = setProperty BUFFER_COUNT_PROPERTY (withNumber (m_nBufferCount c) 32) c;
     I \<leftarrow> EInterfaces_set_max_outstanding ifnet_receive (sint (nShelf (m_target c)))
           (m_nBufferCount c) (m_pInterfaces (m_pAoEService p));
     let p = p\<lparr>m_pAoEService := (m_pAoEService p)\<lparr>m_pInterfaces := I\<rparr>\<rparr>;
     (if AOE_CFGHEADER_GETCCMD cfg = CONFIG_STR_GET then do {
        let nSize = min (unat (AOE_CFGHEADER_GETCSLEN cfg)) MAX_CONFIG_STRING_LENGTH;
        s \<leftarrow> copy_config_string nSize ac_cstring (m_aConfigString c);
        let c = c\<lparr>m_aConfigString := s\<rparr>;
        str \<leftarrow> cstr s;
        Some (setProperty CONFIG_STRING_PROPERTY (PString str) c, p) }
      else Some (c, p)) }"

section \<open>Bus configuration\<close>

abbreviation (input) AOE_SUPPORTED_PIO_MODES :: u32 where "AOE_SUPPORTED_PIO_MODES \<equiv> 0"
abbreviation (input) AOE_SUPPORTED_DMA_MODES :: u32 where "AOE_SUPPORTED_DMA_MODES \<equiv> 0x1F"
abbreviation (input) AOE_SUPPORTED_ULTRA_DMA_MODES :: u32 where "AOE_SUPPORTED_ULTRA_DMA_MODES \<equiv> 0"

record bus_info =
  bi_internalATASocket :: bool
  bi_extendedLBA :: bool
  bi_units :: nat
  bi_PIOModes :: u32
  bi_DMAModes :: u32
  bi_ultraModes :: u32
  bi_DMAQueued :: bool
  bi_maxBlocksExtended :: int
  bi_overlapped :: bool

record dev_config =
  dc_packetConfig :: int
  dc_DMAMode :: u32
  dc_DMACycleTime :: u32
  dc_PIOMode :: u32
  dc_PIOCycleTime :: u32
  dc_ultraMode :: u32

definition provideBusInfo :: "bus_info option \<Rightarrow> controller \<Rightarrow> ioreturn \<times> bus_info option" where
  "provideBusInfo infoOut c =
     (case infoOut of None \<Rightarrow> (IOReturnCode (- 1), None)
      | Some _ \<Rightarrow> (kATANoErr, Some \<lparr>bi_internalATASocket = True, bi_extendedLBA = True, bi_units = 1,
          bi_PIOModes = AOE_SUPPORTED_PIO_MODES, bi_DMAModes = AOE_SUPPORTED_DMA_MODES,
          bi_ultraModes = AOE_SUPPORTED_ULTRA_DMA_MODES, bi_DMAQueued = False,
          bi_maxBlocksExtended = c_div (m_nMaxTransferSize c) kATADefaultSectorSize,
          bi_overlapped = False\<rparr>))"

definition unsupported :: "u32 \<Rightarrow> u32 \<Rightarrow> bool" where
  "unsupported mode supported \<longleftrightarrow> mode \<noteq> 0 \<and> mode AND supported = 0"

definition selectConfig :: "dev_config option \<Rightarrow> u32 \<Rightarrow> controller \<Rightarrow> ioreturn \<times> controller" where
  "selectConfig configRequest unitNumber c =
     (case configRequest of None \<Rightarrow> (IOReturnCode (- 1), c)
      | Some r \<Rightarrow>
        if unitNumber > 1 then (IOReturnCode (- 1), c)
        else if unsupported (dc_ultraMode r) AOE_SUPPORTED_ULTRA_DMA_MODES then (kATAModeNotSupported, c)
        else if unsupported (dc_DMAMode r) AOE_SUPPORTED_DMA_MODES then (kATAModeNotSupported, c)
        else if unsupported (dc_PIOMode r) AOE_SUPPORTED_PIO_MODES then (kATAModeNotSupported, c)
        else (kATANoErr, c\<lparr>devInfo_packetSend :=
               (devInfo_packetSend c)[unat unitNumber := dc_packetConfig r]\<rparr>))"

definition getConfig :: "dev_config option \<Rightarrow> u32 \<Rightarrow> controller \<Rightarrow> ioreturn \<times> dev_config option" where
  "getConfig configRequest unitNumber c =
     (if configRequest = None \<or> unitNumber > 1 then (IOReturnCode (- 1), configRequest)
      else (kATANoErr, Some \<lparr>dc_packetConfig = devInfo_packetSend c ! unat unitNumber,
              dc_DMAMode = AOE_SUPPORTED_DMA_MODES, dc_DMACycleTime = 0,
              dc_PIOMode = AOE_SUPPORTED_PIO_MODES, dc_PIOCycleTime = 500,
              dc_ultraMode = AOE_SUPPORTED_ULTRA_DMA_MODES\<rparr>))"

text \<open>The fixed number standing for \<open>kATAPIDRQFast\<close> and \<open>kATAInvalidDeviceID\<close> is an argument.\<close>

definition scanForDrives :: "int \<Rightarrow> int \<Rightarrow> controller \<Rightarrow> u32 \<times> controller" where
  "scanForDrives DRQFast InvalidDeviceID c =
     (1, c\<lparr>devInfo_packetSend := (devInfo_packetSend c)[0 := DRQFast], selectedUnit := InvalidDeviceID\<rparr>)"

definition selectDevice :: "int \<Rightarrow> controller \<Rightarrow> ioreturn \<times> controller" where
  "selectDevice unit c = (kATANoErr, c\<lparr>selectedUnit := unit\<rparr>)"

definition allocateDoubleBuffer :: "ata_family \<Rightarrow> u8 list \<Rightarrow> controller \<Rightarrow> bool \<times> controller" where
  "allocateDoubleBuffer af mem c =
     (if \<not> af_IOMallocContiguous_ok af then (False, c\<lparr>doubleBuffer := []\<rparr>)
      else (True, c\<lparr>doubleBuffer := mem, doubleBuffer_size := word_of_int (m_nMaxTransferSize c)\<rparr>))"

definition handleBusReset :: "ata_family \<Rightarrow> controller \<times> provider \<Rightarrow> (ioreturn \<times> controller \<times> provider) option" where
  "handleBusReset af cp =
     (let (c, p) = cp; c = log_event (EventCallout kATAResetEvent) c in
      if currentCommand c = None then None
      else Some (kATANoErr, af_completeIO af kATANoErr (set_state kATAComplete c, p)))"

text \<open>The overrides that only return a constant.\<close>

definition synchronousIO :: ioreturn where "synchronousIO = kIOReturnUnsupported"
definition handleRegAccess :: ioreturn where "handleRegAccess = kIOReturnUnsupported"
definition startDMA :: ioreturn where "startDMA = kATAModeNotSupported"
definition stopDMA :: ioreturn where "stopDMA = kATAModeNotSupported"
definition writePacket :: ioreturn where "writePacket = kATANoErr"
definition readExtRegister :: u16 where "readExtRegister = 0"
definition waitForU8Status :: "u8 \<Rightarrow> u8 \<Rightarrow> bool" where "waitForU8Status m v = True"
definition softResetBus :: "bool \<Rightarrow> ioreturn" where "softResetBus doATAPI = kIOReturnUnsupported"
definition ATAPISlaveExists :: bool where "ATAPISlaveExists = False"

section \<open>Results of a command\<close>

definition hi_lo :: "u8 \<Rightarrow> u8 \<Rightarrow> u16" where
  "hi_lo h l = push_bit 8 (ucast h) OR ucast l"

text \<open>The register part of \<open>registerAccess\<close> for 48-bit addresses, then for 24-bit ones.\<close>

definition read_ext_registers :: "aoe_atahdr \<Rightarrow> reg_bit list \<Rightarrow> extended_lba \<Rightarrow> extended_lba" where
  "read_ext_registers h msk e =
     (let e = (if mATAErrFeaturesValid \<in> set msk
               then e\<lparr>Features16 := ucast (AOE_ATAHEADER_GETERR h)\<rparr> else e);
          e = (if mATASectorCntValid \<in> set msk
               then e\<lparr>SectorCount16 := ucast (AOE_ATAHEADER_GETSCNT h)\<rparr> else e);
          e = (if mATASectorNumValid \<in> set msk
               then e\<lparr>LBALow16 := hi_lo (AOE_ATAHEADER_GETLBA0 h) (AOE_ATAHEADER_GETLBA3 h)\<rparr> else e);
          e = (if mATACylinderLoValid \<in> set msk
               then e\<lparr>LBAMid16 := hi_lo (AOE_ATAHEADER_GETLBA1 h) (AOE_ATAHEADER_GETLBA4 h)\<rparr> else e)
      in if mATACylinderHiValid \<in> set msk
         then e\<lparr>LBAHigh16 := hi_lo (AOE_ATAHEADER_GETLBA2 h) (AOE_ATAHEADER_GETLBA5 h)\<rparr> else e)"

definition read_tf_registers :: "aoe_atahdr \<Rightarrow> reg_bit list \<Rightarrow> task_file \<Rightarrow> task_file" where
  "read_tf_registers h msk t =
     (let t = (if mATAErrFeaturesValid \<in> set msk
               then t\<lparr>ataTFFeatures := AOE_ATAHEADER_GETERR h\<rparr> else t);
          t = (if mATASectorCntValid \<in> set msk
               then t\<lparr>ataTFCount := AOE_ATAHEADER_GETSCNT h\<rparr> else t);
          t = (if mATASectorNumValid \<in> set msk
               then t\<lparr>ataTFSector := AOE_ATAHEADER_GETLBA0 h\<rparr> else t);
          t = (if mATACylinderLoValid \<in> set msk
               then t\<lparr>ataTFCylLo := AOE_ATAHEADER_GETLBA1 h\<rparr> else t)
      in if mATACylinderHiValid \<in> set msk
         then t\<lparr>ataTFCylHigh := AOE_ATAHEADER_GETLBA2 h\<rparr> else t)"

definition ext_regs_used :: "reg_bit list \<Rightarrow> bool" where
  "ext_regs_used msk \<longleftrightarrow> (\<exists>r \<in> set msk. r \<in> {mATAErrFeaturesValid, mATASectorCntValid,
     mATASectorNumValid, mATACylinderLoValid, mATACylinderHiValid})"

definition read_registers :: "bool \<Rightarrow> aoe_atahdr \<Rightarrow> ata_command \<Rightarrow> ata_command option" where
  "read_registers isExtLBA h x =
     (let msk = cmd_regMask x;
          status = (\<lambda>x. if mATAStatusCmdValid \<in> set msk
                    then x\<lparr>cmd_tf := (cmd_tf x)\<lparr>ataTFCommand := AOE_ATAHEADER_GETSTAT h\<rparr>\<rparr> else x)
      in if isExtLBA
         then if \<not> cmd_ext_ok x \<and> ext_regs_used msk then None
              else Some (status (x\<lparr>cmd_ext := read_ext_registers h msk (cmd_ext x)\<rparr>))
         else Some (status (x\<lparr>cmd_tf := read_tf_registers h msk (cmd_tf x)\<rparr>)))"

definition registerAccess :: "bool \<Rightarrow> controller \<Rightarrow> (ioreturn \<times> controller) option" where
  "registerAccess isWrite c =
     (case currentCommand c of None \<Rightarrow> None
      | Some x \<Rightarrow>
        if isWrite then Some (kIOReturnUnsupported, c)
        else case m_pReceivedATAHeader c of None \<Rightarrow> Some (kIOReturnUnsupported, c)
        | Some (h, _) \<Rightarrow>
            map_option (\<lambda>x. (kATANoErr, c\<lparr>currentCommand := Some x\<rparr>)) (read_registers (m_fExtendedLBA c) h x))"

abbreviation (input) mATAError :: u8 where "mATAError \<equiv> 1"

text \<open>\<open>asyncStatus\<close>. Without a received header the result is an uninitialised variable.\<close>

definition setEndResult :: "u8 \<Rightarrow> u8 \<Rightarrow> controller \<Rightarrow> controller" where
  "setEndResult status err = map_command (\<lambda>x. x\<lparr>cmd_endResult := Some (status, err)\<rparr>)"

definition asyncStatus_received :: "aoe_atahdr \<Rightarrow> controller \<Rightarrow> (ioreturn \<times> controller) option" where
  "asyncStatus_received h c = (case currentCommand c of None \<Rightarrow> None | Some x \<Rightarrow> do {
     let status = AOE_ATAHEADER_GETSTAT h;
     (err, error, c) \<leftarrow>
       (if status AND mATAError \<noteq> 0 then do {
          c \<leftarrow> (if mATAFlagTFAccess x \<or> mATAFlagTFAccessResult x
                then map_option snd (registerAccess False c) else Some c);
          Some (kATADeviceError, AOE_ATAHEADER_GETERR h, c) }
        else if mATAFlagTFAccessResult x
        then map_option (\<lambda>r. (kATANoErr, 0, snd r)) (registerAccess False c)
        else Some (kATANoErr, 0, c));
     let c = setEndResult status error c;
     Some (if m_PreviousWriteStatus c AND mATAError \<noteq> 0 \<and> m_PreviousWriteError c \<noteq> 0
           then (kATADeviceError, setEndResult (m_PreviousWriteStatus c) (m_PreviousWriteError c) c)
           else (err, c)) })"

definition asyncStatus :: "ata_family \<Rightarrow> controller \<Rightarrow> (ioreturn \<times> controller) option" where
  "asyncStatus af c = do {
     (err, c) \<leftarrow> (case m_pReceivedATAHeader c of Some (h, _) \<Rightarrow> asyncStatus_received h c
                  | None \<Rightarrow> Some (af_uninit_err af, c));
     Some (err, c\<lparr>m_PreviousWriteStatus := 0, m_PreviousWriteError := 0\<rparr>) }"

section \<open>An example\<close>

text \<open>A base class for evaluating the model: completing a command removes it, copies of memory are
  exact and nothing fails.\<close>

definition write_at :: "u32 \<Rightarrow> u8 list \<Rightarrow> u8 list \<Rightarrow> u8 list" where
  "write_at offset bs buf = take (unat offset) buf @ bs @ drop (unat offset + length bs) buf"

definition example_family :: ata_family where
  "example_family = \<lparr>af_completeIO = (\<lambda>err (c, p). (c\<lparr>currentCommand := None\<rparr>, p)),
     af_asyncIO = (\<lambda>cp. Some (kATANoErr, cp)), af_checkTimeout = (\<lambda>c. False),
     af_busCanDispatch = (\<lambda>c. True), af_init_ok = True, af_controller_attach = True,
     af_controller_start = True, af_create_device = True, af_device_attach = True,
     af_device_start = True, af_swapBytes16 = (\<lambda>b. b), af_Supports48BitLBA = (\<lambda>b. True),
     af_ExtendedLBASize = (\<lambda>b. (0, 1000)), af_writeBytes = write_at,
     af_readBytes = (\<lambda>offset len buf. take (unat len) (drop (unat offset) buf)),
     af_IOMallocContiguous_ok = True, af_shared_command = True, af_setTimeout = 0,
     af_uninit_err = kATANoErr\<rparr>"

definition example_controller :: controller where
  "example_controller = snd (controller_init example_kernel example_family 100 0 1 2 17 1500 262144 1)"

definition example_command :: ata_command where
  "example_command = \<lparr>mATAFlag48BitLBA = True, mATAFlagIOWrite = False, mATAFlagIORead = True,
     mATAFlagUseDMA = True, mATAFlagTFAccess = False, mATAFlagTFAccessResult = False, cmd_regMask = [],
     cmd_byteCount = 2560, cmd_actualTransfer = 0, cmd_position = 0, cmd_chunkSize = 0,
     cmd_tf = \<lparr>ataTFFeatures = 0, ataTFCount = 5, ataTFSector = 9, ataTFCylLo = 0, ataTFCylHigh = 0,
       ataTFSDH = 0, ataTFCommand = kATAcmdReadDMAExtended\<rparr>, cmd_tf_ok = True,
     cmd_ext = \<lparr>LBALow16 = 9, LBAMid16 = 0, LBAHigh16 = 0, SectorCount16 = 5, Features16 = 0,
       ext_Command = 0\<rparr>, cmd_ext_ok = True, cmd_state = kATAOtherState 0, cmd_endResult = None,
     cmd_buffer = replicate 2560 0\<rparr>"

end
