(* ===== verification/Accounting.thy ===== *)
theory Accounting
  imports FlowControl
begin

text \<open>
  What the flow control keeps: the counter of outstanding commands of every interface is the number
  of packets in flight on it, a packet is sent only inside the window, a timer run backs off once,
  and the round trip estimate stays within bounds.
\<close>

section \<open>Counters as a list\<close>

definition counts :: "EInterfaces \<Rightarrow> int list" where
  "counts I = map m_nOutstandingCount (m_aInterfaces I)"

lemma length_counts: "length (counts I) = length (m_aInterfaces I)"
  by (simp add: counts_def)

lemma nth_counts [simp]: "n < length (counts I) \<Longrightarrow> outstanding_at I n = counts I ! n"
  by (simp add: counts_def outstanding_at_def)

lemma counts_update_if:
  "(\<And>e. m_nOutstandingCount (f e) = m_nOutstandingCount e) \<Longrightarrow> counts (snd (update_if r f I)) = counts I"
  by (auto simp: counts_def update_if_def map_update list_update_same_conv
      dest: find_if_less split: option.split)

lemma counts_setters [simp]:
  "counts (snd (EInterfaces_set_cwnd r v I)) = counts I"
  "counts (snd (EInterfaces_set_ssthresh r v I)) = counts I"
  "counts (snd (EInterfaces_update_time_since_last_send k r I)) = counts I"
  by (simp_all add: setting_defs EInterfaces_update_time_since_last_send_def counts_update_if)

lemma counts_grow: "EInterfaces_grow_cwnd r i f I = Some (x, I') \<Longrightarrow> counts I' = counts I"
  by (auto simp: EInterfaces_grow_cwnd_def EInterface_grow_def counts_def map_update Let_def
      list_update_same_conv dest: find_if_less split: option.splits if_splits bind_splits)

lemma set_outstanding_at_Some:
  "n < length (counts I) \<Longrightarrow>
   \<exists>I'. set_outstanding_at n v I = Some I' \<and> counts I' = (counts I)[n := v]"
  by (simp add: set_outstanding_at_def counts_def map_update)

lemma counts_set_outstanding:
  "set_outstanding_at n v I = Some I' \<Longrightarrow> n < length (counts I) \<and> counts I' = (counts I)[n := v]"
  by (auto simp: set_outstanding_at_def counts_def map_update split: if_splits)

lemma counts_add_outstanding:
  "add_outstanding p d s = Some s' \<Longrightarrow>
   \<exists>n. p = Some n \<and> n < length (counts (m_pInterfaces s)) \<and>
     counts (m_pInterfaces s') = (counts (m_pInterfaces s))[n := s32 (counts (m_pInterfaces s) ! n + d)] \<and>
     s' = s\<lparr>m_pInterfaces := m_pInterfaces s'\<rparr>"
  by (auto simp: add_outstanding_def add_outstanding_at_def split: option.splits
      dest!: counts_set_outstanding)

section \<open>Packets in flight\<close>

definition in_flight :: "SentPkt \<Rightarrow> bool" where
  "in_flight p \<longleftrightarrow> TimeFirstSent p \<noteq> 0 \<and> \<not> fPacketHasBeenRetransmit p"

definition in_flight_on :: "nat \<Rightarrow> SentPkt \<Rightarrow> bool" where
  "in_flight_on n p \<longleftrightarrow> in_flight p \<and> sq_pOutstandingCount p = Some n"

definition in_flight_count :: "SentPkt list \<Rightarrow> nat \<Rightarrow> int" where
  "in_flight_count ps n = int (length (filter (in_flight_on n) ps))"

lemma in_flight_count_simps [simp]:
  "in_flight_count [] n = 0"
  "in_flight_count (p # ps) n = in_flight_count ps n + of_bool (in_flight_on n p)"
  "in_flight_count (ps @ qs) n = in_flight_count ps n + in_flight_count qs n"
  by (simp_all add: in_flight_count_def)

lemma in_flight_count_nonneg: "0 \<le> in_flight_count ps n"
  by (simp add: in_flight_count_def)

lemma in_flight_count_le: "in_flight_count ps n \<le> int (length ps)"
  by (simp add: in_flight_count_def)

text \<open>
  The queues are consistent: tags identify sent packets; a packet waiting for its first transmission
  has not been sent; a packet waiting to be sent again is marked as retransmitted.
\<close>

definition sent_ok :: "nat \<Rightarrow> SentPkt list \<Rightarrow> bool" where
  "sent_ok N ps \<longleftrightarrow> distinct (map sq_Tag ps) \<and> int (length ps) < 2 ^ 30 \<and>
     (\<forall>p \<in> set ps. \<exists>n < N. sq_pOutstandingCount p = Some n)"

definition waiting_ok :: "nat \<Rightarrow> SentPkt list \<Rightarrow> ToSendPkt \<Rightarrow> bool" where
  "waiting_ok N ps i \<longleftrightarrow> (\<forall>p \<in> set ps. sq_Tag p = ts_Tag i \<longrightarrow>
     (if fSendImmediately i then fPacketHasBeenRetransmit p
      else TimeFirstSent p = 0 \<and> \<not> fPacketHasBeenRetransmit p
        \<and> sq_pOutstandingCount p = ts_pOutstandingCount i))"

definition first_tags :: "ToSendPkt list \<Rightarrow> u32 list" where
  "first_tags is = map ts_Tag (filter (\<lambda>i. \<not> fSendImmediately i) is)"

text \<open>No counter is off by more than \<open>d\<close>.\<close>

definition accounts :: "nat \<Rightarrow> int list \<Rightarrow> SentPkt list \<Rightarrow> bool" where
  "accounts d cs ps \<longleftrightarrow> (\<forall>n < length cs. \<bar>cs ! n - in_flight_count ps n\<bar> \<le> int d)"

definition flow_inv :: "nat \<Rightarrow> service \<Rightarrow> bool" where
  "flow_inv d s \<longleftrightarrow>
     (let N = length (counts (m_pInterfaces s)) in
      sent_ok N (m_sent_queue s) \<and> int d < 2 ^ 30 \<and>
      (\<forall>i \<in> set (m_to_send_queue s). waiting_ok N (m_sent_queue s) i) \<and>
      distinct (first_tags (m_to_send_queue s)) \<and>
      accounts d (counts (m_pInterfaces s)) (m_sent_queue s))"

lemma flow_inv_cong:
  "m_sent_queue s' = m_sent_queue s \<Longrightarrow> m_to_send_queue s' = m_to_send_queue s \<Longrightarrow>
   counts (m_pInterfaces s') = counts (m_pInterfaces s) \<Longrightarrow> flow_inv d s' = flow_inv d s"
  by (simp add: flow_inv_def)

lemma flow_inv_to_send_subset:
  assumes "flow_inv d s" "set is \<subseteq> set (m_to_send_queue s)" "distinct (first_tags is)"
  shows "flow_inv d (s\<lparr>m_to_send_queue := is\<rparr>)"
  using assms by (auto simp: flow_inv_def Let_def)

lemma flow_inv_timers [simp]:
  "flow_inv d (enable_transmit_timer us s) = flow_inv d s"
  "flow_inv d (enable_retransmit_timer s) = flow_inv d s"
  "flow_inv d (enable_idle_timer s) = flow_inv d s"
  "flow_inv d (update_rto rtt s) = flow_inv d s"
  by (rule flow_inv_cong; simp)+

lemma first_tags_append [simp]:
  "first_tags (is @ js) = first_tags is @ first_tags js"
  "first_tags [i] = (if fSendImmediately i then [] else [ts_Tag i])"
  by (simp_all add: first_tags_def)

lemma first_tags_filter: "distinct (first_tags is) \<Longrightarrow> distinct (first_tags (filter P is))"
  by (induction "is") (auto simp: first_tags_def)

lemma first_tags_remove1: "distinct (first_tags is) \<Longrightarrow> distinct (first_tags (remove1 i is))"
proof (induction "is")
  case Nil
  then show ?case by (simp add: first_tags_def)
next
  case (Cons x xs)
  have "set (first_tags (remove1 i xs)) \<subseteq> set (first_tags xs)"
    using set_remove1_subset [of i xs] by (auto simp: first_tags_def)
  with Cons show ?case by (auto simp: first_tags_def split: if_splits)
qed

lemma flow_inv_remove_to_send: "flow_inv d s \<Longrightarrow> flow_inv d (remove_to_send i s)"
  unfolding remove_to_send_def
  by (rule flow_inv_to_send_subset) (auto simp: first_tags_remove1 flow_inv_def Let_def
      dest: notin_set_remove1 set_remove1_subset [THEN subsetD])

lemma flow_inv_purge_to_send: "flow_inv d s \<Longrightarrow> flow_inv d (purge_to_send s)"
  unfolding purge_to_send_def
  by (rule flow_inv_to_send_subset) (auto simp: first_tags_filter flow_inv_def Let_def)

section \<open>Each operation keeps the accounts\<close>

lemma is_used_pointer:
  assumes "EInterfaces_is_used I r = 1"
  shows "\<exists>n < length (counts I). EInterfaces_get_ptr_outstanding I r = Some n"
proof -
  from assms obtain n where "find_if I r = Some n"
    by (auto simp: EInterfaces_is_used_def read_if_def split: option.splits)
  then show ?thesis
    using find_if_less [of I r n] by (simp add: EInterfaces_get_ptr_outstanding_def length_counts)
qed

lemma flow_inv_send:
  assumes inv: "flow_inv d s"
    and fresh: "\<forall>p \<in> set (m_sent_queue s). sq_Tag p \<noteq> tag"
      "\<forall>i \<in> set (m_to_send_queue s). ts_Tag i \<noteq> tag"
    and room: "int (length (m_sent_queue s)) + 1 < 2 ^ 30"
    and run: "send_packet_on_interface k ifp tag m nShelf rt s = Some (r, s')"
  shows "flow_inv d s'"
proof (cases "EInterfaces_is_used (m_pInterfaces s) ifp = 1 \<and> ifnet_lladdr_err k ifp = 0")
  case False
  with run inv show ?thesis
    by (auto simp: send_packet_on_interface_def flow_inv_purge_to_send split: if_splits)
next
  case True
  then obtain n where n: "n < length (counts (m_pInterfaces s))"
      "EInterfaces_get_ptr_outstanding (m_pInterfaces s) ifp = Some n"
    using is_used_pointer by blast
  let ?item = "new_sent_item s ifp tag (m\<lparr>ether_shost := ifnet_lladdr k ifp\<rparr>) nShelf rt"
  have item: "sq_Tag ?item = tag" "TimeFirstSent ?item = 0" "\<not> fPacketHasBeenRetransmit ?item"
    "sq_pOutstandingCount ?item = Some n"
    using n by (simp_all add: new_sent_item_def)
  have s': "s' = snd (add_to_send_queue k ifp tag (m\<lparr>ether_shost := ifnet_lladdr k ifp\<rparr>)
      (word_of_int nShelf) (sq_pOutstandingCount ?item) False
      (s\<lparr>m_sent_queue := m_sent_queue s @ [?item]\<rparr>))"
    using run True by (simp add: send_packet_on_interface_def Let_def split: if_splits)
  have sent: "m_sent_queue s' = m_sent_queue s @ [?item]"
    and I: "m_pInterfaces s' = m_pInterfaces s"
    by (simp_all add: s')
  have to_send: "m_to_send_queue s' = m_to_send_queue s \<or>
     (\<exists>i. m_to_send_queue s' = m_to_send_queue s @ [i] \<and> ts_Tag i = tag \<and>
        \<not> fSendImmediately i \<and> ts_pOutstandingCount i = Some n)"
    using item by (simp add: s' add_to_send_queue_def)
  have "tag \<notin> set (first_tags (m_to_send_queue s))"
    using fresh(2) by (auto simp: first_tags_def)
  with to_send show ?thesis
    using inv fresh room n(1) item
    by (auto simp: flow_inv_def Let_def sent I sent_ok_def waiting_ok_def accounts_def
        in_flight_on_def in_flight_def image_iff)
qed

lemma update_first_stamp_count:
  assumes "distinct (map sq_Tag ps)" "p \<in> set ps" "sq_Tag p = t"
  shows "in_flight_count (update_first (\<lambda>p. sq_Tag p = t) f ps) n =
    in_flight_count ps n - of_bool (in_flight_on n p) + of_bool (in_flight_on n (f p))"
  using assms by (induction ps) auto

lemma map_tag_update_first:
  "(\<And>p. sq_Tag (f p) = sq_Tag p) \<Longrightarrow> map sq_Tag (update_first P f ps) = map sq_Tag ps"
  by (induction ps) auto

lemma set_update_first:
  "q \<in> set (update_first P f ps) \<Longrightarrow> q \<in> set ps \<or> (\<exists>p \<in> set ps. P p \<and> q = f p)"
  by (induction ps) (auto split: if_splits)

lemma stamp_fields [simp]:
  "sq_Tag (stamp now p) = sq_Tag p" "sq_pOutstandingCount (stamp now p) = sq_pOutstandingCount p"
  "fPacketHasBeenRetransmit (stamp now p) = fPacketHasBeenRetransmit p"
  "TimeFirstSent (stamp now p) = (if TimeFirstSent p = 0 then now else TimeFirstSent p)"
  by (simp_all add: stamp_def)

lemma distinct_tags_eq:
  "distinct (map sq_Tag ps) \<Longrightarrow> p \<in> set ps \<Longrightarrow> q \<in> set ps \<Longrightarrow> sq_Tag p = sq_Tag q \<Longrightarrow> p = q"
  by (metis distinct_map inj_onD)

lemma sent_ok_update_first:
  assumes "sent_ok N ps" "\<And>p. sq_Tag (f p) = sq_Tag p"
    "\<And>p. sq_pOutstandingCount (f p) = sq_pOutstandingCount p"
  shows "sent_ok N (update_first P f ps)"
  using assms by (auto simp: sent_ok_def map_tag_update_first dest!: set_update_first)

text \<open>Stamping the packet of one item leaves the other waiting items consistent.\<close>

lemma waiting_ok_stamp:
  assumes "sent_ok N ps" "waiting_ok N ps i" "waiting_ok N ps j"
    "fSendImmediately i \<or> fSendImmediately j \<or> ts_Tag i \<noteq> ts_Tag j"
  shows "waiting_ok N (update_first (\<lambda>p. sq_Tag p = ts_Tag i) (stamp now) ps) j"
  unfolding waiting_ok_def
proof (intro ballI impI)
  fix q
  assume q: "q \<in> set (update_first (\<lambda>p. sq_Tag p = ts_Tag i) (stamp now) ps)" "sq_Tag q = ts_Tag j"
  from set_update_first [OF q(1)]
  show "if fSendImmediately j then fPacketHasBeenRetransmit q
      else TimeFirstSent q = 0 \<and> \<not> fPacketHasBeenRetransmit q
        \<and> sq_pOutstandingCount q = ts_pOutstandingCount j"
  proof
    assume "q \<in> set ps"
    with assms(3) q(2) show ?thesis by (simp add: waiting_ok_def)
  next
    assume "\<exists>p \<in> set ps. sq_Tag p = ts_Tag i \<and> q = stamp now p"
    then obtain p where p: "p \<in> set ps" "sq_Tag p = ts_Tag i" "q = stamp now p" by blast
    with q(2) have same: "ts_Tag i = ts_Tag j" by simp
    with p assms(2,3) have
      "if fSendImmediately i then fPacketHasBeenRetransmit p else \<not> fPacketHasBeenRetransmit p"
      "if fSendImmediately j then fPacketHasBeenRetransmit p else \<not> fPacketHasBeenRetransmit p"
      by (auto simp: waiting_ok_def split: if_splits)
    with same assms(4) p(3) show ?thesis by (auto split: if_splits)
  qed
qed

lemma first_tags_neq:
  assumes "distinct (first_tags is)" "i \<in> set is" "j \<in> set (remove1 i is)"
    "\<not> fSendImmediately i" "\<not> fSendImmediately j"
  shows "ts_Tag i \<noteq> ts_Tag j"
  using assms
proof (induction "is")
  case Nil
  then show ?case by simp
next
  case (Cons x xs)
  have mem: "ts_Tag y \<in> set (first_tags xs)" if "y \<in> set xs" "\<not> fSendImmediately y" for y
    using that by (auto simp: first_tags_def)
  show ?case
  proof (cases "x = i")
    case True
    with Cons.prems mem [of j] show ?thesis by (auto simp: first_tags_def)
  next
    case False
    then have i: "i \<in> set xs" using Cons.prems by auto
    from Cons.prems False have "j = x \<or> j \<in> set (remove1 i xs)" by auto
    then show ?thesis
    proof
      assume "j = x"
      with Cons.prems mem [OF i] show ?thesis by (auto simp: first_tags_def)
    next
      assume "j \<in> set (remove1 i xs)"
      moreover have "distinct (first_tags xs)"
        using Cons.prems(1) by (auto simp: first_tags_def split: if_splits)
      ultimately show ?thesis using Cons.IH Cons.prems i by blast
    qed
  qed
qed

lemma s32_near:
  assumes "sent_ok N ps" "accounts d cs ps" "int d < 2 ^ 30" "n < length cs" "\<bar>x\<bar> \<le> 1"
  shows "s32 (cs ! n + x) = cs ! n + x"
proof -
  have "0 \<le> in_flight_count ps n" "in_flight_count ps n < 2 ^ 30" "\<bar>cs ! n - in_flight_count ps n\<bar> \<le> int d"
    using assms in_flight_count_le [of ps n] in_flight_count_nonneg [of ps n] by (auto simp: sent_ok_def accounts_def)
  then show ?thesis using assms(3,5) by (intro s32_id) auto
qed

text \<open>Stamping updates the counts the way the increment does.\<close>

lemma stamp_counts:
  assumes ok: "sent_ok N ps" and i: "waiting_ok N ps i" and p: "p \<in> set ps" "sq_Tag p = ts_Tag i"
    and now: "now \<noteq> 0"
  shows "in_flight_count (update_first (\<lambda>p. sq_Tag p = ts_Tag i) (stamp now) ps) n =
    in_flight_count ps n + of_bool (\<not> fSendImmediately i \<and> ts_pOutstandingCount i = Some n)"
proof -
  have "in_flight_count (update_first (\<lambda>p. sq_Tag p = ts_Tag i) (stamp now) ps) n =
      in_flight_count ps n - of_bool (in_flight_on n p) + of_bool (in_flight_on n (stamp now p))"
    using ok p by (intro update_first_stamp_count) (auto simp: sent_ok_def)
  with i p now show ?thesis
    by (cases "fSendImmediately i") (auto simp: waiting_ok_def in_flight_on_def in_flight_def)
qed

lemma flow_inv_send_from_queue:
  assumes inv: "flow_inv d s" and i: "i \<in> set (m_to_send_queue s)" and now: "uptime k \<noteq> 0"
    and run: "send_packet_from_queue k i s = Some s'"
  shows "flow_inv d s' \<and> m_to_send_queue s' = remove1 i (m_to_send_queue s)"
proof (cases "\<exists>p \<in> set (m_sent_queue s). sq_Tag p = ts_Tag i")
  case False
  with run have "s' = remove_to_send i s" by (simp add: send_packet_from_queue_def)
  with inv show ?thesis by (simp add: flow_inv_remove_to_send) (simp add: remove_to_send_def)
next
  case True
  then obtain p where p: "p \<in> set (m_sent_queue s)" "sq_Tag p = ts_Tag i" by blast
  let ?N = "length (counts (m_pInterfaces s))"
  let ?ps = "update_first (\<lambda>p. sq_Tag p = ts_Tag i) (stamp (uptime k)) (m_sent_queue s)"
  from inv have ok: "sent_ok ?N (m_sent_queue s)"
    and wait: "\<And>j. j \<in> set (m_to_send_queue s) \<Longrightarrow> waiting_ok ?N (m_sent_queue s) j"
    and tags: "distinct (first_tags (m_to_send_queue s))"
    and acct: "accounts d (counts (m_pInterfaces s)) (m_sent_queue s)" and d: "int d < 2 ^ 30"
    by (auto simp: flow_inv_def Let_def)
  have ok': "sent_ok ?N ?ps" by (rule sent_ok_update_first [OF ok]) simp_all
  have wait': "waiting_ok ?N ?ps j" if "j \<in> set (remove1 i (m_to_send_queue s))" for j
    using that set_remove1_subset [of i "m_to_send_queue s"] first_tags_neq [OF tags i that]
    by (intro waiting_ok_stamp [OF ok wait [OF i] wait]) auto
  have cnt: "in_flight_count ?ps n = in_flight_count (m_sent_queue s) n
      + of_bool (\<not> fSendImmediately i \<and> ts_pOutstandingCount i = Some n)" for n
    using ok wait [OF i] p now by (rule stamp_counts)
  from run True obtain s1 where
    s1: "(if fSendImmediately i then Some (s\<lparr>m_sent_queue := ?ps\<rparr>)
          else add_outstanding (ts_pOutstandingCount i) 1 (s\<lparr>m_sent_queue := ?ps\<rparr>)) = Some s1"
    and sent': "m_sent_queue s' = m_sent_queue s1"
    and to_send': "m_to_send_queue s' = remove1 i (m_to_send_queue s1)"
    and counts': "counts (m_pInterfaces s') = counts (m_pInterfaces s1)"
    by (auto simp: send_packet_from_queue_def Let_def remove_to_send_def split: bind_splits)
  have s1q: "m_sent_queue s1 = ?ps" "m_to_send_queue s1 = m_to_send_queue s"
    using s1 by (auto split: if_splits dest: add_outstanding_frames)
  have len: "length (counts (m_pInterfaces s1)) = ?N"
    using s1 by (auto split: if_splits dest!: counts_add_outstanding)
  have "counts (m_pInterfaces s1) ! n - in_flight_count ?ps n = counts (m_pInterfaces s) ! n - in_flight_count (m_sent_queue s) n"
    if "n < ?N" for n
  proof (cases "fSendImmediately i")
    case True
    with s1 cnt show ?thesis by auto
  next
    case False
    with s1 obtain m where m: "ts_pOutstandingCount i = Some m" "m < ?N"
      "counts (m_pInterfaces s1) =
        (counts (m_pInterfaces s))[m := s32 (counts (m_pInterfaces s) ! m + 1)]"
      by (auto dest!: counts_add_outstanding)
    show ?thesis using False m that cnt [of n] s32_near [OF ok acct d m(2), of 1] by (cases "n = m") simp_all
  qed
  then have "accounts d (counts (m_pInterfaces s1)) ?ps" using acct by (simp add: accounts_def len)
  with ok' wait' tags d show ?thesis
    by (auto simp: flow_inv_def Let_def sent' to_send' counts' s1q len first_tags_remove1)
qed

lemma count_list_remove1:
  "count_list (remove1 i xs) j = count_list xs j - of_bool (i = j)"
  by (induction xs) auto

lemma send_immediate_loop_inv:
  assumes "send_immediate_loop k is s = Some s'" "flow_inv d s" "uptime k \<noteq> 0"
    "\<forall>i. count_list is i \<le> count_list (m_to_send_queue s) i"
  shows "flow_inv d s' \<and> set (m_to_send_queue s') \<subseteq> set (m_to_send_queue s)"
  using assms
proof (induction "is" arbitrary: s)
  case Nil
  then show ?case by simp
next
  case (Cons i "is")
  have le: "count_list is j + of_bool (i = j) \<le> count_list (m_to_send_queue s) j" for j
    using Cons.prems(4) by (simp add: of_bool_def split: if_splits) metis
  show ?case
  proof (cases "fSendImmediately i")
    case True
    with Cons.prems obtain s1 where
      s1: "send_packet_from_queue k i s = Some s1" "send_immediate_loop k is s1 = Some s'"
      by (auto split: bind_splits)
    have "i \<in> set (m_to_send_queue s)"
      using le [of i] by (metis count_notin of_bool_eq(2) add_is_0 le_0_eq zero_neq_one)
    then have s1': "flow_inv d s1" "m_to_send_queue s1 = remove1 i (m_to_send_queue s)"
      using flow_inv_send_from_queue Cons.prems(2,3) s1(1) by blast+
    have "\<forall>j. count_list is j \<le> count_list (m_to_send_queue s1) j"
    proof
      fix j
      show "count_list is j \<le> count_list (m_to_send_queue s1) j"
        using le [of j] by (cases "i = j") (simp_all add: s1'(2) count_list_remove1)
    qed
    from Cons.IH [OF s1(2) s1'(1) Cons.prems(3) this] show ?thesis
      using s1'(2) set_remove1_subset [of i "m_to_send_queue s"] by auto
  next
    case False
    with Cons.prems have "send_immediate_loop k is s = Some s'" by simp
    then show ?thesis
      using Cons.IH Cons.prems le by (meson add_leE)
  qed
qed

lemma transmit_loop_cases:
  assumes "transmit_loop k is s = Some (sent, s')"
  shows "if sent
    then \<exists>i \<in> set is. \<exists>limit. max_outstanding s i = Some limit \<and>
           EInterfaces_get_outstanding (m_pInterfaces s) (ts_if_sent i) < limit \<and>
           send_packet_from_queue k i s = Some s'
    else s' = s"
  using assms
  by (induction "is") (auto simp: Let_def split: bind_splits if_splits)

lemma TransmitTimer_steps:
  assumes "TransmitTimer k s = Some s'"
  obtains s1 sent s2 where
    "send_immediate_loop k (m_to_send_queue s)
       (s\<lparr>m_pTransmitTimer := (m_pTransmitTimer s)\<lparr>tm_enabled := False\<rparr>\<rparr>) = Some s1"
    "transmit_loop k (m_to_send_queue s1) s1 = Some (sent, s2)"
    "s' = (if sent \<and> m_to_send_queue s2 \<noteq> [] then enable_transmit_timer 3 s2 else s2)"
  using assms by (auto simp: TransmitTimer_def Let_def split: bind_splits prod.splits)

lemma flow_inv_transmit:
  assumes run: "TransmitTimer k s = Some s'" and inv: "flow_inv d s" and now: "uptime k \<noteq> 0"
  shows "flow_inv d s'"
proof -
  let ?s = "s\<lparr>m_pTransmitTimer := (m_pTransmitTimer s)\<lparr>tm_enabled := False\<rparr>\<rparr>"
  from run obtain s1 sent s2 where
    s1: "send_immediate_loop k (m_to_send_queue s) ?s = Some s1" and
    s2: "transmit_loop k (m_to_send_queue s1) s1 = Some (sent, s2)" and
    s': "s' = (if sent \<and> m_to_send_queue s2 \<noteq> [] then enable_transmit_timer 3 s2 else s2)"
    by (rule TransmitTimer_steps)
  have "flow_inv d ?s" using inv by (simp add: flow_inv_def)
  with s1 now have inv1: "flow_inv d s1"
    using send_immediate_loop_inv [OF s1] by simp
  have "flow_inv d s2"
    using transmit_loop_cases [OF s2] flow_inv_send_from_queue [OF inv1 _ now] inv1
    by (auto split: if_splits)
  then show ?thesis by (simp add: s')
qed

section \<open>Retransmission keeps the accounts\<close>

lemma resent_fields [simp]:
  "sq_Tag (resent p) = sq_Tag p" "sq_pOutstandingCount (resent p) = sq_pOutstandingCount p"
  "fPacketHasBeenRetransmit (resent p)" "TimeSent (resent p) = 0"
  by (simp_all add: resent_def)

lemma counts_back_off [simp]: "counts (m_pInterfaces (back_off r s)) = counts (m_pInterfaces s)"
  by (simp add: back_off_def Let_def)

lemma to_send_back_off:
  "m_to_send_queue (back_off r s) = m_to_send_queue s" "m_sent_queue (back_off r s) = m_sent_queue s"
  by simp_all

text \<open>The state between two items of the retransmit loop: the queue is what was kept and what is
  still to visit.\<close>

definition loop_inv :: "nat \<Rightarrow> SentPkt list \<Rightarrow> service \<Rightarrow> bool" where
  "loop_inv d ps s \<longleftrightarrow> flow_inv d (s\<lparr>m_sent_queue := ps\<rparr>)"

lemma loop_inv_def2:
  "loop_inv d ps s \<longleftrightarrow>
     (let N = length (counts (m_pInterfaces s)) in
      sent_ok N ps \<and> int d < 2 ^ 30 \<and> (\<forall>i \<in> set (m_to_send_queue s). waiting_ok N ps i) \<and>
      distinct (first_tags (m_to_send_queue s)) \<and> accounts d (counts (m_pInterfaces s)) ps)"
  by (simp add: loop_inv_def flow_inv_def)

lemma loop_inv_cong:
  "m_to_send_queue s' = m_to_send_queue s \<Longrightarrow> counts (m_pInterfaces s') = counts (m_pInterfaces s) \<Longrightarrow>
   loop_inv d ps s' = loop_inv d ps s"
  by (simp add: loop_inv_def2)

text \<open>Taking a packet off the queue and, unless the item \<open>q\<close> read for it was retransmitted, decrementing the counter of
  \<open>q\<close>: exact when \<open>q\<close> is the packet and has been sent, and otherwise off by one more.\<close>

lemma loop_inv_drop:
  assumes inv: "loop_inv d (ps @ p # qs) s"
    and run: "(if \<not> fPacketHasBeenRetransmit q then add_outstanding (sq_pOutstandingCount q) (- 1) s
               else Some s) = Some s1"
    and e: "e = of_bool (TimeFirstSent p = 0 \<or> q \<noteq> p)" "int (d + e) < 2 ^ 30"
  shows "loop_inv (d + e) (ps @ qs) s1" "length (counts (m_pInterfaces s1)) = length (counts (m_pInterfaces s))"
proof -
  let ?N = "length (counts (m_pInterfaces s))"
  have ok: "sent_ok ?N (ps @ p # qs)" "accounts d (counts (m_pInterfaces s)) (ps @ p # qs)" "int d < 2 ^ 30"
    using inv by (auto simp: loop_inv_def2 Let_def)
  have q: "sent_ok ?N (ps @ qs)" "\<forall>i \<in> set (m_to_send_queue s). waiting_ok ?N (ps @ qs) i"
    "distinct (first_tags (m_to_send_queue s))"
    using inv by (auto simp: loop_inv_def2 Let_def sent_ok_def waiting_ok_def)
  have to_send: "m_to_send_queue s1 = m_to_send_queue s"
    using run by (auto split: if_splits dest: add_outstanding_frames)
  have "length (counts (m_pInterfaces s1)) = ?N \<and> (\<forall>n < ?N. counts (m_pInterfaces s1) ! n =
      counts (m_pInterfaces s) ! n - of_bool (\<not> fPacketHasBeenRetransmit q \<and> sq_pOutstandingCount q = Some n))"
  proof (cases "fPacketHasBeenRetransmit q")
    case False
    then obtain m where "sq_pOutstandingCount q = Some m" "m < ?N"
      "counts (m_pInterfaces s1) = (counts (m_pInterfaces s))[m := s32 (counts (m_pInterfaces s) ! m + - 1)]"
      using run by (auto dest!: counts_add_outstanding)
    then show ?thesis using False s32_near [OF ok, of m "- 1"] by (auto simp: nth_list_update)
  qed (use run in auto)
  note c = conjunct1 [OF this] conjunct2 [OF this, rule_format]
  show "length (counts (m_pInterfaces s1)) = ?N" by (rule c(1))
  have "\<bar>counts (m_pInterfaces s1) ! n - in_flight_count (ps @ qs) n\<bar> \<le> int (d + e)" if n: "n < ?N" for n
  proof -
    have "\<bar>counts (m_pInterfaces s) ! n - in_flight_count (ps @ p # qs) n\<bar> \<le> int d"
      using ok(2) n by (simp add: accounts_def)
    moreover have "in_flight_on n p \<longleftrightarrow> \<not> fPacketHasBeenRetransmit q \<and> sq_pOutstandingCount q = Some n"
      if "TimeFirstSent p \<noteq> 0" "q = p" using that by (auto simp: in_flight_on_def in_flight_def)
    ultimately show ?thesis by (auto simp: c(2) [OF n] e(1) of_bool_def split: if_splits)
  qed
  then show "loop_inv (d + e) (ps @ qs) s1" using q e(2) by (simp add: loop_inv_def2 Let_def to_send c(1) accounts_def)
qed

lemma loop_inv_resend:
  assumes inv: "loop_inv d (ps @ p # qs) s" and sent: "TimeFirstSent p \<noteq> 0"
    and run: "(if \<not> fPacketHasBeenRetransmit p then add_outstanding (sq_pOutstandingCount p) (- 1) s
               else Some s) = Some s1"
  shows "loop_inv d (ps @ fst (resend_packet k nT p s1) # qs) (snd (resend_packet k nT p s1))"
proof -
  let ?N = "length (counts (m_pInterfaces s))"
  let ?s2 = "snd (resend_packet k nT p s1)"
  have fst: "fst (resend_packet k nT p s1) = resent p"
    by (simp add: resend_packet_def Let_def)
  have to_send1: "m_to_send_queue s1 = m_to_send_queue s"
    using run by (auto split: if_splits dest: add_outstanding_frames)
  have counts2: "counts (m_pInterfaces ?s2) = counts (m_pInterfaces s1)"
    by (simp add: resend_packet_def Let_def split: option.split)
  have to_send2: "m_to_send_queue ?s2 = m_to_send_queue s \<or>
     (\<exists>i. m_to_send_queue ?s2 = m_to_send_queue s @ [i] \<and> fSendImmediately i \<and> ts_Tag i = sq_Tag p)"
    by (simp add: resend_packet_def Let_def add_to_send_queue_def to_send1 split: option.split)
  have "int (d + 0) < 2 ^ 30" using inv by (simp add: loop_inv_def2 Let_def)
  with loop_inv_drop [OF inv run, of 0] sent have dropped: "loop_inv d (ps @ qs) s1" by simp
  have len: "length (counts (m_pInterfaces s1)) = ?N"
    using run by (auto split: if_splits dest!: counts_add_outstanding)
  have ok: "sent_ok ?N (ps @ p # qs)" and
    wait: "\<And>i. i \<in> set (m_to_send_queue s) \<Longrightarrow> waiting_ok ?N (ps @ p # qs) i"
    using inv by (auto simp: loop_inv_def2 Let_def)
  have ok2: "sent_ok ?N (ps @ resent p # qs)" using ok by (auto simp: sent_ok_def)
  have wait2: "waiting_ok ?N (ps @ resent p # qs) i" if "i \<in> set (m_to_send_queue s)" for i
    using wait [OF that] sent by (auto simp: waiting_ok_def split: if_splits)
  have new: "waiting_ok ?N (ps @ resent p # qs) i" if "fSendImmediately i" "ts_Tag i = sq_Tag p" for i
  proof -
    have "sq_Tag p \<notin> sq_Tag ` set (ps @ qs)" using ok by (simp add: sent_ok_def image_Un)
    then have "sq_Tag q \<noteq> sq_Tag p" if "q \<in> set (ps @ qs)" for q
      using that by (metis imageI)
    then show ?thesis using that by (simp add: waiting_ok_def)
  qed
  have cnt: "in_flight_count (ps @ resent p # qs) n = in_flight_count (ps @ qs) n" for n
    by (simp add: in_flight_on_def in_flight_def)
  from to_send2 dropped ok2 wait2 new show ?thesis
    unfolding fst loop_inv_def2 Let_def counts2 len cnt accounts_def
    by (auto simp: to_send1)
qed

text \<open>
  The packets that a run of the timer drops and counts wrongly: those that were never sent, and those whose freed block,
  from which the flag and the counter are read, no longer holds them.
\<close>

definition dropped :: "kernel \<Rightarrow> u64 \<Rightarrow> SentPkt \<Rightarrow> bool" where
  "dropped k limit p \<longleftrightarrow> RetransmitTime_us p = 0 \<or>
     TimeFirstSent p \<noteq> 0 \<and> TimeSent p \<noteq> 0 \<and> limit < time_since_now_us k (TimeFirstSent p)"

definition mislaid :: "kernel \<Rightarrow> (SentPkt \<Rightarrow> SentPkt) \<Rightarrow> u64 \<Rightarrow> SentPkt list \<Rightarrow> nat" where
  "mislaid k freed limit ps = length (filter (\<lambda>p. dropped k limit p \<and> (TimeFirstSent p = 0 \<or> freed p \<noteq> p)) ps)"

lemma mislaid_Cons:
  "mislaid k freed limit (p # ps) =
    of_bool (dropped k limit p \<and> (TimeFirstSent p = 0 \<or> freed p \<noteq> p)) + mislaid k freed limit ps"
  by (simp add: mislaid_def)

lemma loop_inv_back_off: "loop_inv d ps (back_off r s) = loop_inv d ps s"
  by (rule loop_inv_cong) simp_all

lemma loop_inv_item:
  assumes inv: "loop_inv d (ps @ p # qs) s"
    and run: "retransmit_item k freed nT p adj s = Some (r, adj', s')"
    and e: "e = of_bool (dropped k (m_MaxTimeOutBeforeDrop s) p \<and> (TimeFirstSent p = 0 \<or> freed p \<noteq> p))" "int (d + e) < 2 ^ 30"
  shows "loop_inv (d + e) (ps @ (case r of Some p \<Rightarrow> [p] | None \<Rightarrow> []) @ qs) s'"
    "m_MaxTimeOutBeforeDrop s' = m_MaxTimeOutBeforeDrop s"
proof -
  let ?dec = "\<lambda>q s. if \<not> fPacketHasBeenRetransmit q
    then add_outstanding (sq_pOutstandingCount q) (- 1) s else Some s"
  let ?s = "if adj then s else back_off (sq_if_sent p) s"
  have inv': "loop_inv d (ps @ p # qs) ?s"
    using inv by (simp add: loop_inv_back_off)
  consider
      (drop) "dropped k (m_MaxTimeOutBeforeDrop s) p" "?dec (freed p) s = Some s'" "r = None"
    | (resend) s1 where "\<not> dropped k (m_MaxTimeOutBeforeDrop s) p" "TimeFirstSent p \<noteq> 0" "?dec p ?s = Some s1"
        "resend_packet k nT p s1 = (the r, s')" "r \<noteq> None"
    | (keep) "\<not> dropped k (m_MaxTimeOutBeforeDrop s) p" "r = Some p" "s' = s"
  proof (cases "dropped k (m_MaxTimeOutBeforeDrop s) p")
    case True
    then have "retransmit_item k freed nT p adj s = ?dec (freed p) s \<bind> (\<lambda>s. Some (None, adj, s))"
      by (auto simp: retransmit_item_def dropped_def)
    with run True drop show thesis by (auto split: Option.bind_split_asm)
  next
    case False
    then show thesis
      using run resend keep unfolding retransmit_item_def Let_def dropped_def
      by (auto split: if_split_asm Option.bind_split_asm prod.splits)
  qed
  then have "loop_inv (d + e) (ps @ (case r of Some p \<Rightarrow> [p] | None \<Rightarrow> []) @ qs) s' \<and>
    m_MaxTimeOutBeforeDrop s' = m_MaxTimeOutBeforeDrop s"
  proof cases
    case drop
    then show ?thesis
      using loop_inv_drop(1) [OF inv drop(2) _ e(2)] e(1) by (auto dest: add_outstanding_frames split: if_splits)
  next
    case resend
    have "m_MaxTimeOutBeforeDrop s1 = m_MaxTimeOutBeforeDrop s"
      using resend(3) by (auto dest: add_outstanding_frames split: if_splits)
    then have "m_MaxTimeOutBeforeDrop s' = m_MaxTimeOutBeforeDrop s"
      using resend(4) by (auto simp: resend_packet_def Let_def split: option.splits)
    with resend loop_inv_resend [OF inv' resend(2,3), of k nT] e(1) show ?thesis by auto
  next
    case keep
    with inv e(1) show ?thesis by simp
  qed
  then show "loop_inv (d + e) (ps @ (case r of Some p \<Rightarrow> [p] | None \<Rightarrow> []) @ qs) s'"
    "m_MaxTimeOutBeforeDrop s' = m_MaxTimeOutBeforeDrop s" by blast+
qed

lemma loop_inv_loop:
  assumes "retransmit_loop k freed nT kept is adj s = Some s'" "loop_inv d (kept @ is) s"
    "int (d + mislaid k freed (m_MaxTimeOutBeforeDrop s) is) < 2 ^ 30"
  shows "flow_inv (d + mislaid k freed (m_MaxTimeOutBeforeDrop s) is) s'"
  using assms
proof (induction "is" arbitrary: kept adj s d)
  case Nil
  then show ?case by (auto simp: loop_inv_def mislaid_def)
next
  case (Cons p "is")
  let ?e = "of_bool (dropped k (m_MaxTimeOutBeforeDrop s) p \<and> (TimeFirstSent p = 0 \<or> freed p \<noteq> p)) :: nat"
  from Cons.prems(1) obtain r adj1 s1 where
    item: "retransmit_item k freed nT p adj s = Some (r, adj1, s1)" and
    rest: "retransmit_loop k freed nT (kept @ (case r of Some i \<Rightarrow> [i] | None \<Rightarrow> [])) is adj1 s1 = Some s'"
    by (auto split: bind_splits prod.splits)
  have small: "int (d + ?e) < 2 ^ 30" using Cons.prems(3) by (simp add: mislaid_Cons)
  note next' = loop_inv_item [OF Cons.prems(2) item refl small]
  show ?case
    using Cons.IH [OF rest, of "d + ?e"] next' Cons.prems(3) by (simp add: mislaid_Cons add.assoc)
qed

lemma flow_inv_retransmit:
  assumes run: "RetransmitTimer k freed nT s = Some s'" and inv: "flow_inv d s"
    and e: "e = mislaid k freed (m_MaxTimeOutBeforeDrop s) (m_sent_queue s)" "int (d + e) < 2 ^ 30"
  shows "flow_inv (d + e) s'"
proof -
  let ?s = "s\<lparr>m_pRetransmitTimer := (m_pRetransmitTimer s)\<lparr>tm_enabled := False\<rparr>\<rparr>"
  from run obtain s1 where
    s1: "retransmit_loop k freed nT [] (m_sent_queue s) False ?s = Some s1" and
    s': "s' = (if m_sent_queue s1 \<noteq> [] then enable_retransmit_timer s1 else s1)"
    by (auto simp: RetransmitTimer_def Let_def split: bind_splits)
  have "loop_inv d ([] @ m_sent_queue s) ?s" using inv by (simp add: loop_inv_def flow_inv_def)
  from loop_inv_loop [OF s1 this] e show ?thesis by (simp add: s')
qed

section \<open>Responses keep the accounts\<close>

lemma counts_response_window:
  assumes "response_window r s = Some s'"
  shows "counts (m_pInterfaces s') = counts (m_pInterfaces s)" "m_sent_queue s' = m_sent_queue s"
    "m_to_send_queue s' = m_to_send_queue s"
  using assms by (auto simp: response_window_def Let_def dest: counts_grow)

text \<open>A response to a packet that has not been sent decrements the counter as well; a counter below 0 is set to 0.\<close>

lemma response_outstanding_drop:
  assumes inv: "loop_inv d (ps @ p # qs) s" and run: "response_outstanding p s = Some s'"
    and e: "e = of_bool (TimeFirstSent p = 0)" "int (d + e) < 2 ^ 30"
  shows "loop_inv (d + e) (ps @ qs) s'"
proof -
  obtain n where n: "sq_pOutstandingCount p = Some n" "n < length (counts (m_pInterfaces s))"
    using inv by (auto simp: loop_inv_def2 Let_def sent_ok_def)
  from run n obtain s1 where
    s1: "(if \<not> fPacketHasBeenRetransmit p then add_outstanding (sq_pOutstandingCount p) (- 1) s else Some s) = Some s1" and
    s': "(if outstanding_at (m_pInterfaces s1) n < 0
          then map_option (\<lambda>I. s1\<lparr>m_pInterfaces := I\<rparr>) (set_outstanding_at n 0 (m_pInterfaces s1))
          else Some s1) = Some s'"
    unfolding response_outstanding_def by (simp only: option.case bind_eq_Some_conv) blast
  have "loop_inv (d + e) (ps @ qs) s1" by (rule loop_inv_drop(1) [OF inv s1]) (use e in simp_all)
  moreover from this have "- int (d + e) \<le> counts (m_pInterfaces s1) ! n - in_flight_count (ps @ qs) n"
    if "n < length (counts (m_pInterfaces s1))" using that by (auto simp: loop_inv_def2 Let_def accounts_def dest!: spec [of _ n])
  ultimately show ?thesis
    using s' in_flight_count_nonneg [of "ps @ qs" n]
    by (auto simp: loop_inv_def2 Let_def accounts_def nth_list_update dest!: counts_set_outstanding split: if_split_asm)
qed

lemma flow_inv_response:
  assumes run: "response_found k freed tag s = Some (found, s')" and inv: "flow_inv d s"
    and e: "e = of_bool (\<exists>p \<in> set (m_sent_queue s). sq_Tag p = tag \<and> TimeFirstSent p = 0)" "int (d + e) < 2 ^ 30"
  shows "flow_inv (d + e) s'"
proof (cases "take_first (\<lambda>i. sq_Tag i = tag) (m_sent_queue s)")
  case None
  then have "s' = s" "e = 0" using run e(1) by (simp_all add: response_found_def) (simp add: take_first_None)
  with inv show ?thesis by simp
next
  case (Some a)
  then obtain p rest where p: "take_first (\<lambda>i. sq_Tag i = tag) (m_sent_queue s) = Some (p, rest)"
    by (cases a) auto
  from take_first_Some [OF p] obtain ps qs where
    q: "m_sent_queue s = ps @ p # qs" "rest = ps @ qs" "sq_Tag p = tag" by auto
  from run p obtain s1 where
    s1: "response_outstanding p s = Some s1" and
    s2: "response_window (sq_if_sent (freed p))
      ((if \<not> fPacketHasBeenRetransmit p then update_rto (time_since_now_ns k (TimeSent p)) s1 else s1)
         \<lparr>m_sent_queue := rest\<rparr>) = Some s'"
    by (auto simp: response_found_def Let_def split: bind_splits)
  have inv': "loop_inv d (ps @ p # qs) s" using inv by (simp add: loop_inv_def flip: q(1))
  have "distinct (map sq_Tag (ps @ p # qs))" using inv' by (simp add: loop_inv_def2 Let_def sent_ok_def)
  then have "e = of_bool (TimeFirstSent p = 0)" using q e(1) by (auto simp: image_iff)
  with response_outstanding_drop [OF inv' s1] e(2) have "loop_inv (d + e) (ps @ qs) s1" by blast
  then have "flow_inv (d + e) (s1\<lparr>m_sent_queue := rest\<rparr>)" by (simp add: loop_inv_def q)
  with counts_response_window [OF s2] show ?thesis
    by (simp add: flow_inv_def split: if_splits)
qed

section \<open>The idle timer\<close>

text \<open>It sets the counter of an idle interface to 0, whether packets are in flight on it or not.\<close>

definition idle_entry_at :: "kernel \<Rightarrow> u64 \<Rightarrow> EInterface \<Rightarrow> bool" where
  "idle_entry_at k T e \<longleftrightarrow> m_fEnabled e \<and> m_TimeSinceLastSend e \<noteq> 0 \<and>
     T < time_since_now_us k (m_TimeSinceLastSend e)"

definition idles :: "kernel \<Rightarrow> u64 \<Rightarrow> EInterfaces \<Rightarrow> bool list" where
  "idles k T I = map (idle_entry_at k T) (m_aInterfaces I)"

definition forgotten :: "kernel \<Rightarrow> service \<Rightarrow> nat" where
  "forgotten k s = length (filter (\<lambda>p. in_flight p \<and>
     (\<exists>n \<in> set [0..<length (idles k (ucast IDLE_DELAY_US) (m_pInterfaces s))]. sq_pOutstandingCount p = Some n \<and> idles k (ucast IDLE_DELAY_US) (m_pInterfaces s) ! n))
     (m_sent_queue s))"

lemma idles_update_if:
  "(\<And>e. idle_entry_at k T (f e) = idle_entry_at k T e) \<Longrightarrow> idles k T (snd (update_if r f I)) = idles k T I"
  by (auto simp: idles_def update_if_def map_update list_update_same_conv dest: find_if_less split: option.split)

lemma idles_setters [simp]:
  "idles k T (snd (EInterfaces_set_cwnd r v I)) = idles k T I"
  "idles k T (snd (EInterfaces_set_ssthresh r v I)) = idles k T I"
  by (simp_all add: setting_defs idles_update_if idle_entry_at_def)

lemma length_idles [simp]: "length (idles k T I) = length (counts I)"
  by (simp add: idles_def counts_def)

lemma idle_step_counts:
  assumes "n < length (counts I)"
  shows "counts (reset_if_idle_step k T n I) = (if idles k T I ! n then (counts I)[n := 0] else counts I) \<and>
    idles k T (reset_if_idle_step k T n I) = idles k T I"
proof -
  let ?e = "m_aInterfaces I ! n"
  have idle: "idles k T I ! n \<longleftrightarrow> idle_entry_at k T ?e" using assms by (simp add: idles_def counts_def)
  let ?J = "snd (EInterfaces_set_ssthresh (m_ifnet ?e)
      (c_div (EInterface_get_max_outstanding_all_shelves (m_aInterfaces (snd (EInterfaces_set_cwnd (m_ifnet ?e) 1 I)) ! n)) 2)
      (snd (EInterfaces_set_cwnd (m_ifnet ?e) 1 I)))"
  have J: "counts ?J = counts I" "idles k T ?J = idles k T I" by simp_all
  have n: "n < length (m_aInterfaces ?J)" using assms J(1) by (metis length_counts)
  then have entry: "counts I ! n = m_nOutstandingCount (m_aInterfaces ?J ! n)" "idles k T I ! n = idle_entry_at k T (m_aInterfaces ?J ! n)"
    unfolding J(1) [symmetric] J(2) [symmetric] by (simp_all add: counts_def idles_def)
  show ?thesis
  proof (cases "idle_entry_at k T ?e")
    case True
    let ?K = "?J\<lparr>m_aInterfaces := (m_aInterfaces ?J)[n := (m_aInterfaces ?J ! n)\<lparr>m_nOutstandingCount := 0\<rparr>]\<rparr>"
    have "counts ?K = (counts ?J)[n := 0]" by (simp add: counts_def map_update)
    moreover have "idles k T ?K = (idles k T ?J)[n := idle_entry_at k T (m_aInterfaces ?J ! n)]"
      by (simp add: idles_def map_update idle_entry_at_def)
    ultimately have K: "counts ?K = (counts I)[n := 0]" "idles k T ?K = idles k T I"
      unfolding J entry(2) [symmetric] by (simp_all add: list_update_same_conv assms)
    have "reset_if_idle_step k T n I = (if m_nOutstandingCount (m_aInterfaces ?J ! n) \<noteq> 0 then ?K else ?J)"
      using True unfolding idle_entry_at_def reset_if_idle_step_def Let_def by simp
    moreover have "(counts I)[n := 0] = counts I" if "m_nOutstandingCount (m_aInterfaces ?J ! n) = 0"
      using that entry(1) assms by (simp add: list_update_same_conv)
    ultimately show ?thesis using True idle J K by (simp split: if_split)
  next
    case False
    then have "reset_if_idle_step k T n I = I"
      unfolding idle_entry_at_def reset_if_idle_step_def Let_def by auto
    then show ?thesis using False idle by simp
  qed
qed

lemma idle_fold_counts:
  "m \<le> length (counts I) \<Longrightarrow>
    counts (fold (reset_if_idle_step k T) [0..<m] I) =
      map (\<lambda>n. if n < m \<and> idles k T I ! n then 0 else counts I ! n) [0..<length (counts I)] \<and>
    idles k T (fold (reset_if_idle_step k T) [0..<m] I) = idles k T I"
proof (induction m)
  case 0
  then show ?case by (simp add: map_nth)
next
  case (Suc m)
  let ?J = "fold (reset_if_idle_step k T) [0..<m] I"
  have J: "counts ?J = map (\<lambda>n. if n < m \<and> idles k T I ! n then 0 else counts I ! n) [0..<length (counts I)]" "idles k T ?J = idles k T I"
    using Suc by simp_all
  have "m < length (counts ?J)" using Suc.prems by (simp add: J(1))
  from idle_step_counts [OF this, of k T] show ?case
    using Suc.prems by (auto simp: J(2) less_Suc_eq nth_list_update intro!: nth_equalityI) (auto simp: J(1) nth_list_update)
qed

lemma IdleTimer_counts:
  "counts (m_pInterfaces (IdleTimer k s)) =
    map (\<lambda>n. if idles k (ucast IDLE_DELAY_US) (m_pInterfaces s) ! n then 0 else counts (m_pInterfaces s) ! n) [0..<length (counts (m_pInterfaces s))]"
  using idle_fold_counts [of "length (counts (m_pInterfaces s))" "m_pInterfaces s" k "ucast IDLE_DELAY_US"]
  by (simp add: IdleTimer_def EInterfaces_reset_if_idle_def length_counts)

lemma flow_inv_idle:
  assumes inv: "flow_inv d s" and e: "e = forgotten k s" "int (d + e) < 2 ^ 30"
  shows "flow_inv (d + e) (IdleTimer k s)"
proof -
  define idle where "idle = idles k (ucast IDLE_DELAY_US) (m_pInterfaces s)"
  let ?cs = "counts (m_pInterfaces s)" and ?ps = "m_sent_queue s"
  have few: "in_flight_count ?ps n \<le> int e" if "n < length ?cs" "idle ! n" for n
  proof -
    let ?lost = "filter (\<lambda>p. in_flight p \<and> (\<exists>n \<in> set [0..<length idle]. sq_pOutstandingCount p = Some n \<and> idle ! n)) ?ps"
    have "filter (in_flight_on n) ?lost = filter (in_flight_on n) ?ps"
      unfolding filter_filter using that by (intro filter_cong) (auto simp: in_flight_on_def idle_def)
    then have "length (filter (in_flight_on n) ?ps) \<le> length ?lost" using length_filter_le [of "in_flight_on n" ?lost] by (simp only:)
    then show ?thesis by (simp only: e(1) forgotten_def idle_def in_flight_count_def of_nat_le_iff)
  qed
  have "accounts (d + e) (map (\<lambda>n. if idle ! n then 0 else ?cs ! n) [0..<length ?cs]) ?ps"
    unfolding accounts_def
  proof (intro allI impI)
    fix n
    assume "n < length (map (\<lambda>n. if idle ! n then 0 else ?cs ! n) [0..<length ?cs])"
    then have n: "n < length ?cs" by simp
    have "\<bar>?cs ! n - in_flight_count ?ps n\<bar> \<le> int d" using inv n by (simp add: flow_inv_def Let_def accounts_def)
    then show "\<bar>map (\<lambda>n. if idle ! n then 0 else ?cs ! n) [0..<length ?cs] ! n - in_flight_count ?ps n\<bar> \<le> int (d + e)"
      using few [OF n] in_flight_count_nonneg [of ?ps n] n by (cases "idle ! n") simp_all
  qed
  moreover have "counts (m_pInterfaces (IdleTimer k s)) = map (\<lambda>n. if idle ! n then 0 else ?cs ! n) [0..<length ?cs]"
    by (simp only: IdleTimer_counts idle_def)
  moreover have "m_sent_queue (IdleTimer k s) = ?ps" "m_to_send_queue (IdleTimer k s) = m_to_send_queue s"
    by (simp_all add: IdleTimer_def)
  ultimately show ?thesis using inv e(2) by (simp add: flow_inv_def Let_def del: upt_Suc)
qed

section \<open>Any sequence of sends, timer runs and responses\<close>

text \<open>
  A step of flow control, in any state of the clock and the machine and whatever a freed block reads as: a new tag is not in
  use and the clock is past 0. The number is that of the packets the step counts wrongly: those it drops
  before they were sent or after they were freed, one that is answered before it was sent, those in flight on an
  interface that the idle timer finds idle.
\<close>

inductive flow_step :: "service \<Rightarrow> nat \<Rightarrow> service \<Rightarrow> bool" where
  step_send: "\<lbrakk> \<forall>p \<in> set (m_sent_queue s). sq_Tag p \<noteq> tag; \<forall>i \<in> set (m_to_send_queue s). ts_Tag i \<noteq> tag;
       int (length (m_sent_queue s)) + 1 < 2 ^ 30;
       send_packet_on_interface k ifp tag m nShelf rt s = Some (r, s') \<rbrakk> \<Longrightarrow> flow_step s 0 s'"
| step_transmit: "\<lbrakk> uptime k \<noteq> 0; TransmitTimer k s = Some s' \<rbrakk> \<Longrightarrow> flow_step s 0 s'"
| step_retransmit: "RetransmitTimer k freed nT s = Some s' \<Longrightarrow>
    flow_step s (mislaid k freed (m_MaxTimeOutBeforeDrop s) (m_sent_queue s)) s'"
| step_response: "response_found k freed tag s = Some (found, s') \<Longrightarrow>
    flow_step s (of_bool (\<exists>p \<in> set (m_sent_queue s). sq_Tag p = tag \<and> TimeFirstSent p = 0)) s'"
| step_idle: "flow_step s (forgotten k s) (IdleTimer k s)"

text \<open>Steps with the sum of their numbers.\<close>

definition flow_event :: "nat \<times> service \<Rightarrow> nat \<times> service \<Rightarrow> bool" where
  "flow_event x y \<longleftrightarrow> (\<exists>e. fst y = fst x + e \<and> flow_step (snd x) e (snd y))"

definition flow_ok :: "nat \<times> service \<Rightarrow> bool" where
  "flow_ok x \<longleftrightarrow> (int (fst x) < 2 ^ 30 \<longrightarrow> flow_inv (fst x) (snd x))"

lemma flow_step_inv: "flow_step s e s' \<Longrightarrow> flow_inv d s \<Longrightarrow> int (d + e) < 2 ^ 30 \<Longrightarrow> flow_inv (d + e) s'"
proof (induction rule: flow_step.induct)
  case (step_send s tag k ifp m nShelf rt r s')
  from flow_inv_send [OF step_send(5) step_send(1-4)] show ?case by simp
next
  case (step_transmit k s s')
  from flow_inv_transmit [OF step_transmit(2,3,1)] show ?case by simp
next
  case (step_retransmit k freed nT s s')
  from flow_inv_retransmit [OF step_retransmit(1,2) refl step_retransmit(3)] show ?case .
next
  case (step_response k freed tag s found s')
  from flow_inv_response [OF step_response(1,2) refl step_response(3)] show ?case .
next
  case (step_idle s k)
  from flow_inv_idle [OF step_idle(1) refl step_idle(2)] show ?case .
qed

interpretation flow: state_machine flow_event flow_ok
proof
  show "flow_ok y" if "flow_event x y" "flow_ok x" for x y
    using that flow_step_inv [of "snd x" _ "snd y" "fst x"] by (auto simp: flow_event_def flow_ok_def)
qed

lemma flow_inv_empty:
  "m_sent_queue s = [] \<Longrightarrow> m_to_send_queue s = [] \<Longrightarrow> \<forall>c \<in> set (counts (m_pInterfaces s)). c = 0 \<Longrightarrow>
   flow_inv 0 s"
  by (simp add: flow_inv_def Let_def sent_ok_def first_tags_def accounts_def)

text \<open>C4: after any sequence of sends under tags not in use, runs of the three timers and responses from an idle state, the outstanding count of
  every interface differs from the number of its packets in flight (sent, not yet answered, not
  retransmitted) by at most the number of packets that were counted wrongly on the way; the two are equal
  while no packet was dropped or answered before it was sent, no freed packet was read wrongly, and no
  interface was idle with packets in flight.\<close>

theorem outstanding_counts_in_flight:
  assumes "flow_event\<^sup>*\<^sup>* (0, s) (d, s')" "m_sent_queue s = []" "m_to_send_queue s = []"
    "\<forall>e \<in> set (m_aInterfaces (m_pInterfaces s)). m_nOutstandingCount e = 0"
    "n < length (m_aInterfaces (m_pInterfaces s'))" "d < 2 ^ 30"
  shows "\<bar>m_nOutstandingCount (m_aInterfaces (m_pInterfaces s') ! n) - in_flight_count (m_sent_queue s') n\<bar> \<le> int d \<and>
    (d = 0 \<longrightarrow> m_nOutstandingCount (m_aInterfaces (m_pInterfaces s') ! n) = in_flight_count (m_sent_queue s') n)"
proof -
  have "flow_inv 0 s" using assms by (intro flow_inv_empty) (auto simp: counts_def)
  then have "flow_ok (0, s)" by (simp add: flow_ok_def)
  with assms(1) have "flow_ok (d, s')" by (rule flow.steps_inv)
  moreover have "int d < 2 ^ 30" using assms(6) by simp
  ultimately have "flow_inv d s'" by (simp add: flow_ok_def)
  then show ?thesis using assms(5) by (auto simp: flow_inv_def Let_def accounts_def counts_def)
qed

text \<open>A machine with one enabled port, and a packet to send on it.\<close>

definition example_service :: service where
  "example_service = service_start\<lparr>m_pInterfaces := EInterfaces_init\<lparr>m_aInterfaces :=
     (m_aInterfaces EInterfaces_init)[1 := EInterface_init\<lparr>m_fEnabled := True, m_ifnet := 2,
        m_anMaxOutstanding := (\<lambda>_. 8)\<rparr>], m_nInterfacesInUse := 1\<rparr>\<rparr>"

definition example_packet :: packet where
  "example_packet = \<lparr>ether_dhost = 0, ether_shost = 0, ether_type = ETHERTYPE_AOE,
     pk_aoe = \<lparr>ah_verflagserr = 0, ah_major = 0, ah_minorcmd = 0, ah_tag0 = 0, ah_tag1 = 0\<rparr>,
     pk_body = CFG \<lparr>ac_bufcnt = 0, ac_fwver = 0, ac_scnt_aoe_ccmd = 0, ac_cslen = 0\<rparr>, pk_data = []\<rparr>"

lemma example_service_run:
  "case do { (r, s1) \<leftarrow> send_packet_on_interface example_kernel 2 7 example_packet 0 True example_service;
             TransmitTimer example_kernel s1 } of
     Some s2 \<Rightarrow> 1 < length (m_aInterfaces (m_pInterfaces s2)) \<and> length (ifnet_output s2) = 1 \<and>
       m_nOutstandingCount (m_aInterfaces (m_pInterfaces s2) ! 1) = 1
   | None \<Rightarrow> False"
  by code_simp

lemma outstanding_counts_in_flight_witness:
  "\<exists>s'. flow_event\<^sup>*\<^sup>* (0, example_service) (0, s') \<and>
     m_nOutstandingCount (m_aInterfaces (m_pInterfaces s') ! 1) = 1 \<and>
     in_flight_count (m_sent_queue s') 1 = 1"
proof -
  from example_service_run obtain r s1 s2 where
    s1: "send_packet_on_interface example_kernel 2 7 example_packet 0 True example_service = Some (r, s1)" and
    s2: "TransmitTimer example_kernel s1 = Some s2" and
    s2': "1 < length (m_aInterfaces (m_pInterfaces s2))"
      "m_nOutstandingCount (m_aInterfaces (m_pInterfaces s2) ! 1) = 1"
    by (auto split: option.splits bind_splits)
  have empty: "m_sent_queue example_service = []" "m_to_send_queue example_service = []"
    by (simp_all add: example_service_def service_start_def)
  have "flow_step example_service 0 s1"
    by (rule step_send [OF _ _ _ s1]) (simp_all add: empty)
  moreover have "flow_step s1 0 s2"
    by (rule step_transmit [OF _ s2]) (simp add: example_kernel_def)
  ultimately have "flow_event (0, example_service) (0, s1)" "flow_event (0, s1) (0, s2)"
    by (simp_all add: flow_event_def)
  then have steps: "flow_event\<^sup>*\<^sup>* (0, example_service) (0, s2)" by simp
  have "\<forall>e \<in> set (m_aInterfaces (m_pInterfaces example_service)). m_nOutstandingCount e = 0"
    by (simp add: example_service_def service_start_def EInterfaces_init_def EInterface_init_def
        numeral_eq_Suc)
  from outstanding_counts_in_flight [OF steps empty this s2'(1)] s2'(2) steps
  show ?thesis by auto
qed

end
