(* ===== verification/SendPath.thy ===== *)
theory SendPath
  imports Controller Accounting
begin

unbundle bit_operations_syntax

text \<open>
  The way of a packet out of the driver: tags, the building of packets, and load balancing over the
  interfaces of a target (\<open>AoE/AoEControllerInterface.cpp\<close>, \<open>AoE/AoEController.cpp\<close> and
  \<open>AoE/AoEService.cpp\<close>). The operations work on the sending controller and its provider.
\<close>

section \<open>Tags\<close>

definition next_tag :: "provider \<Rightarrow> u32 \<times> provider" where
  "next_tag p =
     (let t = m_nCurrentTag p + 1;
          t = max t MIN_TAG;
          t = min t MAX_TAG;
          t = (if t = MAX_TAG then MIN_TAG else t)
      in (t, p\<lparr>m_nCurrentTag := t\<rparr>))"

section \<open>Load balancing\<close>

text \<open>\<open>interface_active\<close>: an index outside the array is a trap.\<close>

definition interface_active :: "service \<Rightarrow> TargetInfo \<Rightarrow> nat \<Rightarrow> bool option" where
  "interface_active s t n =
     (if n < length (aInterfaces t)
      then Some (EInterfaces_is_used (m_pInterfaces s) (aInterfaces t ! n) = 1) else None)"

definition interfaces_active :: "service \<Rightarrow> TargetInfo \<Rightarrow> bool" where
  "interfaces_active s t \<longleftrightarrow>
     (\<exists>r \<in> set (interfaces_of t). EInterfaces_is_used (m_pInterfaces s) r = 1)"

text \<open>The \<open>do ... while\<close> loop of \<open>send_packet\<close>: it has no bound.\<close>

partial_function (option) balance :: "(nat \<Rightarrow> bool option) \<Rightarrow> nat \<Rightarrow> nat \<Rightarrow> nat option" where
  "balance act n lastSent =
     Option.bind (act ((lastSent + 1) mod n))
       (\<lambda>a. if a then Some ((lastSent + 1) mod n) else balance act n ((lastSent + 1) mod n))"

declare balance.simps [code]

definition send_packet :: "kernel \<Rightarrow> packet \<Rightarrow> u32 \<Rightarrow> TargetInfo \<Rightarrow> provider
    \<Rightarrow> (int \<times> TargetInfo \<times> provider) option" where
  "send_packet k m Tag t p =
     (if mbuf_prepend_err k \<noteq> 0 then Some (mbuf_prepend_err k, t, p)
      else
        let m = m\<lparr>ether_type := htons ETHERTYPE_AOE\<rparr> in
        if nNumberOfInterfaces t = 0 then Some (- 1, t, p)
        else do {
          n \<leftarrow> balance (interface_active (m_pAoEService p) t) (nNumberOfInterfaces t) (nLastSentInterface t);
          let t = t\<lparr>nLastSentInterface := n\<rparr>;
          let m = m\<lparr>ether_dhost := aaDestMACAddress t ! n\<rparr>;
          (result, s) \<leftarrow> send_packet_on_interface k (aInterfaces t ! n) Tag m (sint (nShelf t)) True
                         (m_pAoEService p);
          Some (result, t, p\<lparr>m_pAoEService := s\<rparr>) })"

definition send_aoe_packet :: "kernel \<Rightarrow> packet \<Rightarrow> u32 \<Rightarrow> controller \<times> provider
    \<Rightarrow> (int \<times> controller \<times> provider) option" where
  "send_aoe_packet k m Tag cp = do {
     let (c, p) = cp;
     (result, t, p) \<leftarrow> send_packet k m Tag (m_target c) p;
     Some (result, c\<lparr>m_target := t\<rparr>, p) }"

text \<open>Commands the protocol does not have are answered by a timer.\<close>

definition faked_command :: "u8 \<Rightarrow> bool" where
  "faked_command cmd \<longleftrightarrow> cmd = kATAcmdSetFeatures \<or> cmd = kATAcmdSleep \<or> cmd = kATAcmdFlushCache
     \<or> cmd = kATAcmdFlushCacheExtended"

definition send_ata_packet :: "kernel \<Rightarrow> ata_family \<Rightarrow> packet \<Rightarrow> u32 \<Rightarrow> controller \<times> provider
    \<Rightarrow> (int \<times> controller \<times> provider) option" where
  "send_ata_packet k af m Tag cp =
     (case pk_body m of CFG _ \<Rightarrow> None
      | ATA h \<Rightarrow>
        if faked_command (AOE_ATAHEADER_GETSTAT h)
        then let (c, p) = cp in
             if m_pFakeReturnTimer p = NULL_timer then None
             else Some (af_setTimeout af, c,
               p\<lparr>m_pControllerToFakeResponse := Some (ctl_id c), m_pFakeReturnTimer := Armed 0\<rparr>)
        else send_aoe_packet k m Tag cp)"

section \<open>Building packets\<close>

definition clear_aoe_header :: aoe_header where
  "clear_aoe_header = \<lparr>ah_verflagserr = 0, ah_major = 0, ah_minorcmd = 0, ah_tag0 = 0, ah_tag1 = 0\<rparr>"

definition clear_atahdr :: aoe_atahdr where
  "clear_atahdr = \<lparr>aa_aflags_errfeat = 0, aa_scnt_cmdstat = 0, aa_lba0_1 = 0, aa_lba2_3 = 0,
     aa_lba4_5 = 0, aa_reserved = 0\<rparr>"

definition clear_cfghdr :: aoe_cfghdr where
  "clear_cfghdr = \<lparr>ac_bufcnt = 0, ac_fwver = 0, ac_scnt_aoe_ccmd = 0, ac_cslen = 0\<rparr>"

definition aoe_header_to :: "u32 \<Rightarrow> u32 \<Rightarrow> u32 \<Rightarrow> u32 \<Rightarrow> aoe_header" where
  "aoe_header_to shelf slot cmd Tag =
     (AOE_HEADER_CLEAR clear_aoe_header)\<lparr>
        ah_verflagserr := AOE_HEADER_SETVERFLAGERR AOE_SUPPORTED_VER 0 0,
        ah_major := AOE_HEADER_SETMAJOR shelf,
        ah_minorcmd := AOE_HEADER_SETMINORCMD slot cmd,
        ah_tag0 := AOE_HEADER_SETTAG1 Tag, ah_tag1 := AOE_HEADER_SETTAG2 Tag\<rparr>"

text \<open>The ATA or configuration header is cleared by every caller; it is clear here already.\<close>

definition create_mbuf_for_transfer :: "kernel \<Rightarrow> u32 \<Rightarrow> bool \<Rightarrow> TargetInfo \<Rightarrow> packet option" where
  "create_mbuf_for_transfer k Tag fATA t =
     (if mbuf_gethdr_err k \<noteq> 0 then None
      else Some \<lparr>ether_dhost = 0, ether_shost = 0, ether_type = 0,
             pk_aoe = aoe_header_to (nShelf t) (nSlot t)
               (if fATA then AOE_ATA_COMMAND else AOE_CFG_COMMAND) Tag,
             pk_body = (if fATA then ATA clear_atahdr else CFG clear_cfghdr), pk_data = []\<rparr>)"

definition attach_ext_to_mbuf :: "kernel \<Rightarrow> u8 list \<Rightarrow> packet \<Rightarrow> int \<times> packet" where
  "attach_ext_to_mbuf k MBufExtData m =
     (if mbuf_attach_err k \<noteq> 0 then (- 1, m) else (0, m\<lparr>pk_data := pk_data m @ MBufExtData\<rparr>))"

text \<open>The identify command that the driver sends by itself.\<close>

definition send_identify :: "kernel \<Rightarrow> ata_family \<Rightarrow> controller \<times> provider
    \<Rightarrow> (int \<times> controller \<times> provider) option" where
  "send_identify k af cp =
     (let (c, p) = cp; (Tag, p) = next_tag p in
      case create_mbuf_for_transfer k Tag True (m_target c) of None \<Rightarrow> Some (- 1, c, p)
      | Some m \<Rightarrow> do {
          let m = m\<lparr>pk_body := ATA ((AOE_ATAHEADER_CLEAR clear_atahdr)\<lparr>
                      aa_scnt_cmdstat := AOE_ATAHEADER_SET2 0 (ucast kATAcmdDriveIdentify)\<rparr>)\<rparr>;
          let c = c\<lparr>m_nOutstandingIdentTag := 0\<rparr>;
          (result, c, p) \<leftarrow> send_ata_packet k af m Tag (c, p);
          let c = (if result = 0 then c\<lparr>m_nOutstandingIdentTag := Tag\<rparr> else c);
          Some (if m_nOutstandingIdentTag c = 0 then - 1 else 0, c, p) })"

text \<open>\<open>strncpy(dst, src, n)\<close>: pads with zeros, does not terminate, does not know the buffer sizes.\<close>

definition strncpy :: "u8 list \<Rightarrow> u8 list \<Rightarrow> nat \<Rightarrow> u8 list option" where
  "strncpy dst src n =
     (let s = takeWhile (\<lambda>x. x \<noteq> 0) (take n src) in
      if length dst < n \<or> (length src < n \<and> 0 \<notin> set src) then None
      else Some (s @ replicate (n - length s) 0 @ drop n dst))"

definition set_config_string :: "kernel \<Rightarrow> u8 list \<Rightarrow> int \<Rightarrow> controller \<times> provider
    \<Rightarrow> (int \<times> controller \<times> provider) option" where
  "set_config_string k pszString nLength cp =
     (let (c, p) = cp; nLength = s32 (nLength + 1); (Tag, p) = next_tag p in
      case create_mbuf_for_transfer k Tag False (m_target c) of None \<Rightarrow> Some (- 1, c, p)
      | Some m \<Rightarrow> do {
          let m = m\<lparr>pk_body := CFG ((AOE_CFGHEADER_CLEAR clear_cfghdr)\<lparr>
                     ac_scnt_aoe_ccmd := AOE_HEADER_SETSECTOR_CMD
                       (word_of_int (m_nMaxSectorsPerTransfer c)) CONFIG_STR_FORCE_SET,
                     ac_cslen := AOE_HEADER_SETCSTRLEN (word_of_int nLength)\<rparr>)\<rparr>;
          let n = unat (word_of_int nLength :: u32);
          s \<leftarrow> strncpy (m_aConfigString c) pszString n;
          let c = c\<lparr>m_aConfigString := s\<rparr>;
          let (_, m) = attach_ext_to_mbuf k (take n s) m;
          send_aoe_packet k m Tag (c, p) })"

text \<open>A packet forced out by the user interface: the headers come from the caller.\<close>

record ForcePacketInfo =
  fp_nShelf :: u32
  fp_nSlot :: u32
  fp_fATA :: u32
  fp_Tag :: u32
  fp_AoEhdr :: aoe_header
  fp_ATAhdr :: aoe_atahdr
  fp_CFGhdr :: aoe_cfghdr

definition controller_force_packet_send :: "kernel \<Rightarrow> ata_family \<Rightarrow> ForcePacketInfo \<Rightarrow> controller \<times> provider
    \<Rightarrow> (int \<times> controller \<times> provider) option" where
  "controller_force_packet_send k af f cp =
     (let (c, p) = cp in
      if mbuf_gethdr_err k \<noteq> 0 then Some (- 1, c, p)
      else
        let m = \<lparr>ether_dhost = 0, ether_shost = 0, ether_type = 0, pk_aoe = fp_AoEhdr f,
                 pk_body = (if fp_fATA f \<noteq> 0 then ATA (fp_ATAhdr f) else CFG (fp_CFGhdr f)), pk_data = []\<rparr>;
            Tag = AOE_HEADER_GETTAG (fp_AoEhdr f)
        in if fp_fATA f \<noteq> 0 then send_ata_packet k af m Tag (c, p)
           else send_aoe_packet k m Tag (c, p))"

text \<open>The search for targets on one interface; \<open>get_sector_count\<close> is 0 without an MTU.\<close>

definition get_sector_count :: "service \<Rightarrow> u32" where
  "get_sector_count s =
     (if m_Min_MTU (m_pInterfaces s) \<noteq> 0 then COUNT_SECTORS_FROM_MTU (m_Min_MTU (m_pInterfaces s)) else 0)"

definition aoe_search :: "kernel \<Rightarrow> ifnet \<Rightarrow> provider \<Rightarrow> (int \<times> provider) option" where
  "aoe_search k ifn p =
     (if mbuf_gethdr_err k \<noteq> 0 then Some (mbuf_gethdr_err k, p)
      else if mbuf_prepend_err k \<noteq> 0 then Some (mbuf_prepend_err k, p)
      else do {
        let (tag, p) = next_tag p;
        let Tag = TAG_BROADCAST_MASK OR tag;
        let m = \<lparr>ether_dhost = ifnet_broadcast k ifn, ether_shost = 0,
                 ether_type = htons ETHERTYPE_AOE,
                 pk_aoe = aoe_header_to SHELF_BROADCAST SLOT_BROADCAST AOE_CFG_COMMAND Tag,
                 pk_body = CFG ((AOE_CFGHEADER_CLEAR clear_cfghdr)\<lparr>
                   ac_scnt_aoe_ccmd := AOE_HEADER_SETSECTOR_CMD (get_sector_count (m_pAoEService p))
                     CONFIG_STR_GET\<rparr>), pk_data = []\<rparr>;
        (result, s) \<leftarrow> send_packet_on_interface k ifn Tag m (- 1) False (m_pAoEService p);
        Some (result, p\<lparr>m_pAoEService := s\<rparr>) })"

definition busCanDispatch :: "ata_family \<Rightarrow> controller \<times> provider \<Rightarrow> bool" where
  "busCanDispatch af cp \<longleftrightarrow>
     interfaces_active (m_pAoEService (snd cp)) (m_target (fst cp)) \<and> af_busCanDispatch af (fst cp)"

section \<open>Tags are unique\<close>

definition tag_ok :: "provider \<Rightarrow> bool" where
  "tag_ok p \<longleftrightarrow> 1 \<le> unat (m_nCurrentTag p) \<and> unat (m_nCurrentTag p) \<le> 1073741822"

lemma next_tag_unat:
  assumes "tag_ok p"
  shows "unat (fst (next_tag p)) = Suc (unat (m_nCurrentTag p) mod 1073741822)"
    "m_nCurrentTag (snd (next_tag p)) = fst (next_tag p)"
proof -
  let ?t = "m_nCurrentTag p"
  have suc: "unat (?t + 1) = Suc (unat ?t)"
    using assms unat_word_ariths(1) [of ?t 1] by (simp add: tag_ok_def)
  show "m_nCurrentTag (snd (next_tag p)) = fst (next_tag p)" by (simp add: next_tag_def Let_def)
  show "unat (fst (next_tag p)) = Suc (unat ?t mod 1073741822)"
  proof (cases "unat ?t = 1073741822")
    case True
    with suc have "?t + 1 = MAX_TAG" by (intro word_unat_eq_iff [THEN iffD2]) simp
    with True show ?thesis by (simp add: next_tag_def Let_def max_def min_def)
  next
    case False
    with assms suc have "?t + 1 < MAX_TAG" "MIN_TAG \<le> ?t + 1"
      by (simp_all add: word_less_nat_alt word_le_nat_alt tag_ok_def)
    with suc False assms show ?thesis
      by (auto simp: next_tag_def Let_def max_def min_def tag_ok_def)
  qed
qed

lemma tag_ok_next: "tag_ok p \<Longrightarrow> tag_ok (snd (next_tag p))"
  using next_tag_unat [of p] by (simp add: tag_ok_def Suc_le_eq)

lemma tag_after:
  "tag_ok p \<Longrightarrow> tag_ok (((\<lambda>p. snd (next_tag p)) ^^ j) p) \<and>
   unat (m_nCurrentTag (((\<lambda>p. snd (next_tag p)) ^^ j) p)) = Suc ((unat (m_nCurrentTag p) - 1 + j) mod 1073741822)"
proof (induction j)
  case 0
  then have "unat (m_nCurrentTag p) - 1 < 1073741822" "0 < unat (m_nCurrentTag p)"
    by (auto simp: tag_ok_def)
  with 0 show ?case by simp
next
  case (Suc j)
  let ?q = "((\<lambda>p. snd (next_tag p)) ^^ j) p"
  from Suc have q: "tag_ok ?q" by simp
  have "unat (m_nCurrentTag (snd (next_tag ?q))) = Suc (unat (m_nCurrentTag ?q) mod 1073741822)"
    using next_tag_unat [OF q] by simp
  with Suc tag_ok_next [OF q] show ?case by (simp add: mod_Suc_eq)
qed

lemma no_broadcast_bit:
  assumes "unat (w :: u32) < 1073741824"
  shows "w AND TAG_BROADCAST_MASK = 0"
proof (rule bit_word_eqI)
  fix n :: nat
  have "w = take_bit 30 w"
    using assms by (intro word_unat_eq_iff [THEN iffD2])
      (simp add: unsigned_take_bit_eq take_bit_nat_eq_self)
  then have "\<not> bit w 30" by (metis bit_take_bit_iff less_irrefl)
  moreover have mask: "(TAG_BROADCAST_MASK :: u32) = push_bit 30 1" by simp
  ultimately show "bit (w AND TAG_BROADCAST_MASK) n = bit (0 :: u32) n"
    unfolding bit_and_iff mask bit_push_bit_iff bit_1_iff by (cases "n = 30") auto
qed

text \<open>The tag of a search has the broadcast mark, which no other tag has.\<close>

lemma marked_tags:
  fixes a b :: u32
  assumes "a AND TAG_BROADCAST_MASK = 0" "b AND TAG_BROADCAST_MASK = 0" "a \<noteq> b"
  shows "TAG_BROADCAST_MASK OR a \<noteq> TAG_BROADCAST_MASK OR b" "TAG_BROADCAST_MASK OR a \<noteq> b" "a \<noteq> TAG_BROADCAST_MASK OR b"
proof -
  have plus: "TAG_BROADCAST_MASK OR x = TAG_BROADCAST_MASK + x" if "x AND TAG_BROADCAST_MASK = 0" for x :: u32
    using that by (simp add: disjunctive_add_eq_or and.commute)
  have mark: "(TAG_BROADCAST_MASK OR x) AND TAG_BROADCAST_MASK = TAG_BROADCAST_MASK" for x :: u32
    by (simp add: bit_eq_iff bit_and_iff bit_or_iff)
  show "TAG_BROADCAST_MASK OR a \<noteq> TAG_BROADCAST_MASK OR b" using assms by (simp add: plus)
  show "TAG_BROADCAST_MASK OR a \<noteq> b" using mark [of a] assms(2) by auto
  show "a \<noteq> TAG_BROADCAST_MASK OR b" using mark [of b] assms(1) by auto
qed

text \<open>C13: the tags given out do not repeat for as long as they can: from a tag in range, any two of 2^30 - 2 successive tags are
  different, also when either or both get the broadcast mark of a search, and the next tag is in range again,
  is not the tag 0 of an announcement and has no broadcast mark.\<close>

theorem tags_distinct:
  assumes "tag_ok p" "i < j" "j < i + 1073741822"
  shows "(let a = m_nCurrentTag (((\<lambda>p. snd (next_tag p)) ^^ i) p); b = m_nCurrentTag (((\<lambda>p. snd (next_tag p)) ^^ j) p) in
      a \<noteq> b \<and> TAG_BROADCAST_MASK OR a \<noteq> TAG_BROADCAST_MASK OR b \<and> TAG_BROADCAST_MASK OR a \<noteq> b \<and> a \<noteq> TAG_BROADCAST_MASK OR b) \<and>
    fst (next_tag p) \<noteq> DEVICE_ONLINE_TAG \<and> fst (next_tag p) AND TAG_BROADCAST_MASK = 0 \<and>
    tag_ok (snd (next_tag p))"
proof (intro conjI)
  let ?a = "unat (m_nCurrentTag p) - 1"
  have "(?a + i) mod 1073741822 \<noteq> (?a + j) mod 1073741822"
  proof
    assume "(?a + i) mod 1073741822 = (?a + j) mod 1073741822"
    then have "1073741822 dvd (?a + j) - (?a + i)"
      using assms(2) by (subst (asm) eq_commute) (simp add: mod_eq_dvd_iff_nat)
    then have "1073741822 dvd j - i" by simp
    then show False using assms(2,3) by (auto dest: dvd_imp_le)
  qed
  then have "m_nCurrentTag (((\<lambda>p. snd (next_tag p)) ^^ i) p) \<noteq> m_nCurrentTag (((\<lambda>p. snd (next_tag p)) ^^ j) p)"
    using tag_after [OF assms(1), of i] tag_after [OF assms(1), of j] by (metis nat.inject)
  moreover have "m_nCurrentTag (((\<lambda>p. snd (next_tag p)) ^^ l) p) AND TAG_BROADCAST_MASK = 0" for l
    using tag_after [OF assms(1), of l] by (intro no_broadcast_bit) (simp add: tag_ok_def)
  ultimately show "let a = m_nCurrentTag (((\<lambda>p. snd (next_tag p)) ^^ i) p); b = m_nCurrentTag (((\<lambda>p. snd (next_tag p)) ^^ j) p) in
      a \<noteq> b \<and> TAG_BROADCAST_MASK OR a \<noteq> TAG_BROADCAST_MASK OR b \<and> TAG_BROADCAST_MASK OR a \<noteq> b \<and> a \<noteq> TAG_BROADCAST_MASK OR b"
    unfolding Let_def using marked_tags by blast
  show ok: "tag_ok (snd (next_tag p))" using assms(1) by (rule tag_ok_next)
  then have "unat (fst (next_tag p)) \<noteq> 0" "unat (fst (next_tag p)) < 1073741824"
    using next_tag_unat [OF assms(1)] by (auto simp: tag_ok_def)
  then show "fst (next_tag p) \<noteq> DEVICE_ONLINE_TAG" "fst (next_tag p) AND TAG_BROADCAST_MASK = 0"
    by (auto simp: no_broadcast_bit)
qed

text \<open>A provider to evaluate the model on.\<close>

definition example_provider :: provider where
  "example_provider = \<lparr>m_nCurrentTag = MIN_TAG, ci_nMaxTransferSize = DEFAULT_MAX_TRANSFER_SIZE,
     m_fLUNSearchRunning = True, m_TimeUntilTargetOffline_us = 60000000,
     m_pControllerToFakeResponse = None, m_pStateUpdateTimer = Stopped, m_pFakeReturnTimer = Stopped,
     m_pAoEService = example_service, removed_targets = []\<rparr>"

lemma tags_distinct_witness:
  "m_nCurrentTag example_provider \<noteq> m_nCurrentTag (((\<lambda>p. snd (next_tag p)) ^^ 1000000) example_provider)"
  using tags_distinct [of example_provider 0 1000000]
  by (simp add: example_provider_def tag_ok_def Let_def)

section \<open>Load balancing\<close>

lemma balance_finds:
  assumes "\<And>e. e < d \<Longrightarrow> act ((l + 1 + e) mod n) = Some False" "act ((l + 1 + d) mod n) = Some True"
  shows "balance act n l = Some ((l + 1 + d) mod n)"
  using assms
proof (induction d arbitrary: l)
  case 0
  then show ?case by (simp add: balance.simps [of act n l])
next
  case (Suc d)
  let ?i = "(l + 1) mod n"
  have shift: "(?i + 1 + e) mod n = (l + 1 + Suc e) mod n" for e
    by (metis (no_types, opaque_lifting) add.assoc add_Suc_right add_Suc_shift mod_add_left_eq
        plus_1_eq_Suc add.commute)
  have "balance act n ?i = Some ((?i + 1 + d) mod n)"
  proof (rule Suc.IH)
    show "act ((?i + 1 + e) mod n) = Some False" if "e < d" for e
      unfolding shift using Suc.prems(1) [of "Suc e"] that by simp
    show "act ((?i + 1 + d) mod n) = Some True"
      unfolding shift by (rule Suc.prems(2))
  qed
  moreover have "act ?i = Some False" using Suc.prems(1) [of 0] by simp
  ultimately show ?case
    unfolding shift by (subst balance.simps) simp
qed

lemma balance_active:
  assumes "balance act n l = Some r"
  shows "0 < n \<longrightarrow> r < n \<and> act r = Some True"
  by (rule balance.raw_induct [OF _ assms]) (auto split: bind_splits if_splits)

text \<open>The loop in terms of the interfaces: it returns iff one of them is active.\<close>

lemma balance_next:
  assumes "\<And>i. i < n \<Longrightarrow> act i = Some (A i)" "\<exists>i < n. A i"
  shows "\<exists>d. balance act n l = Some ((l + 1 + d) mod n) \<and> A ((l + 1 + d) mod n) \<and>
    (\<forall>e < d. \<not> A ((l + 1 + e) mod n))"
proof -
  from assms(2) obtain i where i: "i < n" "A i" by blast
  let ?P = "\<lambda>d. A ((l + 1 + d) mod n)"
  have "(l + 1 + (i + n - (l + 1) mod n)) mod n = i"
  proof -
    have "(l + 1) mod n < n" using i(1) by simp
    moreover have "l + 1 = n * ((l + 1) div n) + (l + 1) mod n" by simp
    ultimately have "l + 1 + (i + n - (l + 1) mod n) = i + n + n * ((l + 1) div n)" by linarith
    also have "\<dots> mod n = i" using i(1) by simp
    finally show ?thesis .
  qed
  with i have "?P (i + n - (l + 1) mod n)" by simp
  then have least: "?P (LEAST d. ?P d)" "\<forall>e < (LEAST d. ?P d). \<not> ?P e"
    by (rule LeastI) (auto dest: not_less_Least)
  moreover have "balance act n l = Some ((l + 1 + (LEAST d. ?P d)) mod n)"
    using least i(1) assms(1) by (intro balance_finds) auto
  ultimately show ?thesis by blast
qed

lemma balance_None:
  assumes "\<And>i. i < n \<Longrightarrow> act i = Some False" "0 < n"
  shows "balance act n l = None"
  using balance_active [of act n l] assms by (cases "balance act n l") auto

lemma interface_active_in_range:
  assumes "target_ok t" "i < nNumberOfInterfaces t"
  shows "interface_active s t i = Some (EInterfaces_is_used (m_pInterfaces s) (aInterfaces t ! i) = 1)"
  using assms by (simp add: interface_active_def target_ok_def)

lemma interfaces_active_iff:
  assumes "target_ok t"
  shows "interfaces_active s t \<longleftrightarrow>
    (\<exists>i < nNumberOfInterfaces t. EInterfaces_is_used (m_pInterfaces s) (aInterfaces t ! i) = 1)"
proof -
  have "set (interfaces_of t) = (\<lambda>i. aInterfaces t ! i) ` {0..<nNumberOfInterfaces t}"
    using assms nth_image [of "nNumberOfInterfaces t" "aInterfaces t"]
    by (simp add: interfaces_of_def target_ok_def)
  then show ?thesis by (auto simp: interfaces_active_def)
qed

lemma send_on_used_interface:
  assumes "EInterfaces_is_used (m_pInterfaces s) r = 1" "ifnet_lladdr_err k r = 0"
    "IOMalloc_sent_ok k" "IOMalloc_to_send_ok k"
  shows "\<exists>s' item. send_packet_on_interface k r Tag m sh f s = Some (0, s') \<and>
    m_to_send_queue s' = m_to_send_queue s @ [item] \<and> ts_if_sent item = r \<and> ts_Tag item = Tag \<and>
    ether_dhost (ts_mbuf item) = ether_dhost m \<and> pk_aoe (ts_mbuf item) = pk_aoe m \<and>
    pk_body (ts_mbuf item) = pk_body m \<and> pk_data (ts_mbuf item) = pk_data m \<and>
    m_pInterfaces s' = m_pInterfaces s"
  using assms
  by (auto simp: send_packet_on_interface_def Let_def add_to_send_queue_def enable_transmit_timer_def)

text \<open>What the send path needs of the kernel, and what a packet handed to it becomes.\<close>

definition kernel_ok :: "kernel \<Rightarrow> bool" where
  "kernel_ok k \<longleftrightarrow> mbuf_gethdr_err k = 0 \<and> mbuf_prepend_err k = 0 \<and> mbuf_attach_err k = 0 \<and>
     IOMalloc_sent_ok k \<and> IOMalloc_to_send_ok k \<and> (\<forall>i. ifnet_lladdr_err k i = 0)"

lemma kernel_ok_example [simp]: "kernel_ok example_kernel"
  by (simp add: kernel_ok_def example_kernel_def)

lemma interfaces_active_positive: "interfaces_active s t \<Longrightarrow> nNumberOfInterfaces t \<noteq> 0"
  by (cases "nNumberOfInterfaces t = 0") (auto simp: interfaces_active_def interfaces_of_def)

lemma interfaces_active_cong:
  "m_pInterfaces s' = m_pInterfaces s \<Longrightarrow> interfaces_active s' (t\<lparr>nLastSentInterface := i\<rparr>) = interfaces_active s t"
  by (simp add: interfaces_active_def interfaces_of_def)

lemma send_packet_queues:
  assumes "kernel_ok k" "target_ok t" "interfaces_active (m_pAoEService p) t"
  shows "\<exists>i s item. send_packet k m Tag t p =
        Some (0, t\<lparr>nLastSentInterface := i\<rparr>, p\<lparr>m_pAoEService := s\<rparr>) \<and>
      m_to_send_queue s = m_to_send_queue (m_pAoEService p) @ [item] \<and> ts_Tag item = Tag \<and>
      pk_aoe (ts_mbuf item) = pk_aoe m \<and> pk_body (ts_mbuf item) = pk_body m \<and>
      pk_data (ts_mbuf item) = pk_data m \<and> m_pInterfaces s = m_pInterfaces (m_pAoEService p)"
proof -
  let ?used = "\<lambda>i. EInterfaces_is_used (m_pInterfaces (m_pAoEService p)) (aInterfaces t ! i) = 1"
  have "\<exists>i < nNumberOfInterfaces t. ?used i" using interfaces_active_iff [OF assms(2)] assms(3) by simp
  then obtain i where bal: "balance (interface_active (m_pAoEService p) t) (nNumberOfInterfaces t)
      (nLastSentInterface t) = Some i" and used: "?used i"
    using balance_next [of "nNumberOfInterfaces t" "interface_active (m_pAoEService p) t" ?used]
      interface_active_in_range [OF assms(2)] by blast
  have k: "ifnet_lladdr_err k (aInterfaces t ! i) = 0" "IOMalloc_sent_ok k" "IOMalloc_to_send_ok k"
      "mbuf_prepend_err k = 0" using assms(1) by (auto simp: kernel_ok_def)
  from send_on_used_interface [OF used k(1-3),
      of Tag "m\<lparr>ether_type := htons ETHERTYPE_AOE, ether_dhost := aaDestMACAddress t ! i\<rparr>" "sint (nShelf t)" True]
  obtain s item where s: "send_packet_on_interface k (aInterfaces t ! i) Tag
        (m\<lparr>ether_type := htons ETHERTYPE_AOE, ether_dhost := aaDestMACAddress t ! i\<rparr>)
        (sint (nShelf t)) True (m_pAoEService p) = Some (0, s)"
      "m_to_send_queue s = m_to_send_queue (m_pAoEService p) @ [item]" "ts_Tag item = Tag"
      "pk_aoe (ts_mbuf item) = pk_aoe m" "pk_body (ts_mbuf item) = pk_body m"
      "pk_data (ts_mbuf item) = pk_data m" "m_pInterfaces s = m_pInterfaces (m_pAoEService p)"
    by auto
  have "send_packet k m Tag t p = Some (0, t\<lparr>nLastSentInterface := i\<rparr>, p\<lparr>m_pAoEService := s\<rparr>)"
    using bal k(4) s(1) interfaces_active_positive [OF assms(3)] by (simp add: send_packet_def Let_def)
  with s(2-) show ?thesis by blast
qed

text \<open>C30: load balancing: with several interfaces, the packet goes out on the next one after the last
  used that is enabled, to the target's hardware address there. With none enabled the loop that
  looks for one never ends.\<close>

theorem send_packet_balances:
  assumes "target_ok t" "nNumberOfInterfaces t = n" "0 < n" "nLastSentInterface t = l"
    "mbuf_prepend_err k = 0" "IOMalloc_sent_ok k" "IOMalloc_to_send_ok k" "\<And>i. ifnet_lladdr_err k i = 0"
    "used = (\<lambda>i. EInterfaces_is_used (m_pInterfaces (m_pAoEService p)) (aInterfaces t ! i) = 1)"
  shows "(send_packet k m Tag t p = None \<longleftrightarrow> \<not> interfaces_active (m_pAoEService p) t) \<and>
    (\<forall>r t' p'. send_packet k m Tag t p = Some (r, t', p') \<longrightarrow>
      (\<exists>d i. i = (l + 1 + d) mod n \<and> used i \<and> (\<forall>e < d. \<not> used ((l + 1 + e) mod n)) \<and>
        nLastSentInterface t' = i \<and> r = 0 \<and>
        (\<exists>item. m_to_send_queue (m_pAoEService p') = m_to_send_queue (m_pAoEService p) @ [item] \<and>
          ts_if_sent item = aInterfaces t ! i \<and> ts_Tag item = Tag \<and>
          ether_dhost (ts_mbuf item) = aaDestMACAddress t ! i)))"
proof (cases "interfaces_active (m_pAoEService p) t")
  case True
  then have "\<exists>i < n. used i" using interfaces_active_iff [OF assms(1)] assms(2,9) by simp
  then obtain d where d: "balance (interface_active (m_pAoEService p) t) n l = Some ((l + 1 + d) mod n)"
      "used ((l + 1 + d) mod n)" "\<forall>e < d. \<not> used ((l + 1 + e) mod n)"
    using balance_next [of n "interface_active (m_pAoEService p) t" used l]
      interface_active_in_range [OF assms(1)] assms(2,9) by auto
  let ?i = "(l + 1 + d) mod n"
  have "EInterfaces_is_used (m_pInterfaces (m_pAoEService p)) (aInterfaces t ! ?i) = 1"
    using d(2) assms(9) by simp
  from send_on_used_interface [OF this assms(8,6,7),
      of Tag "m\<lparr>ether_type := htons ETHERTYPE_AOE, ether_dhost := aaDestMACAddress t ! ?i\<rparr>" "sint (nShelf t)" True]
  obtain s' item where s': "send_packet_on_interface k (aInterfaces t ! ?i) Tag
        (m\<lparr>ether_type := htons ETHERTYPE_AOE, ether_dhost := aaDestMACAddress t ! ?i\<rparr>)
        (sint (nShelf t)) True (m_pAoEService p) = Some (0, s')"
      "m_to_send_queue s' = m_to_send_queue (m_pAoEService p) @ [item]" "ts_if_sent item = aInterfaces t ! ?i"
      "ts_Tag item = Tag" "ether_dhost (ts_mbuf item) = aaDestMACAddress t ! ?i" by auto
  have "send_packet k m Tag t p =
      Some (0, t\<lparr>nLastSentInterface := ?i\<rparr>, p\<lparr>m_pAoEService := s'\<rparr>)"
    using assms(2-5) d(1) s'(1) by (simp add: send_packet_def Let_def)
  with True d(2,3) s'(2-) show ?thesis
    by (simp del: One_nat_def) (rule exI [of _ d], simp)
next
  case False
  then have "\<forall>i < n. \<not> used i" using interfaces_active_iff [OF assms(1)] assms(2,9) by simp
  then have "balance (interface_active (m_pAoEService p) t) n l = None"
    using interface_active_in_range [OF assms(1)] assms(2,3,9) by (intro balance_None) auto
  with False assms(2-5) show ?thesis by (simp add: send_packet_def)
qed

text \<open>A target reached through interfaces 2 (enabled in the example service), 3 and 4 (not enabled).\<close>

definition example_target3 :: TargetInfo where
  "example_target3 = (target_init example_kernel 0 1 2 17 1)\<lparr>nNumberOfInterfaces := 3,
     aInterfaces := [2, 3, 4, 0, 0, 0], aaDestMACAddress := [17, 18, 19, 0, 0, 0]\<rparr>"

lemma send_packet_balances_witness:
  "\<exists>t' p'. send_packet example_kernel example_packet 7 example_target3 example_provider = Some (0, t', p') \<and>
     nLastSentInterface t' = 0"
proof -
  have used: "EInterfaces_is_used (m_pInterfaces (m_pAoEService example_provider)) 2 = 1"
    "EInterfaces_is_used (m_pInterfaces (m_pAoEService example_provider)) 3 \<noteq> 1"
    "EInterfaces_is_used (m_pInterfaces (m_pAoEService example_provider)) 4 \<noteq> 1"
    by code_simp+
  have t: "target_ok example_target3" "nNumberOfInterfaces example_target3 = 3"
      "nLastSentInterface example_target3 = 0" "aInterfaces example_target3 = [2, 3, 4, 0, 0, 0]"
    by (simp_all add: target_ok_def example_target3_def target_init_def)
  have k: "mbuf_prepend_err example_kernel = 0" "IOMalloc_sent_ok example_kernel"
      "IOMalloc_to_send_ok example_kernel" "\<And>i. ifnet_lladdr_err example_kernel i = 0"
    by (simp_all add: example_kernel_def)
  have act: "interfaces_active (m_pAoEService example_provider) example_target3"
    using used t by (simp add: interfaces_active_def interfaces_of_def numeral_eq_Suc)
  note balances = send_packet_balances [where p = example_provider and m = example_packet and Tag = 7,
      OF t(1,2) _ t(3) k refl, simplified]
  from balances act obtain r t' p' where run:
      "send_packet example_kernel example_packet 7 example_target3 example_provider = Some (r, t', p')"
    by auto
  with balances obtain d where d: "nLastSentInterface t' = Suc d mod 3" "r = 0"
      "EInterfaces_is_used (m_pInterfaces (m_pAoEService example_provider))
        (aInterfaces example_target3 ! (Suc d mod 3)) = 1"
    by auto
  have "Suc d mod 3 < 3" by simp
  then have "Suc d mod 3 = 0 \<or> Suc d mod 3 = 1 \<or> Suc d mod 3 = 2" by linarith
  with d(3) used(2,3) t(4) have "Suc d mod 3 = 0" by auto
  with run d show ?thesis by auto
qed

end
