(* ===== verification/Commands.thy ===== *)
theory Commands
  imports SendPath
begin

unbundle bit_operations_syntax

text \<open>
  ATA commands on their way out (\<open>AoE/AoEController.cpp\<close>): \<open>issueCommand\<close> turns the registers of the
  current command into one packet, \<open>asyncCommand\<close> splits a transfer into as many packets as the MTU
  requires. Byte counts have 32 bits and wrap.
\<close>

section \<open>Registers\<close>

text \<open>\<open>getCommand\<close> and \<open>setCommand\<close> of \<open>IOExtendedLBA\<close>.\<close>

definition ext_getCommand :: "ata_family \<Rightarrow> ata_command \<Rightarrow> u8" where
  "ext_getCommand af x = (if af_shared_command af then ataTFCommand (cmd_tf x) else ext_Command (cmd_ext x))"

definition ext_setCommand :: "ata_family \<Rightarrow> u8 \<Rightarrow> ata_command \<Rightarrow> ata_command" where
  "ext_setCommand af v x =
     (if af_shared_command af then x\<lparr>cmd_tf := (cmd_tf x)\<lparr>ataTFCommand := v\<rparr>\<rparr>
      else x\<lparr>cmd_ext := (cmd_ext x)\<lparr>ext_Command := v\<rparr>\<rparr>)"

definition is_extended_command :: "ata_command \<Rightarrow> bool" where
  "is_extended_command x \<longleftrightarrow> mATAFlag48BitLBA x \<or>
     (cmd_tf_ok x \<and> (ataTFCommand (cmd_tf x) = kATAcmdWriteExtended
                     \<or> ataTFCommand (cmd_tf x) = kATAcmdReadExtended))"

record registers =
  rg_AFlags :: u8
  rg_Feature :: u8
  rg_Sector_Count :: u8
  rg_Command :: u8
  rg_lba :: "u8 list"

definition ext_registers :: "ata_family \<Rightarrow> ata_command \<Rightarrow> registers" where
  "ext_registers af x =
     (let e = cmd_ext x;
          hi = (\<lambda>w :: u16. ucast (drop_bit 8 (w AND 0xFF00))); lo = (\<lambda>w :: u16. ucast (w AND 0x00FF))
      in \<lparr>rg_AFlags = ucast AOE_AFLAGS_E, rg_Feature = ucast (Features16 e AND 0xFF),
          rg_Sector_Count = ucast (SectorCount16 e AND 0xFF), rg_Command = ext_getCommand af x,
          rg_lba = [lo (LBALow16 e), lo (LBAMid16 e), lo (LBAHigh16 e),
                    hi (LBALow16 e), hi (LBAMid16 e), hi (LBAHigh16 e)]\<rparr>)"

definition tf_registers :: "ata_command \<Rightarrow> registers" where
  "tf_registers x =
     (let t = cmd_tf x
      in \<lparr>rg_AFlags = 0, rg_Feature = ataTFFeatures t, rg_Sector_Count = ataTFCount t,
          rg_Command = ataTFCommand t,
          rg_lba = [ataTFSector t, ataTFCylLo t, ataTFCylHigh t, ataTFSDH t, 0, 0]\<rparr>)"

definition registers_header :: "registers \<Rightarrow> aoe_atahdr" where
  "registers_header r =
     (let b = (\<lambda>n. ucast (rg_lba r ! n)) in
      (AOE_ATAHEADER_CLEAR clear_atahdr)\<lparr>
        aa_aflags_errfeat := AOE_ATAHEADER_SET2 (ucast (rg_AFlags r)) (ucast (rg_Feature r)),
        aa_scnt_cmdstat := AOE_ATAHEADER_SET2 (ucast (rg_Sector_Count r)) (ucast (rg_Command r)),
        aa_lba0_1 := AOE_ATAHEADER_SET2 (b 0) (b 1), aa_lba2_3 := AOE_ATAHEADER_SET2 (b 2) (b 3),
        aa_lba4_5 := AOE_ATAHEADER_SET2 (b 4) (b 5)\<rparr>)"

section \<open>Write data\<close>

text \<open>
  The loop of \<open>append_write_data\<close>: bytes of this pass still to go, position, bytes counted as transferred;
  the result is the position and the size of the last piece and the new count. It does not end when
  the double buffer has size 0.
\<close>

function write_passes :: "nat \<Rightarrow> nat \<Rightarrow> nat \<Rightarrow> nat \<Rightarrow> nat \<times> nat \<Rightarrow> (nat \<times> (nat \<times> nat)) option" where
  "write_passes bufferSize thisPass xfrPosition actual piece =
     (if thisPass = 0 then Some (actual, piece)
      else if bufferSize = 0 then None
      else let bufferBytes = (if thisPass > bufferSize then bufferSize else thisPass)
           in write_passes bufferSize (thisPass - bufferBytes) (xfrPosition + bufferBytes)
                (actual + bufferBytes) (xfrPosition, bufferBytes))"
  by auto

termination by (relation "measure (\<lambda>(_, thisPass, _). thisPass)") (auto simp: Let_def)

declare write_passes.simps [simp del]

text \<open>Only the last piece of the pass is attached to the packet.\<close>

definition append_write_data :: "kernel \<Rightarrow> packet \<Rightarrow> controller \<Rightarrow> (int \<times> packet \<times> controller) option" where
  "append_write_data k m c = (case currentCommand c of None \<Rightarrow> Some (- 1, m, c)
   | Some x \<Rightarrow>
     let bytesRemaining = cmd_byteCount x - cmd_actualTransfer x in
     if bytesRemaining < 1 then Some (0, m, c)
     else do {
       let xfrPosition = cmd_position x + cmd_actualTransfer x;
       let thisPass = (if bytesRemaining > cmd_chunkSize x then cmd_chunkSize x else bytesRemaining);
       (actual, pos, size) \<leftarrow> write_passes (unat (doubleBuffer_size c)) (unat thisPass)
                                (unat xfrPosition) (unat (cmd_actualTransfer x)) (0, 0);
       let c = map_command (\<lambda>x. x\<lparr>cmd_actualTransfer := of_nat actual\<rparr>) c;
       (if length (doubleBuffer c) < pos + size then None
        else let (err, m) = attach_ext_to_mbuf k (take size (drop pos (doubleBuffer c))) m
             in Some (err, m, c)) })"

section \<open>Issuing one packet\<close>

text \<open>A command with a 48-bit address whose \<open>getExtendedLBA\<close> is null is a trap.\<close>

definition command_registers :: "ata_family \<Rightarrow> ata_command \<Rightarrow> (ioreturn + registers) option" where
  "command_registers af x =
     (if is_extended_command x
      then if cmd_ext_ok x then Some (Inr (ext_registers af x)) else None
      else if cmd_tf_ok x then Some (Inr (tf_registers x)) else Some (Inl kATAErrUnknownType))"

definition issueCommand :: "kernel \<Rightarrow> ata_family \<Rightarrow> controller \<times> provider
    \<Rightarrow> (ioreturn \<times> controller \<times> provider) option" where
  "issueCommand k af cp = (case currentCommand (fst cp) of None \<Rightarrow> Some (kATAUnknownOpcode, cp)
   | Some x \<Rightarrow>
     let (c, p) = cp; (Tag, p) = next_tag p in
     case create_mbuf_for_transfer k Tag True (m_target c) of None \<Rightarrow> Some (IOReturnCode (- 1), c, p)
     | Some m \<Rightarrow> do {
         let c = (if m_unReadBaseTag c = 0 then c\<lparr>m_unReadBaseTag := Tag\<rparr> else c);
         regs \<leftarrow> command_registers af x;
         (case regs of Inl err \<Rightarrow> Some (err, c, p)
          | Inr r \<Rightarrow> do {
              let r = (if mATAFlagIOWrite x then r\<lparr>rg_AFlags := rg_AFlags r OR ucast AOE_AFLAGS_W\<rparr> else r);
              let m = m\<lparr>pk_body := ATA (registers_header r)\<rparr>;
              (nRet, m, c) \<leftarrow> (if mATAFlagIOWrite x
                then map_option (\<lambda>(e, m, c). (if e = - 1 then kATAErrDevBusy else kATANoErr, m, c))
                       (append_write_data k m c)
                else Some (kATANoErr, m, c));
              (result, c, p) \<leftarrow> send_ata_packet k af m Tag (c, p);
              Some (if result = - 1 then kATAErrDevBusy else nRet, c, p) }) })"

section \<open>Splitting a transfer\<close>

text \<open>The part of \<open>asyncCommand\<close> before the packets: chunk size, and the write data brought into the
  double buffer without regard to its size.\<close>

definition async_prologue :: "ata_family \<Rightarrow> ata_command \<Rightarrow> controller \<Rightarrow> (ata_command \<times> controller) option" where
  "async_prologue af x c =
     (let nMaxTransferSize = s32 (m_nMaxSectorsPerTransfer c * kATADefaultSectorSize);
          x = x\<lparr>cmd_chunkSize := min (word_of_int nMaxTransferSize) (cmd_byteCount x)\<rparr>;
          c = c\<lparr>currentCommand := Some x, m_unReadBaseTag := 0\<rparr>
      in if mATAFlagIOWrite x then
           let copied = af_readBytes af 0 (cmd_byteCount x) (cmd_buffer x) in
           if length (doubleBuffer c) < length copied then None
           else Some (x, c\<lparr>doubleBuffer := copied @ drop (length copied) (doubleBuffer c),
                          m_PreviousWriteStatus := 0, m_PreviousWriteError := 0\<rparr>)
         else Some (x, c))"

text \<open>DMA commands become the corresponding commands of the protocol.\<close>

definition translate_dma :: "u8 \<Rightarrow> u8" where
  "translate_dma cmd =
     (if cmd = kATAcmdReadDMAExtended then kATAcmdReadExtended
      else if cmd = kATAcmdReadDMA then kATAcmdRead
      else if cmd = kATAcmdWriteDMAExtended then kATAcmdWriteExtended
      else if cmd = kATAcmdWriteDMA then kATAcmdWrite else cmd)"

definition block_command :: "u8 \<Rightarrow> bool" where
  "block_command cmd \<longleftrightarrow> cmd = kATAcmdReadExtended \<or> cmd = kATAcmdRead \<or> cmd = kATAcmdWrite
     \<or> cmd = kATAcmdWriteExtended"

text \<open>\<open>n\<close> rounds of: set the sector count, issue the command, advance the address.\<close>

fun issue_rounds :: "kernel \<Rightarrow> ata_family \<Rightarrow> (ata_command \<Rightarrow> ata_command) \<Rightarrow> (ata_command \<Rightarrow> ata_command)
    \<Rightarrow> nat \<Rightarrow> ioreturn \<times> controller \<times> provider \<Rightarrow> (ioreturn \<times> controller \<times> provider) option" where
  "issue_rounds k af set_count inc 0 r = Some r"
| "issue_rounds k af set_count inc (Suc n) (err, c, p) = do {
     (err, c, p) \<leftarrow> issueCommand k af (map_command set_count c, p);
     issue_rounds k af set_count inc n (err, map_command inc c, p) }"

text \<open>
  The block transfer, the same code for both address formats: \<open>count\<close> is the register the number of
  replies is computed from, \<open>set_count\<close> and \<open>inc\<close> write the sector count and advance the address.
  Fewer than 512 bytes per packet make it divide by zero.
\<close>

definition block_transfer :: "kernel \<Rightarrow> ata_family \<Rightarrow> int \<Rightarrow> (int \<Rightarrow> ata_command \<Rightarrow> ata_command)
    \<Rightarrow> (int \<Rightarrow> ata_command \<Rightarrow> ata_command) \<Rightarrow> ata_command \<Rightarrow> controller \<times> provider
    \<Rightarrow> (ioreturn \<times> controller \<times> provider) option" where
  "block_transfer k af count set_count inc x cp =
     (let nNum = uint (cmd_chunkSize x) div kATADefaultSectorSize; perPacket = kATADefaultSectorSize * nNum in
      if nNum = 0 then None
      else do {
        let (c, p) = cp;
        let c = c\<lparr>m_nReadWriteRepliesRequired := max 1 (count div nNum)\<rparr>;
        (err, c, p) \<leftarrow> issue_rounds k af (set_count nNum) (inc nNum)
                         (nat (uint (cmd_byteCount x) div perPacket)) (af_uninit_err af, c, p);
        let left = cmd_byteCount x - word_of_int (m_nReadWriteRepliesRequired c * perPacket);
        (if left \<noteq> 0 then
           let nNum = uint left div kATADefaultSectorSize in
           if nNum > 0
           then issue_rounds k af (set_count nNum) (inc nNum) 1
                  (err, c\<lparr>m_nReadWriteRepliesRequired := m_nReadWriteRepliesRequired c + 1\<rparr>, p)
           else Some (err, c, p)
         else Some (err, c, p)) })"

definition ext_count :: "int \<Rightarrow> ata_command \<Rightarrow> ata_command" where
  "ext_count n x = x\<lparr>cmd_ext := (cmd_ext x)\<lparr>SectorCount16 := word_of_int n\<rparr>\<rparr>"

definition ext_inc :: "int \<Rightarrow> ata_command \<Rightarrow> ata_command" where
  "ext_inc n x = x\<lparr>cmd_ext := increment_address_ext n (cmd_ext x)\<rparr>"

definition tf_count :: "int \<Rightarrow> ata_command \<Rightarrow> ata_command" where
  "tf_count n x = x\<lparr>cmd_tf := (cmd_tf x)\<lparr>ataTFCount := word_of_int n\<rparr>\<rparr>"

definition tf_inc :: "int \<Rightarrow> ata_command \<Rightarrow> ata_command" where
  "tf_inc n x = x\<lparr>cmd_tf := increment_address_tf n (cmd_tf x)\<rparr>"

definition async_ext :: "kernel \<Rightarrow> ata_family \<Rightarrow> ata_command \<Rightarrow> controller \<times> provider
    \<Rightarrow> (ioreturn \<times> controller \<times> provider) option" where
  "async_ext k af x cp =
     (if \<not> cmd_ext_ok x then issueCommand k af cp
      else
        let (c, p) = cp; cmd = translate_dma (ext_getCommand af x); x = ext_setCommand af cmd x;
            c = c\<lparr>currentCommand := Some x\<rparr>
        in if block_command cmd
           then block_transfer k af (uint (SectorCount16 (cmd_ext x))) ext_count ext_inc x (c, p)
           else issueCommand k af (c, p))"

text \<open>The 24-bit path computes the number of replies from the sector number register.\<close>

definition async_tf :: "kernel \<Rightarrow> ata_family \<Rightarrow> ata_command \<Rightarrow> controller \<times> provider
    \<Rightarrow> (ioreturn \<times> controller \<times> provider) option" where
  "async_tf k af x cp =
     (if \<not> cmd_tf_ok x then issueCommand k af cp
      else
        let (c, p) = cp; cmd = translate_dma (ataTFCommand (cmd_tf x));
            x = x\<lparr>cmd_tf := (cmd_tf x)\<lparr>ataTFCommand := cmd\<rparr>\<rparr>;
            c = c\<lparr>currentCommand := Some x\<rparr>
        in if block_command cmd
           then block_transfer k af (uint (ataTFSector (cmd_tf x))) tf_count tf_inc x (c, p)
           else issueCommand k af (c, p))"

definition async_epilogue :: "controller \<Rightarrow> controller" where
  "async_epilogue c = (case currentCommand c of None \<Rightarrow> c | Some x \<Rightarrow>
     if mATAFlagUseDMA x then set_state kATAStatus c
     else if mATAFlagIORead x then set_state kATADataTx c
     else set_state kATAStatus c)"

definition asyncCommand :: "kernel \<Rightarrow> ata_family \<Rightarrow> controller \<times> provider
    \<Rightarrow> (ioreturn \<times> controller \<times> provider) option" where
  "asyncCommand k af cp = (case currentCommand (fst cp) of None \<Rightarrow> Some (kATAErrUnknownType, cp)
   | Some x \<Rightarrow>
     if nNumberOfInterfaces (m_target (fst cp)) = 0 then Some (kATADeviceError, cp)
     else do {
       (x, c) \<leftarrow> async_prologue af x (fst cp);
       (err, c, p) \<leftarrow> (if is_extended_command x then async_ext k af x (c, snd cp)
                       else async_tf k af x (c, snd cp));
       Some (if err = kATANoErr then (err, async_epilogue c, p) else (err, c, p)) })"

section \<open>One packet\<close>

text \<open>The block address that the six bytes of a header stand for.\<close>

definition packet_lba :: "aoe_atahdr \<Rightarrow> int" where
  "packet_lba h = uint
     (push_bit 40 (ucast (AOE_ATAHEADER_GETLBA5 h)) OR push_bit 32 (ucast (AOE_ATAHEADER_GETLBA4 h)) OR
      push_bit 24 (ucast (AOE_ATAHEADER_GETLBA3 h)) OR push_bit 16 (ucast (AOE_ATAHEADER_GETLBA2 h)) OR
      push_bit 8 (ucast (AOE_ATAHEADER_GETLBA1 h)) OR push_bit 0 (ucast (AOE_ATAHEADER_GETLBA0 h)) :: u64)"

lemma ucast_u8_u32 [simp]: "ucast (ucast (x :: u8) :: u32) = x"
  by (rule bit_word_eqI) (simp add: bit_simps)

lemma registers_header_fields [simp]:
  "AOE_ATAHEADER_GETSCNT (registers_header r) = rg_Sector_Count r"
  "AOE_ATAHEADER_GETSTAT (registers_header r) = rg_Command r"
  "AOE_ATAHEADER_GETAFLAGS (registers_header r) = rg_AFlags r"
  "AOE_ATAHEADER_GETERR (registers_header r) = rg_Feature r"
  "AOE_ATAHEADER_GETLBA0 (registers_header r) = rg_lba r ! 0"
  "AOE_ATAHEADER_GETLBA1 (registers_header r) = rg_lba r ! 1"
  "AOE_ATAHEADER_GETLBA2 (registers_header r) = rg_lba r ! 2"
  "AOE_ATAHEADER_GETLBA3 (registers_header r) = rg_lba r ! 3"
  "AOE_ATAHEADER_GETLBA4 (registers_header r) = rg_lba r ! 4"
  "AOE_ATAHEADER_GETLBA5 (registers_header r) = rg_lba r ! 5"
  by (simp_all add: registers_header_def ata_getters Let_def)

lemma ucast_lo: "(ucast (ucast (w AND 0x00FF :: u16) :: u8) :: u64) = ucast (w AND 0x00FF)"
  by (rule bit_word_eqI) (auto simp: bit_simps mask_simps)

lemma ucast_hi: "(ucast (ucast (drop_bit 8 (w :: u16)) :: u8) :: u64) = ucast (drop_bit 8 w)"
  by (rule bit_word_eqI) (auto simp: bit_simps dest: bit_imp_le_length)

lemma ext_registers_lba:
  "rg_lba (ext_registers af x) ! 0 = ucast (LBALow16 (cmd_ext x) AND 0x00FF)"
  "rg_lba (ext_registers af x) ! 1 = ucast (LBAMid16 (cmd_ext x) AND 0x00FF)"
  "rg_lba (ext_registers af x) ! 2 = ucast (LBAHigh16 (cmd_ext x) AND 0x00FF)"
  "rg_lba (ext_registers af x) ! 3 = ucast (drop_bit 8 (LBALow16 (cmd_ext x)))"
  "rg_lba (ext_registers af x) ! 4 = ucast (drop_bit 8 (LBAMid16 (cmd_ext x)))"
  "rg_lba (ext_registers af x) ! 5 = ucast (drop_bit 8 (LBAHigh16 (cmd_ext x)))"
  unfolding ext_registers_def Let_def drop_8_and_FF00 by simp_all

lemma packet_lba_ext:
  "rg_lba r = rg_lba (ext_registers af x) \<Longrightarrow> packet_lba (registers_header r) = ext_lba (cmd_ext x)"
  unfolding packet_lba_def registers_header_fields ext_lba_def ext_address_def drop_8_and_FF00
  by (simp only: ext_registers_lba ucast_lo ucast_hi)

text \<open>What a queued packet carries: tag, address, sector count, command and data.\<close>

definition carries :: "TargetInfo \<Rightarrow> u8 \<Rightarrow> nat \<Rightarrow> int \<Rightarrow> nat \<Rightarrow> u8 list \<Rightarrow> ToSendPkt \<Rightarrow> bool" where
  "carries t cmd tag lba count data i \<longleftrightarrow>
     unat (ts_Tag i) = tag \<and> pk_data (ts_mbuf i) = data \<and>
     pk_aoe (ts_mbuf i) = aoe_header_to (nShelf t) (nSlot t) AOE_ATA_COMMAND (ts_Tag i) \<and>
     (\<exists>h. pk_body (ts_mbuf i) = ATA h \<and> packet_lba h = lba \<and>
       unat (AOE_ATAHEADER_GETSCNT h) = count \<and> AOE_ATAHEADER_GETSTAT h = cmd)"

text \<open>One pass of write data fits the double buffer: it is sent whole.\<close>

lemma write_passes_one:
  "0 < n \<Longrightarrow> n \<le> b \<Longrightarrow> write_passes b n pos actual piece = Some (actual + n, pos, n)"
  by (subst write_passes.simps, subst write_passes.simps) (auto simp: Let_def)

definition write_room :: "ata_command \<Rightarrow> controller \<Rightarrow> bool" where
  "write_room x c \<longleftrightarrow> cmd_position x = 0 \<and> unat (cmd_actualTransfer x) < unat (cmd_byteCount x) \<and>
     unat (cmd_byteCount x) \<le> unat (doubleBuffer_size c) \<and>
     unat (cmd_byteCount x) \<le> length (doubleBuffer c) \<and> 0 < unat (cmd_chunkSize x)"

definition pass_size :: "ata_command \<Rightarrow> nat" where
  "pass_size x = min (unat (cmd_byteCount x) - unat (cmd_actualTransfer x)) (unat (cmd_chunkSize x))"

lemma append_write_data_ok:
  assumes "currentCommand c = Some x" "write_room x c" "kernel_ok k"
  shows "append_write_data k m c = Some (0,
    m\<lparr>pk_data := pk_data m @ take (pass_size x) (drop (unat (cmd_actualTransfer x)) (doubleBuffer c))\<rparr>,
    c\<lparr>currentCommand := Some (x\<lparr>cmd_actualTransfer := of_nat (unat (cmd_actualTransfer x) + pass_size x)\<rparr>)\<rparr>)"
proof -
  let ?rem = "cmd_byteCount x - cmd_actualTransfer x"
  have rem: "unat ?rem = unat (cmd_byteCount x) - unat (cmd_actualTransfer x)"
    using assms(2) by (simp add: write_room_def unat_sub word_le_nat_alt)
  then have pos: "\<not> ?rem < 1" using assms(2) by (simp add: write_room_def word_less_nat_alt)
  have pass: "unat (if ?rem > cmd_chunkSize x then cmd_chunkSize x else ?rem) = pass_size x"
    by (simp add: pass_size_def rem word_less_nat_alt)
  have "0 < pass_size x" "pass_size x \<le> unat (doubleBuffer_size c)"
      "unat (cmd_actualTransfer x) + pass_size x \<le> length (doubleBuffer c)"
    using assms(2) by (auto simp: pass_size_def write_room_def)
  with assms(1,2) pos pass show ?thesis
    using assms(3)
    by (simp add: append_write_data_def write_passes_one attach_ext_to_mbuf_def kernel_ok_def
        map_command_def write_room_def Let_def)
qed

definition sent_data :: "ata_command \<Rightarrow> controller \<Rightarrow> u8 list" where
  "sent_data x c = (if mATAFlagIOWrite x
     then take (pass_size x) (drop (unat (cmd_actualTransfer x)) (doubleBuffer c)) else [])"

definition count_sent :: "ata_command \<Rightarrow> ata_command" where
  "count_sent x = (if mATAFlagIOWrite x
     then x\<lparr>cmd_actualTransfer := of_nat (unat (cmd_actualTransfer x) + pass_size x)\<rparr> else x)"

text \<open>The controller after one packet.\<close>

definition after_packet :: "u32 \<Rightarrow> nat \<Rightarrow> ata_command \<Rightarrow> controller \<Rightarrow> controller" where
  "after_packet Tag i x c = c\<lparr>m_target := (m_target c)\<lparr>nLastSentInterface := i\<rparr>,
     m_unReadBaseTag := (if m_unReadBaseTag c = 0 then Tag else m_unReadBaseTag c),
     currentCommand := Some x\<rparr>"

lemma issue_packet:
  assumes k: "kernel_ok k" and t: "target_ok (m_target c)"
    and act: "interfaces_active (m_pAoEService p) (m_target c)"
    and x: "currentCommand c = Some x" and r: "command_registers af x = Some (Inr r)"
    and cmd: "\<not> faked_command (rg_Command r)" and w: "mATAFlagIOWrite x \<Longrightarrow> write_room x c"
  shows "\<exists>i p' item v. issueCommand k af (c, p) =
      Some (kATANoErr, after_packet (fst (next_tag p)) i (count_sent x) c, p') \<and>
    m_nCurrentTag p' = fst (next_tag p) \<and> m_pInterfaces (m_pAoEService p') = m_pInterfaces (m_pAoEService p) \<and>
    m_to_send_queue (m_pAoEService p') = m_to_send_queue (m_pAoEService p) @ [item] \<and>
    ts_Tag item = fst (next_tag p) \<and>
    pk_aoe (ts_mbuf item) =
      aoe_header_to (nShelf (m_target c)) (nSlot (m_target c)) AOE_ATA_COMMAND (fst (next_tag p)) \<and>
    pk_body (ts_mbuf item) = ATA (registers_header (r\<lparr>rg_AFlags := v\<rparr>)) \<and>
    pk_data (ts_mbuf item) = sent_data x c"
proof -
  obtain Tag p1 where tag: "next_tag p = (Tag, p1)" by (cases "next_tag p")
  then have p1: "m_pAoEService p1 = m_pAoEService p" "m_nCurrentTag p1 = Tag"
    by (auto simp: next_tag_def Let_def)
  let ?t = "m_target c"
  let ?v = "if mATAFlagIOWrite x then rg_AFlags r OR ucast AOE_AFLAGS_W else rg_AFlags r"
  define c1 where "c1 = (if m_unReadBaseTag c = 0 then c\<lparr>m_unReadBaseTag := Tag\<rparr> else c)"
  define m where "m = \<lparr>ether_dhost = 0, ether_shost = 0, ether_type = 0,
    pk_aoe = aoe_header_to (nShelf ?t) (nSlot ?t) AOE_ATA_COMMAND Tag,
    pk_body = ATA (registers_header (r\<lparr>rg_AFlags := ?v\<rparr>)), pk_data = sent_data x c\<rparr>"
  obtain i s item where sent: "send_packet k m Tag ?t p1 =
        Some (0, ?t\<lparr>nLastSentInterface := i\<rparr>, p1\<lparr>m_pAoEService := s\<rparr>)"
      "m_to_send_queue s = m_to_send_queue (m_pAoEService p) @ [item]" "ts_Tag item = Tag"
      "pk_aoe (ts_mbuf item) = pk_aoe m" "pk_body (ts_mbuf item) = pk_body m"
      "pk_data (ts_mbuf item) = pk_data m" "m_pInterfaces s = m_pInterfaces (m_pAoEService p)"
    using send_packet_queues [OF k t, where p = p1 and Tag = Tag and m = m] act p1 by auto
  define c2 where "c2 = c1\<lparr>currentCommand := Some (count_sent x)\<rparr>"
  have c1: "currentCommand c1 = Some x" "doubleBuffer c1 = doubleBuffer c" "m_target c1 = ?t"
      "m_target c2 = ?t" "mATAFlagIOWrite x \<Longrightarrow> write_room x c1"
    using x w by (simp_all add: c1_def c2_def write_room_def)
  have data: "mATAFlagIOWrite x \<Longrightarrow> append_write_data k (m\<lparr>pk_data := []\<rparr>) c1 = Some (0, m, c2)"
    using append_write_data_ok [OF c1(1,5) k] by (simp add: m_def sent_data_def c2_def c1(2) count_sent_def)
  have no_data: "\<not> mATAFlagIOWrite x \<Longrightarrow> c2 = c1 \<and> m\<lparr>pk_data := []\<rparr> = m"
    using c1(1) by (cases c1) (simp add: m_def sent_data_def c2_def count_sent_def)
  have body: "pk_body m = ATA (registers_header (r\<lparr>rg_AFlags := ?v\<rparr>))" by (simp add: m_def)
  have send: "send_ata_packet k af m Tag (c2, p1) =
      Some (0, c2\<lparr>m_target := ?t\<lparr>nLastSentInterface := i\<rparr>\<rparr>, p1\<lparr>m_pAoEService := s\<rparr>)"
    unfolding send_ata_packet_def send_aoe_packet_def body by (simp add: cmd c1(4) sent(1))
  have m0: "create_mbuf_for_transfer k Tag True ?t = Some (m\<lparr>pk_body := ATA clear_atahdr, pk_data := []\<rparr>)"
    "m\<lparr>pk_data := [], pk_body := ATA (registers_header (r\<lparr>rg_AFlags := ?v\<rparr>))\<rparr> = m\<lparr>pk_data := []\<rparr>"
    using k by (simp_all add: create_mbuf_for_transfer_def kernel_ok_def m_def)
  have r_v: "\<not> mATAFlagIOWrite x \<Longrightarrow> r\<lparr>rg_AFlags := rg_AFlags r\<rparr> = r" by simp
  have "issueCommand k af (c, p) =
      Some (kATANoErr, c2\<lparr>m_target := ?t\<lparr>nLastSentInterface := i\<rparr>\<rparr>, p1\<lparr>m_pAoEService := s\<rparr>)"
    using data no_data send m0 r x
    by (cases "mATAFlagIOWrite x") (simp_all add: issueCommand_def tag flip: c1_def)
  also have "c2\<lparr>m_target := ?t\<lparr>nLastSentInterface := i\<rparr>\<rparr> = after_packet Tag i (count_sent x) c"
    by (cases c) (simp add: after_packet_def c2_def c1_def)
  finally have "issueCommand k af (c, p) =
      Some (kATANoErr, after_packet Tag i (count_sent x) c, p1\<lparr>m_pAoEService := s\<rparr>)" .
  moreover have "pk_aoe m = aoe_header_to (nShelf ?t) (nSlot ?t) AOE_ATA_COMMAND Tag" "pk_data m = sent_data x c"
    by (simp_all add: m_def)
  ultimately show ?thesis
    using sent(2-) p1 tag body
    by (intro exI [of _ i] exI [of _ "p1\<lparr>m_pAoEService := s\<rparr>"] exI [of _ item] exI [of _ ?v]) (simp del: ucast_u8_u32)
qed

section \<open>The rounds of a transfer\<close>

text \<open>A command in the course of a transfer differs from the one at its start in its address, its
  sector count and the bytes transferred.\<close>

definition same_request :: "ata_command \<Rightarrow> ata_command \<Rightarrow> bool" where
  "same_request x x' \<longleftrightarrow>
     x' = x\<lparr>cmd_ext := cmd_ext x', cmd_actualTransfer := cmd_actualTransfer x'\<rparr> \<and>
     ext_Command (cmd_ext x') = ext_Command (cmd_ext x)"

lemma same_request_fields:
  assumes "same_request x x'"
  shows "mATAFlagIOWrite x' = mATAFlagIOWrite x" "cmd_byteCount x' = cmd_byteCount x"
    "cmd_chunkSize x' = cmd_chunkSize x" "cmd_position x' = cmd_position x" "cmd_ext_ok x' = cmd_ext_ok x"
    "is_extended_command x' = is_extended_command x" "ext_getCommand af x' = ext_getCommand af x"
proof -
  from assms obtain e a where x': "x' = x\<lparr>cmd_ext := e, cmd_actualTransfer := a\<rparr>"
      "ext_Command e = ext_Command (cmd_ext x)" unfolding same_request_def by metis
  then show "mATAFlagIOWrite x' = mATAFlagIOWrite x" "cmd_byteCount x' = cmd_byteCount x"
    "cmd_chunkSize x' = cmd_chunkSize x" "cmd_position x' = cmd_position x" "cmd_ext_ok x' = cmd_ext_ok x"
    "is_extended_command x' = is_extended_command x" "ext_getCommand af x' = ext_getCommand af x"
    by (simp_all add: is_extended_command_def ext_getCommand_def)
qed

lemma same_request_trans: "same_request x y \<Longrightarrow> same_request y z \<Longrightarrow> same_request x z"
  by (cases x, cases y, cases z) (simp add: same_request_def)

lemma same_request_steps:
  "same_request x (ext_inc n (count_sent (ext_count m x)))"
  by (cases x) (simp add: same_request_def ext_inc_def ext_count_def count_sent_def increment_address_ext_def
      ext_set_address_def Let_def)

lemma ext_lba_count [simp]: "ext_lba (e\<lparr>SectorCount16 := v\<rparr>) = ext_lba e"
  by (simp add: ext_lba_def ext_address_def)

definition transfer_frame :: "controller \<Rightarrow> controller \<Rightarrow> bool" where
  "transfer_frame c c' \<longleftrightarrow> (\<exists>i tag y. c' = c\<lparr>m_target := (m_target c)\<lparr>nLastSentInterface := i\<rparr>,
     m_unReadBaseTag := tag, currentCommand := y\<rparr>)"

lemma transfer_frame_refl: "transfer_frame c c"
  unfolding transfer_frame_def
  by (rule exI [of _ "nLastSentInterface (m_target c)"], rule exI [of _ "m_unReadBaseTag c"],
      rule exI [of _ "currentCommand c"]) simp

lemma transfer_frame_trans: "transfer_frame a b \<Longrightarrow> transfer_frame b c \<Longrightarrow> transfer_frame a c"
  unfolding transfer_frame_def by (cases a) fastforce

lemma transfer_frameD:
  assumes "transfer_frame c c'"
  shows "doubleBuffer c' = doubleBuffer c" "doubleBuffer_size c' = doubleBuffer_size c"
    "m_nReadWriteRepliesRequired c' = m_nReadWriteRepliesRequired c"
    "target_ok (m_target c') = target_ok (m_target c)" "nShelf (m_target c') = nShelf (m_target c)"
    "nSlot (m_target c') = nSlot (m_target c)" "carries (m_target c') = carries (m_target c)"
    "m_pInterfaces s' = m_pInterfaces s \<Longrightarrow> interfaces_active s' (m_target c') = interfaces_active s (m_target c)"
  using assms
  by (auto simp: transfer_frame_def target_ok_def interfaces_active_def interfaces_of_def carries_def
      intro!: ext)

text \<open>What the rounds rely on.\<close>

definition transfer_ready :: "kernel \<Rightarrow> ata_family \<Rightarrow> ata_command \<Rightarrow> controller \<Rightarrow> provider \<Rightarrow> bool" where
  "transfer_ready k af x c p \<longleftrightarrow> kernel_ok k \<and> target_ok (m_target c) \<and>
     interfaces_active (m_pAoEService p) (m_target c) \<and> currentCommand c = Some x \<and> cmd_ext_ok x \<and>
     is_extended_command x \<and> \<not> faked_command (ext_getCommand af x) \<and> tag_ok p"

lemma ext_count_fields [simp]:
  "pass_size (ext_count m x) = pass_size x" "write_room (ext_count m x) c = write_room x c"
  "mATAFlagIOWrite (ext_count m x) = mATAFlagIOWrite x" "cmd_actualTransfer (ext_count m x) = cmd_actualTransfer x"
  "sent_data (ext_count m x) c = sent_data x c" "cmd_ext_ok (ext_count m x) = cmd_ext_ok x"
  "is_extended_command (ext_count m x) = is_extended_command x"
  "ext_getCommand af (ext_count m x) = ext_getCommand af x" "cmd_position (ext_count m x) = cmd_position x"
  "cmd_byteCount (ext_count m x) = cmd_byteCount x" "cmd_chunkSize (ext_count m x) = cmd_chunkSize x"
  by (simp_all add: ext_count_def pass_size_def write_room_def sent_data_def is_extended_command_def
      ext_getCommand_def)

lemma ext_registers_count:
  assumes "m \<le> 255"
  shows "unat (rg_Sector_Count (ext_registers af (ext_count (int m) x))) = m"
proof -
  have "ucast ((word_of_int (int m) :: u16) AND 0xFF) = (of_nat m :: u8)"
    by (rule bit_word_eqI) (simp add: mask_simps bit_simps)
  with assms show ?thesis
    by (simp add: ext_registers_def ext_count_def Let_def unat_of_nat)
qed

lemma ext_round:
  assumes ready: "transfer_ready k af x c p" and m: "m \<le> 255"
    and w: "mATAFlagIOWrite x \<Longrightarrow> write_room x c"
  shows "\<exists>c' p' x' item.
    issue_rounds k af (ext_count (int m)) (ext_inc (int m)) (Suc n) (err, c, p) =
      issue_rounds k af (ext_count (int m)) (ext_inc (int m)) n (kATANoErr, c', p') \<and>
    transfer_frame c c' \<and> transfer_ready k af x' c' p' \<and> same_request x x' \<and>
    ext_lba (cmd_ext x') = (ext_lba (cmd_ext x) + int m) mod 2 ^ 48 \<and>
    cmd_actualTransfer x' = cmd_actualTransfer (count_sent x) \<and>
    unat (m_nCurrentTag p') = Suc (unat (m_nCurrentTag p) mod 1073741822) \<and>
    m_to_send_queue (m_pAoEService p') = m_to_send_queue (m_pAoEService p) @ [item] \<and>
    m_unReadBaseTag c' = (if m_unReadBaseTag c = 0 then m_nCurrentTag p' else m_unReadBaseTag c) \<and>
    carries (m_target c) (ext_getCommand af x) (Suc (unat (m_nCurrentTag p) mod 1073741822))
      (ext_lba (cmd_ext x)) m (sent_data x c) item"
proof -
  let ?x = "ext_count (int m) x" and ?c = "map_command (ext_count (int m)) c" and ?Tag = "fst (next_tag p)"
  from ready have r: "kernel_ok k" "target_ok (m_target c)" "interfaces_active (m_pAoEService p) (m_target c)"
      "currentCommand c = Some x" "cmd_ext_ok x" "is_extended_command x" "\<not> faked_command (ext_getCommand af x)"
      "tag_ok p" by (auto simp: transfer_ready_def)
  have cmd: "\<not> faked_command (rg_Command (ext_registers af ?x))"
    using r(7) by (simp add: ext_registers_def Let_def)
  have sent: "sent_data x ?c = sent_data x c" by (simp add: sent_data_def map_command_def)
  have "\<exists>i p' item v. issueCommand k af (?c, p) =
      Some (kATANoErr, after_packet ?Tag i (count_sent ?x) ?c, p') \<and>
    m_nCurrentTag p' = ?Tag \<and> m_pInterfaces (m_pAoEService p') = m_pInterfaces (m_pAoEService p) \<and>
    m_to_send_queue (m_pAoEService p') = m_to_send_queue (m_pAoEService p) @ [item] \<and> ts_Tag item = ?Tag \<and>
    pk_aoe (ts_mbuf item) =
      aoe_header_to (nShelf (m_target ?c)) (nSlot (m_target ?c)) AOE_ATA_COMMAND ?Tag \<and>
    pk_body (ts_mbuf item) = ATA (registers_header (ext_registers af ?x\<lparr>rg_AFlags := v\<rparr>)) \<and>
    pk_data (ts_mbuf item) = sent_data ?x ?c"
    using r cmd w by (intro issue_packet) (simp_all add: map_command_def command_registers_def write_room_def)
  then obtain i p' item v where iss: "issueCommand k af (?c, p) =
        Some (kATANoErr, after_packet ?Tag i (count_sent ?x) ?c, p')"
      "m_nCurrentTag p' = ?Tag" "m_pInterfaces (m_pAoEService p') = m_pInterfaces (m_pAoEService p)"
      "m_to_send_queue (m_pAoEService p') = m_to_send_queue (m_pAoEService p) @ [item]" "ts_Tag item = ?Tag"
      "pk_aoe (ts_mbuf item) = aoe_header_to (nShelf (m_target c)) (nSlot (m_target c)) AOE_ATA_COMMAND ?Tag"
      "pk_body (ts_mbuf item) = ATA (registers_header (ext_registers af ?x\<lparr>rg_AFlags := v\<rparr>))"
      "pk_data (ts_mbuf item) = sent_data x c"
    by (auto simp: map_command_def sent [unfolded map_command_def])
  define x' where "x' = ext_inc (int m) (count_sent ?x)"
  define c' where "c' = map_command (ext_inc (int m)) (after_packet ?Tag i (count_sent ?x) ?c)"
  have req: "same_request x x'" unfolding x'_def by (rule same_request_steps)
  have c': "c' = c\<lparr>m_target := (m_target c)\<lparr>nLastSentInterface := i\<rparr>,
      m_unReadBaseTag := (if m_unReadBaseTag c = 0 then ?Tag else m_unReadBaseTag c), currentCommand := Some x'\<rparr>"
    by (cases c) (simp add: c'_def x'_def after_packet_def map_command_def)
  have frame: "transfer_frame c c'" unfolding transfer_frame_def c' by blast
  have tag: "unat ?Tag = Suc (unat (m_nCurrentTag p) mod 1073741822)" "tag_ok p'"
    using next_tag_unat [OF r(8)] tag_ok_next [OF r(8)] iss(2) by (simp_all add: tag_ok_def)
  have ready': "transfer_ready k af x' c' p'"
    using r same_request_fields [OF req] transfer_frameD(4) [OF frame] transfer_frameD(8) [OF frame iss(3)] tag(2)
    by (simp add: transfer_ready_def c')
  have "ext_lba (cmd_ext x') = (ext_lba (cmd_ext x) + int m) mod 2 ^ 48"
    by (simp add: x'_def ext_inc_def ext48.lba_inc count_sent_def ext_count_def)
  moreover have "cmd_actualTransfer x' = cmd_actualTransfer (count_sent x)"
    by (simp add: x'_def ext_inc_def count_sent_def)
  moreover have "carries (m_target c) (ext_getCommand af x) (unat ?Tag) (ext_lba (cmd_ext x)) m (sent_data x c) item"
  proof -
    have "packet_lba (registers_header (ext_registers af ?x\<lparr>rg_AFlags := v\<rparr>)) = ext_lba (cmd_ext ?x)"
      by (rule packet_lba_ext) simp
    also have "\<dots> = ext_lba (cmd_ext x)" by (simp add: ext_count_def)
    finally show ?thesis
      using iss(5-8) ext_registers_count [OF m]
      by (simp add: carries_def) (simp add: ext_registers_def Let_def)
  qed
  ultimately show ?thesis
    using iss req frame ready' tag(1)
    by (intro exI [of _ c'] exI [of _ p'] exI [of _ x'] exI [of _ item]) (simp add: c'_def [symmetric], simp add: c')
qed

text \<open>The room for \<open>n\<close> more packets of \<open>m\<close> sectors each.\<close>

definition rounds_room :: "nat \<Rightarrow> nat \<Rightarrow> ata_command \<Rightarrow> controller \<Rightarrow> bool" where
  "rounds_room n m x c \<longleftrightarrow> cmd_position x = 0 \<and>
     unat (cmd_byteCount x) \<le> unat (doubleBuffer_size c) \<and>
     unat (cmd_byteCount x) \<le> length (doubleBuffer c) \<and> 0 < m \<and>
     unat (cmd_actualTransfer x) + n * (512 * m) \<le> unat (cmd_byteCount x) \<and>
     (\<forall>i < n. min (unat (cmd_byteCount x) - (unat (cmd_actualTransfer x) + i * (512 * m)))
       (unat (cmd_chunkSize x)) = 512 * m)"

lemma rounds_room_Suc:
  assumes "rounds_room (Suc n) m x c"
  shows "write_room x c" "pass_size x = 512 * m"
proof -
  have "min (unat (cmd_byteCount x) - unat (cmd_actualTransfer x)) (unat (cmd_chunkSize x)) = 512 * m"
    using assms by (auto simp: rounds_room_def)
  with assms show "write_room x c" "pass_size x = 512 * m"
    by (auto simp: rounds_room_def write_room_def pass_size_def)
qed

lemma rounds_room_step:
  assumes "rounds_room (Suc n) m x c" "transfer_frame c c'" "same_request x x'"
    "cmd_actualTransfer x' = of_nat (unat (cmd_actualTransfer x) + 512 * m)"
  shows "unat (cmd_actualTransfer x') = unat (cmd_actualTransfer x) + 512 * m" "rounds_room n m x' c'"
proof -
  have "unat (cmd_actualTransfer x) + 512 * m \<le> unat (cmd_byteCount x)"
    using assms(1) by (simp add: rounds_room_def)
  also have "unat (cmd_byteCount x) < 2 ^ LENGTH(32)" by (rule unsigned_less)
  finally have "unat (cmd_actualTransfer x) + 512 * m < 2 ^ 32" by simp
  then show actual: "unat (cmd_actualTransfer x') = unat (cmd_actualTransfer x) + 512 * m"
    unfolding assms(4) by (simp only: unat_of_nat) simp
  have "min (unat (cmd_byteCount x) - (unat (cmd_actualTransfer x) + 512 * m + i * (512 * m)))
      (unat (cmd_chunkSize x)) = 512 * m" if "i < n" for i
  proof -
    have "\<forall>i < Suc n. min (unat (cmd_byteCount x) - (unat (cmd_actualTransfer x) + i * (512 * m)))
        (unat (cmd_chunkSize x)) = 512 * m" using assms(1) unfolding rounds_room_def by blast
    then have "min (unat (cmd_byteCount x) - (unat (cmd_actualTransfer x) + Suc i * (512 * m)))
        (unat (cmd_chunkSize x)) = 512 * m" using that by blast
    then show ?thesis by (simp add: add.assoc)
  qed
  with assms(1) show "rounds_room n m x' c'"
    unfolding rounds_room_def actual
    by (simp add: same_request_fields [OF assms(3)] transfer_frameD(1,2) [OF assms(2)])
qed

definition round_data :: "ata_command \<Rightarrow> controller \<Rightarrow> nat \<Rightarrow> nat \<Rightarrow> u8 list" where
  "round_data x c m j = (if mATAFlagIOWrite x
     then take (512 * m) (drop (unat (cmd_actualTransfer x) + j * (512 * m)) (doubleBuffer c)) else [])"

lemma Suc_mod_add: "Suc (a mod n + j) mod n = Suc (a + j) mod (n :: nat)"
  by (metis mod_Suc_eq mod_add_left_eq)

lemma ext_rounds:
  assumes "transfer_ready k af x c p" "m \<le> 255" "mATAFlagIOWrite x \<Longrightarrow> rounds_room n m x c"
  shows "\<exists>c' p' x' items.
    issue_rounds k af (ext_count (int m)) (ext_inc (int m)) n (err, c, p) =
      Some (if n = 0 then err else kATANoErr, c', p') \<and>
    transfer_frame c c' \<and> transfer_ready k af x' c' p' \<and> same_request x x' \<and>
    ext_lba (cmd_ext x') = (ext_lba (cmd_ext x) + int n * int m) mod 2 ^ 48 \<and>
    (mATAFlagIOWrite x \<longrightarrow> unat (cmd_actualTransfer x') = unat (cmd_actualTransfer x) + n * (512 * m)) \<and>
    unat (m_nCurrentTag p') mod 1073741822 = (unat (m_nCurrentTag p) + n) mod 1073741822 \<and>
    m_to_send_queue (m_pAoEService p') = m_to_send_queue (m_pAoEService p) @ items \<and> length items = n \<and>
    (\<forall>j < n. carries (m_target c) (ext_getCommand af x) (Suc ((unat (m_nCurrentTag p) + j) mod 1073741822))
      ((ext_lba (cmd_ext x) + int j * int m) mod 2 ^ 48) m (round_data x c m j) (items ! j))"
  using assms
proof (induction n arbitrary: c p x err)
  case 0
  then show ?case
    by (intro exI [of _ c] exI [of _ p] exI [of _ x] exI [of _ "[]"])
      (simp add: transfer_frame_refl same_request_def ext48.lba_mod [simplified])
next
  case (Suc n)
  have w: "mATAFlagIOWrite x \<Longrightarrow> write_room x c \<and> pass_size x = 512 * m"
    using rounds_room_Suc Suc.prems(3) by blast
  from ext_round [OF Suc.prems(1,2), of n err] w
  obtain c1 p1 x1 item where one:
      "issue_rounds k af (ext_count (int m)) (ext_inc (int m)) (Suc n) (err, c, p) =
        issue_rounds k af (ext_count (int m)) (ext_inc (int m)) n (kATANoErr, c1, p1)"
      "transfer_frame c c1" "transfer_ready k af x1 c1 p1" "same_request x x1"
      "ext_lba (cmd_ext x1) = (ext_lba (cmd_ext x) + int m) mod 2 ^ 48"
      "cmd_actualTransfer x1 = cmd_actualTransfer (count_sent x)"
      "unat (m_nCurrentTag p1) = Suc (unat (m_nCurrentTag p) mod 1073741822)"
      "m_to_send_queue (m_pAoEService p1) = m_to_send_queue (m_pAoEService p) @ [item]"
      "carries (m_target c) (ext_getCommand af x) (Suc (unat (m_nCurrentTag p) mod 1073741822))
        (ext_lba (cmd_ext x)) m (sent_data x c) item" by blast
  have step: "unat (cmd_actualTransfer x1) = unat (cmd_actualTransfer x) + 512 * m \<and> rounds_room n m x1 c1"
    if "mATAFlagIOWrite x"
    using rounds_room_step [OF Suc.prems(3) [OF that] one(2,4)] one(6) w that by (simp add: count_sent_def)
  from Suc.IH [OF one(3) Suc.prems(2), of kATANoErr] step same_request_fields(1) [OF one(4)]
  obtain c2 p2 x2 items where rest:
      "issue_rounds k af (ext_count (int m)) (ext_inc (int m)) n (kATANoErr, c1, p1) = Some (kATANoErr, c2, p2)"
      "transfer_frame c1 c2" "transfer_ready k af x2 c2 p2" "same_request x1 x2"
      "ext_lba (cmd_ext x2) = (ext_lba (cmd_ext x1) + int n * int m) mod 2 ^ 48"
      "mATAFlagIOWrite x1 \<longrightarrow> unat (cmd_actualTransfer x2) = unat (cmd_actualTransfer x1) + n * (512 * m)"
      "unat (m_nCurrentTag p2) mod 1073741822 = (unat (m_nCurrentTag p1) + n) mod 1073741822"
      "m_to_send_queue (m_pAoEService p2) = m_to_send_queue (m_pAoEService p1) @ items" "length items = n"
      "\<forall>j < n. carries (m_target c1) (ext_getCommand af x1) (Suc ((unat (m_nCurrentTag p1) + j) mod 1073741822))
        ((ext_lba (cmd_ext x1) + int j * int m) mod 2 ^ 48) m (round_data x1 c1 m j) (items ! j)"
    by (auto split: if_splits)
  have data0: "sent_data x c = round_data x c m 0" using w by (simp add: sent_data_def round_data_def)
  have data: "round_data x1 c1 m j = round_data x c m (Suc j)" for j
    using step transfer_frameD(1) [OF one(2)] same_request_fields(1) [OF one(4)]
    by (auto simp: round_data_def algebra_simps)
  have tag_j: "Suc ((unat (m_nCurrentTag p1) + j) mod 1073741822) = Suc ((unat (m_nCurrentTag p) + Suc j) mod 1073741822)" for j
    by (simp add: one(7) Suc_mod_add)
  have lba_j: "(ext_lba (cmd_ext x1) + int j * int m) mod 2 ^ 48 = (ext_lba (cmd_ext x) + int (Suc j) * int m) mod 2 ^ 48" for j
    by (simp add: one(5) mod_simps algebra_simps)
  have items: "carries (m_target c) (ext_getCommand af x) (Suc ((unat (m_nCurrentTag p) + j) mod 1073741822))
      ((ext_lba (cmd_ext x) + int j * int m) mod 2 ^ 48) m (round_data x c m j) ((item # items) ! j)"
    if "j < Suc n" for j
  proof (cases j)
    case 0
    with one(9) show ?thesis by (simp add: data0 ext48.lba_mod [simplified])
  next
    case (Suc i)
    with that rest(10) have "carries (m_target c1) (ext_getCommand af x1) (Suc ((unat (m_nCurrentTag p1) + i) mod 1073741822))
        ((ext_lba (cmd_ext x1) + int i * int m) mod 2 ^ 48) m (round_data x1 c1 m i) (items ! i)" by simp
    with Suc show ?thesis
      by (simp only: tag_j lba_j data transfer_frameD(7) [OF one(2)] same_request_fields(7) [OF one(4)] nth_Cons_Suc)
  qed
  have tag: "unat (m_nCurrentTag p2) mod 1073741822 = (unat (m_nCurrentTag p) + Suc n) mod 1073741822"
    unfolding rest(7) one(7) by (simp add: Suc_mod_add)
  show ?case
  proof (intro exI [of _ c2] exI [of _ p2] exI [of _ x2] exI [of _ "item # items"] conjI allI impI)
    show "issue_rounds k af (ext_count (int m)) (ext_inc (int m)) (Suc n) (err, c, p) =
        Some (if Suc n = 0 then err else kATANoErr, c2, p2)" using one(1) rest(1) by simp
    show "transfer_frame c c2" using one(2) rest(2) by (rule transfer_frame_trans)
    show "same_request x x2" using one(4) rest(4) by (rule same_request_trans)
    show "ext_lba (cmd_ext x2) = (ext_lba (cmd_ext x) + int (Suc n) * int m) mod 2 ^ 48"
      unfolding rest(5) by (rule lba_j)
    show "unat (cmd_actualTransfer x2) = unat (cmd_actualTransfer x) + Suc n * (512 * m)"
      if "mATAFlagIOWrite x"
      using rest(6) step that same_request_fields(1) [OF one(4)] by simp
    show "transfer_ready k af x2 c2 p2" by (rule rest(3))
    show "unat (m_nCurrentTag p2) mod 1073741822 = (unat (m_nCurrentTag p) + Suc n) mod 1073741822" by (rule tag)
    show "m_to_send_queue (m_pAoEService p2) = m_to_send_queue (m_pAoEService p) @ item # items"
      by (simp add: rest(8) one(8))
    show "length (item # items) = Suc n" by (simp add: rest(9))
    show "carries (m_target c) (ext_getCommand af x) (Suc ((unat (m_nCurrentTag p) + j) mod 1073741822))
        ((ext_lba (cmd_ext x) + int j * int m) mod 2 ^ 48) m (round_data x c m j) ((item # items) ! j)"
      if "j < Suc n" for j using that by (rule items)
  qed
qed

section \<open>The whole transfer\<close>

text \<open>\<open>S\<close> sectors in packets of at most \<open>m\<close>: how many packets, and how many sectors in the \<open>j\<close>-th.\<close>

definition packets_needed :: "nat \<Rightarrow> nat \<Rightarrow> nat" where
  "packets_needed S m = S div m + (if S mod m \<noteq> 0 then 1 else 0)"

definition packet_data :: "bool \<Rightarrow> u8 list \<Rightarrow> nat \<Rightarrow> nat \<Rightarrow> nat \<Rightarrow> u8 list" where
  "packet_data wr buf S m j = (if wr then take (512 * min m (S - j * m)) (drop (512 * (j * m)) buf) else [])"

lemma packets_needed_ceiling:
  assumes "0 < S" "0 < M"
  shows "packets_needed S (min M S) = (S + M - 1) div M"
proof (cases "S \<le> M")
  case True
  then have "(S + M - 1) div M = 1"
    using assms by (intro div_nat_eqI) auto
  with True assms show ?thesis by (simp add: packets_needed_def)
next
  case False
  have "S + M - 1 = M * (S div M) + (S mod M + M - 1)"
    using assms(2) mult_div_mod_eq [of M S] by linarith
  then have "(S + M - 1) div M = (M * (S div M) + (S mod M + M - 1)) div M" by simp
  also have "\<dots> = S div M + (S mod M + M - 1) div M" using assms(2) by (simp only: div_mult_self4)
  also have "(S mod M + M - 1) div M = (if S mod M \<noteq> 0 then 1 else 0)"
  proof (cases "S mod M = 0")
    case True
    with assms(2) show ?thesis by simp
  next
    case False
    moreover have "S mod M < M" using assms(2) by simp
    ultimately show ?thesis by (simp, intro div_nat_eqI) auto
  qed
  finally show ?thesis using False by (simp add: packets_needed_def)
qed

text \<open>Room and readiness at the start of a transfer of \<open>S\<close> sectors, \<open>m\<close> per packet.\<close>

definition transfer_of :: "nat \<Rightarrow> nat \<Rightarrow> ata_command \<Rightarrow> controller \<Rightarrow> bool" where
  "transfer_of S m x c \<longleftrightarrow> 0 < m \<and> m \<le> S \<and> m \<le> 255 \<and> S < 65536 \<and>
     unat (cmd_byteCount x) = 512 * S \<and> unat (cmd_chunkSize x) = 512 * m \<and>
     (mATAFlagIOWrite x \<longrightarrow> cmd_actualTransfer x = 0 \<and> cmd_position x = 0 \<and>
       512 * S \<le> unat (doubleBuffer_size c) \<and> 512 * S \<le> length (doubleBuffer c))"

lemma transfer_of_rounds:
  assumes "transfer_of S m x c" "mATAFlagIOWrite x"
  shows "rounds_room (S div m) m x c"
proof -
  have le: "S div m * m \<le> S" by simp
  have "min (512 * S - i * (512 * m)) (512 * m) = 512 * m" if "i < S div m" for i
  proof -
    have "Suc i * m \<le> S div m * m" using that by (intro mult_le_mono1) simp
    also note le
    finally have "m + i * m \<le> S" by simp
    then have "512 * (m + i * m) \<le> 512 * S" by simp
    then have "512 * m \<le> 512 * S - i * (512 * m)" by (simp add: algebra_simps)
    then show ?thesis by (simp add: min_def)
  qed
  with assms le show ?thesis
    by (auto simp: transfer_of_def rounds_room_def)
qed

lemma transfer_of_rest:
  assumes "transfer_of S m x c" "mATAFlagIOWrite x" "transfer_frame c c'" "same_request x x'"
    "unat (cmd_actualTransfer x') = S div m * (512 * m)" "S mod m \<noteq> 0"
  shows "rounds_room 1 (S mod m) x' c'"
proof -
  have "S mod m < m" using assms(1) by (simp add: transfer_of_def)
  moreover have "512 * S - S div m * (512 * m) = 512 * (S mod m)"
    by (simp add: minus_mult_div_eq_mod [symmetric] algebra_simps diff_mult_distrib2)
  moreover have "S div m * (512 * m) + 512 * (S mod m) = 512 * S"
    by (metis add_mult_distrib2 mult.assoc mult.commute div_mult_mod_eq)
  ultimately show ?thesis
    using assms same_request_fields [OF assms(4)] transfer_frameD(1,2) [OF assms(3)]
    by (auto simp: transfer_of_def rounds_room_def)
qed

lemma uint_of_nat_small: "n < 2 ^ LENGTH('a) \<Longrightarrow> uint (of_nat n :: 'a::len word) = int n"
  by (simp add: unsigned_of_nat take_bit_nat_eq_self)

lemma left_over:
  assumes "unat (b :: u32) = 512 * S" "S < 65536"
  shows "b - word_of_int (int (S div m) * (512 * int m)) = of_nat (512 * (S mod m))"
    "uint (of_nat (512 * (S mod m)) :: u32) = 512 * int (S mod m)"
proof -
  have "b = of_nat (512 * S)" by (simp flip: assms(1))
  moreover have "(word_of_int (int (S div m) * (512 * int m)) :: u32) = of_nat (512 * (S div m * m))"
    by (simp add: algebra_simps)
  moreover have "512 * S = 512 * (S div m * m) + 512 * (S mod m)" by (simp flip: add_mult_distrib2)
  ultimately show "b - word_of_int (int (S div m) * (512 * int m)) = of_nat (512 * (S mod m))"
    by (metis add_diff_cancel_left' of_nat_add)
  have "512 * (S mod m) < 512 * 65536" using assms(2) mod_less_eq_dividend [of S m] by linarith
  also have "(512 * 65536 :: nat) < 2 ^ 32" by simp
  finally have "512 * (S mod m) < 2 ^ LENGTH(32)" by (simp only: len_num0 len_num1 len_bit0 len_bit1) simp
  then have "uint (of_nat (512 * (S mod m)) :: u32) = int (512 * (S mod m))" by (rule uint_of_nat_small)
  then show "uint (of_nat (512 * (S mod m)) :: u32) = 512 * int (S mod m)" by (simp only: of_nat_mult of_nat_numeral)
qed

text \<open>The block transfer of a 48-bit command.\<close>

lemma data_main:
  assumes "transfer_of S m x c" "j < S div m"
  shows "round_data x c m j = packet_data (mATAFlagIOWrite x) (doubleBuffer c) S m j" "min m (S - j * m) = m"
proof -
  have "Suc j * m \<le> S div m * m" using assms(2) by (intro mult_le_mono1) simp
  also have "S div m * m \<le> S" by simp
  finally show "min m (S - j * m) = m" by simp
  with assms(1) show "round_data x c m j = packet_data (mATAFlagIOWrite x) (doubleBuffer c) S m j"
    by (simp add: round_data_def packet_data_def transfer_of_def algebra_simps)
qed

lemma transfer_frame_replies:
  assumes "transfer_frame (c\<lparr>m_nReadWriteRepliesRequired := r\<rparr>) c1"
    "transfer_frame (c1\<lparr>m_nReadWriteRepliesRequired := int n + 1\<rparr>) c2"
  shows "transfer_frame (c\<lparr>m_nReadWriteRepliesRequired := int (Suc n)\<rparr>) c2"
  using assms unfolding transfer_frame_def by (cases c) fastforce

lemma block_transfer_ext:
  assumes ready: "transfer_ready k af x c p" and size: "transfer_of S m x c"
  shows "\<exists>c' p' x' items.
    block_transfer k af (int S) ext_count ext_inc x (c, p) = Some (kATANoErr, c', p') \<and>
    transfer_frame (c\<lparr>m_nReadWriteRepliesRequired := int (packets_needed S m)\<rparr>) c' \<and>
    currentCommand c' = Some x' \<and> same_request x x' \<and>
    m_to_send_queue (m_pAoEService p') = m_to_send_queue (m_pAoEService p) @ items \<and>
    length items = packets_needed S m \<and>
    (\<forall>j < packets_needed S m. carries (m_target c) (ext_getCommand af x)
      (Suc ((unat (m_nCurrentTag p) + j) mod 1073741822))
      ((ext_lba (cmd_ext x) + int j * int m) mod 2 ^ 48) (min m (S - j * m))
      (packet_data (mATAFlagIOWrite x) (doubleBuffer c) S m j) (items ! j))"
proof -
  let ?R = "S div m" and ?L = "S mod m" and ?err = "af_uninit_err af"
  have s: "0 < m" "m \<le> S" "m \<le> 255" "unat (cmd_byteCount x) = 512 * S" "unat (cmd_chunkSize x) = 512 * m"
    using size by (auto simp: transfer_of_def)
  have R: "0 < ?R" using s(1,2) by (simp add: div_greater_zero_iff)
  let ?c = "c\<lparr>m_nReadWriteRepliesRequired := int ?R\<rparr>"
  have "transfer_ready k af x ?c p" using ready by (simp add: transfer_ready_def)
  moreover have "rounds_room ?R m x ?c" if "mATAFlagIOWrite x"
    using transfer_of_rounds [OF size that] by (simp add: rounds_room_def)
  ultimately obtain c1 p1 x1 items1 where main:
      "issue_rounds k af (ext_count (int m)) (ext_inc (int m)) ?R (?err, ?c, p) = Some (kATANoErr, c1, p1)"
      "transfer_frame ?c c1" "transfer_ready k af x1 c1 p1" "same_request x x1"
      "ext_lba (cmd_ext x1) = (ext_lba (cmd_ext x) + int ?R * int m) mod 2 ^ 48"
      "mATAFlagIOWrite x \<longrightarrow> unat (cmd_actualTransfer x1) = unat (cmd_actualTransfer x) + ?R * (512 * m)"
      "unat (m_nCurrentTag p1) mod 1073741822 = (unat (m_nCurrentTag p) + ?R) mod 1073741822"
      "m_to_send_queue (m_pAoEService p1) = m_to_send_queue (m_pAoEService p) @ items1" "length items1 = ?R"
      "\<forall>j < ?R. carries (m_target ?c) (ext_getCommand af x) (Suc ((unat (m_nCurrentTag p) + j) mod 1073741822))
        ((ext_lba (cmd_ext x) + int j * int m) mod 2 ^ 48) m (round_data x ?c m j) (items1 ! j)"
    using ext_rounds [of k af x ?c p m ?R ?err] s(3) R by auto
  have u: "uint (cmd_chunkSize x) = 512 * int m" "uint (cmd_byteCount x) = 512 * int S"
    using s(4,5) by (simp_all add: uint_nat)
  have n_rounds: "nat (uint (cmd_byteCount x) div (512 * int m)) = ?R"
    using s(1) by (simp add: u nat_div_distrib)
  have replies: "max 1 (int S div int m) = int ?R" using R by (simp add: zdiv_int [symmetric])
  have replies1: "m_nReadWriteRepliesRequired c1 = int ?R" using transfer_frameD(3) [OF main(2)] by simp
  have x1: "currentCommand c1 = Some x1" "cmd_byteCount x1 = cmd_byteCount x"
    using main(3) same_request_fields [OF main(4)] by (simp_all add: transfer_ready_def)
  note left = left_over [OF s(4), of m]
  have S: "S < 65536" using size by (simp add: transfer_of_def)
  have items1: "carries (m_target c) (ext_getCommand af x) (Suc ((unat (m_nCurrentTag p) + j) mod 1073741822))
      ((ext_lba (cmd_ext x) + int j * int m) mod 2 ^ 48) (min m (S - j * m))
      (packet_data (mATAFlagIOWrite x) (doubleBuffer c) S m j) (items1 ! j)" if "j < ?R" for j
  proof -
    have "round_data x ?c m j = round_data x c m j" by (simp add: round_data_def)
    with main(10) [rule_format, OF that] data_main [OF size that] show ?thesis by simp
  qed
  have block: "block_transfer k af (int S) ext_count ext_inc x (c, p) =
      (if (of_nat (512 * ?L) :: u32) \<noteq> 0
       then if int (512 * ?L) div 512 > 0
            then issue_rounds k af (ext_count (int (512 * ?L) div 512)) (ext_inc (int (512 * ?L) div 512)) 1
              (kATANoErr, c1\<lparr>m_nReadWriteRepliesRequired := int ?R + 1\<rparr>, p1)
            else Some (kATANoErr, c1, p1)
       else Some (kATANoErr, c1, p1))"
  proof -
    have nNum: "uint (cmd_chunkSize x) div 512 = int m" by (simp add: u)
    have m: "int m \<noteq> 0" using s(1) by simp
    have rounds: "nat (uint (cmd_byteCount x) div (512 * int m)) = ?R" by (rule n_rounds)
    have u_lw: "uint (of_nat (512 * ?L) :: u32) = int (512 * ?L)" using left(2) [OF S] by (simp only: of_nat_mult of_nat_numeral)
    show ?thesis
      by (simp only: block_transfer_def Let_def prod.case nNum m replies rounds main(1) Option.bind_lunit
          if_False left(1) [OF S] u_lw replies1)
  qed
  show ?thesis
  proof (cases "?L = 0")
    case True
    then have N: "packets_needed S m = ?R" by (simp add: packets_needed_def)
    have "block_transfer k af (int S) ext_count ext_inc x (c, p) = Some (kATANoErr, c1, p1)"
      unfolding block using True by simp
    with main(2,4,8,9) x1(1) items1 show ?thesis unfolding N by blast
  next
    case False
    then have N: "packets_needed S m = Suc ?R" by (simp add: packets_needed_def)
    have L: "0 < ?L" "?L < m" "(of_nat (512 * ?L) :: u32) \<noteq> 0"
      using False s(1) left(2) [OF S] by auto
    let ?c1 = "c1\<lparr>m_nReadWriteRepliesRequired := int ?R + 1\<rparr>"
    have "transfer_ready k af x1 ?c1 p1" using main(3) by (simp add: transfer_ready_def)
    moreover have "rounds_room 1 ?L x1 ?c1" if "mATAFlagIOWrite x1"
    proof -
      have w: "mATAFlagIOWrite x" using that same_request_fields(1) [OF main(4)] by simp
      have "rounds_room 1 ?L x1 c1"
        using transfer_of_rest [of S m x ?c c1 x1] size w main(2,4,6) False
        by (simp add: transfer_of_def)
      then show ?thesis by (simp add: rounds_room_def)
    qed
    ultimately obtain c2 p2 x2 items2 where rest:
        "issue_rounds k af (ext_count (int ?L)) (ext_inc (int ?L)) 1 (kATANoErr, ?c1, p1) = Some (kATANoErr, c2, p2)"
        "transfer_frame ?c1 c2" "transfer_ready k af x2 c2 p2" "same_request x1 x2"
        "m_to_send_queue (m_pAoEService p2) = m_to_send_queue (m_pAoEService p1) @ items2" "length items2 = 1"
        "\<forall>j < 1. carries (m_target ?c1) (ext_getCommand af x1) (Suc ((unat (m_nCurrentTag p1) + j) mod 1073741822))
          ((ext_lba (cmd_ext x1) + int j * int ?L) mod 2 ^ 48) ?L (round_data x1 ?c1 ?L j) (items2 ! j)"
      using ext_rounds [of k af x1 ?c1 p1 ?L 1 kATANoErr] s(3) L(2) by auto
    have run: "block_transfer k af (int S) ext_count ext_inc x (c, p) = Some (kATANoErr, c2, p2)"
    proof -
      have "int (512 * ?L) div 512 = int ?L" by simp
      then show ?thesis unfolding block using L(1,3) rest(1) by (simp del: issue_rounds.simps)
    qed
    have last: "carries (m_target c) (ext_getCommand af x)
        (Suc ((unat (m_nCurrentTag p) + ?R) mod 1073741822))
        ((ext_lba (cmd_ext x) + int ?R * int m) mod 2 ^ 48) (min m (S - ?R * m))
        (packet_data (mATAFlagIOWrite x) (doubleBuffer c) S m ?R) (items2 ! 0)"
    proof -
      have count: "min m (S - ?R * m) = ?L" using L(2) by (simp add: minus_div_mult_eq_mod)
      have data: "round_data x1 ?c1 ?L 0 = packet_data (mATAFlagIOWrite x) (doubleBuffer c) S m ?R"
        using main(6) size transfer_frameD(1) [OF main(2)] same_request_fields(1) [OF main(4)]
        unfolding round_data_def packet_data_def count
        by (auto simp: transfer_of_def algebra_simps)
      have frame: "carries (m_target ?c1) = carries (m_target c)"
        using transfer_frameD(7) [OF main(2)] by simp
      from rest(7) show ?thesis
        unfolding count frame data same_request_fields(7) [OF main(4)]
        by (simp add: main(5,7) data [symmetric])
    qed
    have frame: "transfer_frame (c\<lparr>m_nReadWriteRepliesRequired := int (packets_needed S m)\<rparr>) c2"
      using main(2) rest(2) unfolding N by (rule transfer_frame_replies)
    have items: "carries (m_target c) (ext_getCommand af x) (Suc ((unat (m_nCurrentTag p) + j) mod 1073741822))
        ((ext_lba (cmd_ext x) + int j * int m) mod 2 ^ 48) (min m (S - j * m))
        (packet_data (mATAFlagIOWrite x) (doubleBuffer c) S m j) ((items1 @ items2) ! j)"
      if "j < packets_needed S m" for j
      using that items1 [of j] last main(9) unfolding N
      by (cases "j < ?R") (auto simp: nth_append less_Suc_eq)
    have x2: "currentCommand c2 = Some x2" "same_request x x2"
      using rest(3,4) main(4) same_request_trans by (auto simp: transfer_ready_def)
    show ?thesis
      using run frame x2 items main(8,9) rest(5,6) N
      by (intro exI [of _ c2] exI [of _ p2] exI [of _ x2] exI [of _ "items1 @ items2"]) simp
  qed
qed

section \<open>Splitting a transfer is exact\<close>

lemma ext_setCommand_fields [simp]:
  "ext_getCommand af (ext_setCommand af v x) = v" "cmd_ext_ok (ext_setCommand af v x) = cmd_ext_ok x"
  "mATAFlagIOWrite (ext_setCommand af v x) = mATAFlagIOWrite x"
  "cmd_byteCount (ext_setCommand af v x) = cmd_byteCount x"
  "cmd_chunkSize (ext_setCommand af v x) = cmd_chunkSize x"
  "cmd_actualTransfer (ext_setCommand af v x) = cmd_actualTransfer x"
  "cmd_position (ext_setCommand af v x) = cmd_position x"
  "SectorCount16 (cmd_ext (ext_setCommand af v x)) = SectorCount16 (cmd_ext x)"
  "ext_lba (cmd_ext (ext_setCommand af v x)) = ext_lba (cmd_ext x)"
  by (simp_all add: ext_setCommand_def ext_getCommand_def ext_lba_def ext_address_def)

lemma block_not_faked: "block_command v \<Longrightarrow> \<not> faked_command v"
  by (auto simp: block_command_def faked_command_def)

lemma extended_stays_extended:
  "is_extended_command x \<Longrightarrow> is_extended_command (ext_setCommand af (translate_dma (ext_getCommand af x)) x)"
  by (auto simp: is_extended_command_def ext_setCommand_def ext_getCommand_def translate_dma_def)

lemma take_drop_prefix: "take n a = b \<Longrightarrow> d + k \<le> n \<Longrightarrow> take k (drop d a) = take k (drop d b)"
  by (auto simp: drop_take min_def)

text \<open>What the transfer asks of the command and the controller.\<close>

definition request_ok :: "ata_family \<Rightarrow> nat \<Rightarrow> nat \<Rightarrow> ata_command \<Rightarrow> controller \<Rightarrow> bool" where
  "request_ok af S M x c \<longleftrightarrow> 0 < S \<and> unat (SectorCount16 (cmd_ext x)) = S \<and>
     unat (cmd_byteCount x) = 512 * S \<and> 0 < M \<and> M \<le> 255 \<and> m_nMaxSectorsPerTransfer c = int M \<and>
     cmd_ext_ok x \<and> is_extended_command x \<and> block_command (translate_dma (ext_getCommand af x)) \<and>
     (mATAFlagIOWrite x \<longrightarrow> cmd_actualTransfer x = 0 \<and> cmd_position x = 0 \<and>
       af_readBytes af 0 (cmd_byteCount x) (cmd_buffer x) = cmd_buffer x \<and> length (cmd_buffer x) = 512 * S \<and>
       512 * S \<le> unat (doubleBuffer_size c) \<and> 512 * S \<le> length (doubleBuffer c))"

lemma chunk_size:
  assumes "request_ok af S M x c"
  shows "unat (min (word_of_int (s32 (int M * 512))) (cmd_byteCount x)) = 512 * min M S"
proof -
  have M: "M \<le> 255" "unat (cmd_byteCount x) = 512 * S" using assms by (simp_all add: request_ok_def)
  have "s32 (int M * 512) = int M * 512" using M(1) by (intro s32_in_range) auto
  then have "(word_of_int (s32 (int M * 512)) :: u32) = of_nat (512 * M)" by (simp add: mult.commute)
  moreover have "unat (of_nat (512 * M) :: u32) = 512 * M"
    using M(1) by (simp only: unsigned_of_nat) (simp add: take_bit_nat_eq_self)
  ultimately have "unat (word_of_int (s32 (int M * 512)) :: u32) = 512 * M" by simp
  then show ?thesis using M(2) by (simp add: min_def word_le_nat_alt)
qed

lemma prologue_ok:
  assumes "request_ok af S M x c"
  shows "\<exists>x1 c1. async_prologue af x c = Some (x1, c1) \<and> transfer_of S (min M S) x1 c1 \<and>
    x1 = x\<lparr>cmd_chunkSize := cmd_chunkSize x1\<rparr> \<and> m_target c1 = m_target c \<and>
    (mATAFlagIOWrite x \<longrightarrow> take (512 * S) (doubleBuffer c1) = cmd_buffer x)"
proof -
  have "unat (SectorCount16 (cmd_ext x)) < 2 ^ LENGTH(16)" by (rule unsigned_less)
  then have "S < 65536" using assms by (simp add: request_ok_def)
  with assms chunk_size [OF assms] show ?thesis
    by (auto simp: request_ok_def async_prologue_def Let_def transfer_of_def)
qed

text \<open>A packet's share of the request: the multiples and the parts of \<open>min M S\<close> sectors are those of \<open>M\<close>.\<close>

lemma request_share:
  assumes "0 < S" "0 < M" "j < (S + M - 1) div M" "wr \<longrightarrow> take (512 * S) stored = given"
  shows "int j * int (min M S) = int j * int M" "min (min M S) (S - j * min M S) = min M (S - j * M)"
    "packet_data wr stored S (min M S) j = (if wr then take (512 * min M (S - j * M)) (drop (512 * (j * M)) given) else [])"
proof -
  have N: "packets_needed S (min M S) = (S + M - 1) div M" using assms(1,2) by (rule packets_needed_ceiling)
  have jm: "j * min M S = j * M \<and> min (min M S) (S - j * min M S) = min M (S - j * M)"
    using assms(1-3) N by (auto simp: packets_needed_def min_def split: if_splits)
  then show lba: "int j * int (min M S) = int j * int M"
    and part: "min (min M S) (S - j * min M S) = min M (S - j * M)" by (metis of_nat_mult, metis)
  have "Suc j \<le> (S + M - 1) div M" using assms(3) by simp
  then have "Suc j * M \<le> S + M - 1" using assms(2) by (simp only: less_eq_div_iff_mult_less_eq)
  then have "512 * (j * M) + 512 * min M (S - j * M) \<le> 512 * S" using assms(2) by simp
  then have "take (512 * min M (S - j * M)) (drop (512 * (j * M)) stored) =
      take (512 * min M (S - j * M)) (drop (512 * (j * M)) given)" if wr
    using assms(4) that by (intro take_drop_prefix) auto
  moreover have "min (min M S) (S - j * M) = min M (S - j * M)" using jm by metis
  ultimately show "packet_data wr stored S (min M S) j =
      (if wr then take (512 * min M (S - j * M)) (drop (512 * (j * M)) given) else [])"
    by (simp only: packet_data_def jm [THEN conjunct1] split: if_split) blast
qed

text \<open>C2: a read or write of \<open>S\<close> sectors at a 48-bit address, when \<open>M\<close> sectors fit a packet, becomes
  exactly \<open>S / M\<close> packets, rounded up: the \<open>j\<close>-th has the next tag in turn, the address \<open>j * M\<close> after
  the first, \<open>M\<close> sectors (the last one what is left) and, for a write, exactly its part of the
  caller's buffer; and the controller waits for as many replies as there are packets.\<close>

theorem transfer_split:
  assumes "kernel_ok k" "target_ok (m_target c)" "interfaces_active (m_pAoEService p) (m_target c)"
    "tag_ok p" "currentCommand c = Some x" "request_ok af S M x c"
  shows "\<exists>c' p' items. asyncCommand k af (c, p) = Some (kATANoErr, c', p') \<and>
    m_to_send_queue (m_pAoEService p') = m_to_send_queue (m_pAoEService p) @ items \<and>
    length items = (S + M - 1) div M \<and> m_nReadWriteRepliesRequired c' = int (length items) \<and>
    (\<forall>j < length items. carries (m_target c) (translate_dma (ext_getCommand af x))
      (Suc ((unat (m_nCurrentTag p) + j) mod 1073741822))
      ((ext_lba (cmd_ext x) + int j * int M) mod 2 ^ 48) (min M (S - j * M))
      (if mATAFlagIOWrite x then take (512 * min M (S - j * M)) (drop (512 * (j * M)) (cmd_buffer x)) else [])
      (items ! j))"
proof -
  have req: "0 < S" "0 < M" "unat (SectorCount16 (cmd_ext x)) = S" "cmd_ext_ok x" "is_extended_command x"
      "block_command (translate_dma (ext_getCommand af x))" "mATAFlagIOWrite x \<Longrightarrow> length (cmd_buffer x) = 512 * S"
    using assms(6) by (auto simp: request_ok_def)
  let ?m = "min M S" and ?cmd = "translate_dma (ext_getCommand af x)"
  obtain x1 c1 where pro: "async_prologue af x c = Some (x1, c1)" "transfer_of S ?m x1 c1"
      "x1 = x\<lparr>cmd_chunkSize := cmd_chunkSize x1\<rparr>" "m_target c1 = m_target c"
      "mATAFlagIOWrite x \<longrightarrow> take (512 * S) (doubleBuffer c1) = cmd_buffer x"
    using prologue_ok [OF assms(6)] by blast
  have x1: "mATAFlagIOWrite x1 = mATAFlagIOWrite x" "cmd_ext_ok x1" "is_extended_command x1"
      "ext_getCommand af x1 = ext_getCommand af x" "cmd_ext x1 = cmd_ext x"
    by (subst pro(3), use req(4,5) in \<open>simp add: is_extended_command_def ext_getCommand_def\<close>)+
  let ?x2 = "ext_setCommand af ?cmd x1" and ?c2 = "c1\<lparr>currentCommand := Some (ext_setCommand af ?cmd x1)\<rparr>"
  have ready: "transfer_ready k af ?x2 ?c2 p"
    using assms(1-4) pro(4) x1 extended_stays_extended [OF x1(3), of af] block_not_faked [OF req(6)]
    by (simp add: transfer_ready_def)
  have size: "transfer_of S ?m ?x2 ?c2" using pro(2) by (simp add: transfer_of_def)
  from block_transfer_ext [OF ready size] obtain c3 p3 x3 items where bl:
      "block_transfer k af (int S) ext_count ext_inc ?x2 (?c2, p) = Some (kATANoErr, c3, p3)"
      "transfer_frame (?c2\<lparr>m_nReadWriteRepliesRequired := int (packets_needed S ?m)\<rparr>) c3"
      "m_to_send_queue (m_pAoEService p3) = m_to_send_queue (m_pAoEService p) @ items"
      "length items = packets_needed S ?m"
      "\<forall>j < packets_needed S ?m. carries (m_target ?c2) (ext_getCommand af ?x2)
        (Suc ((unat (m_nCurrentTag p) + j) mod 1073741822))
        ((ext_lba (cmd_ext ?x2) + int j * int ?m) mod 2 ^ 48) (min ?m (S - j * ?m))
        (packet_data (mATAFlagIOWrite ?x2) (doubleBuffer ?c2) S ?m j) (items ! j)"
    by blast
  have "nNumberOfInterfaces (m_target c) \<noteq> 0" using assms(3) by (rule interfaces_active_positive)
  moreover have "uint (SectorCount16 (cmd_ext ?x2)) = int S" using req(3) by (simp add: x1(5) uint_nat)
  ultimately have run: "asyncCommand k af (c, p) = Some (kATANoErr, async_epilogue c3, p3)"
    using assms(5) pro(1) x1 req(6) bl(1) by (simp add: asyncCommand_def async_ext_def)
  have replies: "m_nReadWriteRepliesRequired (async_epilogue c3) = int (length items)"
    using transfer_frameD(3) [OF bl(2)] bl(4)
    by (simp add: async_epilogue_def set_state_def map_command_def split: option.split)
  have N: "packets_needed S ?m = (S + M - 1) div M" using req(1,2) by (rule packets_needed_ceiling)
  have items: "carries (m_target c) ?cmd (Suc ((unat (m_nCurrentTag p) + j) mod 1073741822))
      ((ext_lba (cmd_ext x) + int j * int M) mod 2 ^ 48) (min M (S - j * M))
      (if mATAFlagIOWrite x then take (512 * min M (S - j * M)) (drop (512 * (j * M)) (cmd_buffer x)) else [])
      (items ! j)" if j: "j < length items" for j
  proof -
    note share = request_share [OF req(1,2) j [unfolded bl(4) N] pro(5)]
    have "m_target ?c2 = m_target c" "doubleBuffer ?c2 = doubleBuffer c1" using pro(4) by simp_all
    with bl(5) [rule_format, OF j [unfolded bl(4)]] show ?thesis
      by (simp only: share x1 ext_setCommand_fields)
  qed
  show ?thesis
    using run bl(3,4) replies items N by (intro exI [of _ "async_epilogue c3"] exI [of _ p3] exI [of _ items]) simp
qed

text \<open>A write of five sectors over an MTU of 1500, that is, two sectors per packet.\<close>

definition example_write :: ata_command where
  "example_write = example_command\<lparr>mATAFlagIOWrite := True, mATAFlagIORead := False,
     cmd_tf := (cmd_tf example_command)\<lparr>ataTFCommand := kATAcmdWriteDMAExtended\<rparr>,
     cmd_buffer := replicate 2560 7\<rparr>"

definition example_writer :: controller where
  "example_writer = example_controller\<lparr>currentCommand := Some example_write,
     doubleBuffer := replicate 4096 0, doubleBuffer_size := 4096\<rparr>"

lemma transfer_split_witness:
  "\<exists>c' p' items. asyncCommand example_kernel example_family (example_writer, example_provider) =
     Some (kATANoErr, c', p') \<and> length items = 3 \<and> m_nReadWriteRepliesRequired c' = 3 \<and>
     m_to_send_queue (m_pAoEService p') = items"
proof -
  have target: "target_ok (m_target example_writer)"
    by (simp add: example_writer_def example_controller_def controller_init_def Let_def setProperty_def
        update_interface_property_def removeProperty_def)
  have active: "interfaces_active (m_pAoEService example_provider) (m_target example_writer)" by code_simp
  have tag: "tag_ok example_provider" by (simp add: tag_ok_def example_provider_def)
  have cmd: "currentCommand example_writer = Some example_write" by (simp add: example_writer_def)
  have "m_nMaxSectorsPerTransfer example_writer = 2" by code_simp
  then have req: "request_ok example_family 5 2 example_write example_writer"
    by (simp add: request_ok_def example_write_def example_command_def example_family_def example_writer_def
        is_extended_command_def block_command_def translate_dma_def ext_getCommand_def)
  obtain c' p' items where "asyncCommand example_kernel example_family (example_writer, example_provider) =
        Some (kATANoErr, c', p')"
      "m_to_send_queue (m_pAoEService p') = m_to_send_queue (m_pAoEService example_provider) @ items"
      "length items = (5 + 2 - 1) div 2" "m_nReadWriteRepliesRequired c' = int (length items)"
    using transfer_split [OF kernel_ok_example target active tag cmd req] by blast
  moreover have "m_to_send_queue (m_pAoEService example_provider) = []" by code_simp
  ultimately show ?thesis by (intro exI [of _ c'] exI [of _ p'] exI [of _ items]) simp
qed

definition example_read24 :: ata_command where
  "example_read24 = example_command\<lparr>mATAFlag48BitLBA := False, cmd_byteCount := 1024,
     cmd_tf := (cmd_tf example_command)\<lparr>ataTFCount := 2, ataTFCommand := kATAcmdReadDMA\<rparr>\<rparr>"

text \<open>The 24-bit path computes the number of replies from the low byte of the block address instead of
  from the sector count: a read of two sectors at address 9, which fits one packet, sends a second
  packet for 250 sectors that nobody asked for and then waits for five replies.\<close>

theorem short_address_replies:
  "case asyncCommand example_kernel example_family
      (example_controller\<lparr>currentCommand := Some example_read24\<rparr>, example_provider) of
     Some (err, c, p) \<Rightarrow> m_nReadWriteRepliesRequired c = 5 \<and>
       map (\<lambda>i. case pk_body (ts_mbuf i) of ATA h \<Rightarrow> uint (AOE_ATAHEADER_GETSCNT h) | CFG h \<Rightarrow> 0)
         (m_to_send_queue (m_pAoEService p)) = [2, 250]
   | None \<Rightarrow> False"
  by code_simp

text \<open>\<open>registerAccess\<close> reads a 48-bit address back with the two bytes of each register exchanged: from
  the very header that \<open>issueCommand\<close> writes for an address, it restores registers that are all
  byte-swapped.\<close>

theorem register_readback_swaps:
  "let e' = read_ext_registers (registers_header (ext_registers af x))
              [mATASectorNumValid, mATACylinderLoValid, mATACylinderHiValid] e in
   LBALow16 e' = ntohs (LBALow16 (cmd_ext x)) \<and> LBAMid16 e' = ntohs (LBAMid16 (cmd_ext x)) \<and>
   LBAHigh16 e' = ntohs (LBAHigh16 (cmd_ext x))"
proof -
  have swap: "hi_lo (ucast (w AND 0x00FF)) (ucast (drop_bit 8 w)) = ntohs w" for w :: u16
    unfolding hi_lo_def ntohs_def
    by (rule bit_word_eqI) (auto simp: bit_simps mask_simps dest: bit_imp_le_length)
  show ?thesis
    unfolding Let_def read_ext_registers_def registers_header_fields ext_registers_lba swap by simp
qed

end
