(* ===== verification/Responses.thy ===== *)
theory Responses
  imports Commands
begin

unbundle bit_operations_syntax

text \<open>
  Replies to ATA commands (\<open>AoE/AoEController.cpp\<close>): \<open>ata_response\<close> and what it calls. The data of a
  reply is what follows the ATA header in the first mbuf, and the mbufs chained to it. The header
  pointer that \<open>handle_identify\<close> is given is the one just stored in \<open>m_pReceivedATAHeader\<close>, and it
  changes the data in place.
\<close>

record rx_mbuf =
  rx_mem :: "u8 list"          \<comment> \<open>the first mbuf, from the AoE header on\<close>
  rx_chain :: "u8 list list"

section \<open>Identify data\<close>

definition or_word :: "nat \<Rightarrow> u16 \<Rightarrow> u8 list \<Rightarrow> u8 list" where
  "or_word n v d = d[2 * n := d ! (2 * n) OR ucast v, 2 * n + 1 := d ! (2 * n + 1) OR ucast (drop_bit 8 v)]"

definition identify_checksum :: "u8 list \<Rightarrow> u8 list" where
  "identify_checksum d =
     (let d = d[510 := 0xA5];
          checkSum = sum_list (take 511 d)
      in d[511 := NOT checkSum + 1])"

text \<open>The identify data is at least one sector; a shorter reply is read and written past its end.\<close>

definition fake_dma :: "u8 list \<Rightarrow> u8 list option" where
  "fake_dma d =
     (if length d < 512 then None
      else Some (identify_checksum (or_word 63 0x7 (or_word 49 0x100 (or_word 53 0x0002 d)))))"

definition swap_slice :: "ata_family \<Rightarrow> nat \<Rightarrow> nat \<Rightarrow> u8 list \<Rightarrow> u8 list" where
  "swap_slice af off len d = take off d @ af_swapBytes16 af (take len (drop off d)) @ drop (off + len) d"

text \<open>\<open>remove_target\<close> called by a controller on itself: its own part at once, the removal from the
  provider's list when the operation in progress is over.\<close>

definition remove_self :: "kernel \<Rightarrow> ata_family \<Rightarrow> controller \<times> provider \<Rightarrow> (controller \<times> provider) option" where
  "remove_self k af cp = do {
     let (c, p) = cancel_command af False cp;
     c \<leftarrow> remove_all_interfaces k c;
     let (c, p) = controller_uninit af (c, p);
     Some (c, p\<lparr>removed_targets := removed_targets p @ [nTargetNumber (m_target c)]\<rparr>) }"

definition set_identified_capacity :: "kernel \<Rightarrow> ata_family \<Rightarrow> u8 list \<Rightarrow> controller \<times> provider
    \<Rightarrow> (controller \<times> provider) option" where
  "set_identified_capacity k af d cp =
     (if af_Supports48BitLBA af d then do {
        let (upperLBA, lowerLBA) = af_ExtendedLBASize af d;
        let NumSectors = (push_bit 32 (ucast upperLBA) OR ucast lowerLBA :: u64);
        let (c, p) = cp;
        let c = setProperty IDENT_CAPACITY_PROPERTY (withNumber (uint NumSectors) 64) c;
        (c, p) \<leftarrow> (if m_IdentifiedCapacity c \<noteq> 0 \<and> NumSectors \<noteq> m_IdentifiedCapacity c
                   then remove_self k af (c, p) else Some (c, p));
        Some (c\<lparr>m_IdentifiedCapacity := NumSectors\<rparr>, p) }
      else Some cp)"

definition publish_identify :: "kernel \<Rightarrow> ata_family \<Rightarrow> u8 list \<Rightarrow> controller \<times> provider
    \<Rightarrow> (u8 list \<times> controller \<times> provider) option" where
  "publish_identify k af d cp = do {
     let d = swap_slice af 46 8 d;
     let d = swap_slice af 54 40 d;
     let d = swap_slice af 20 20 d;
     (c, p) \<leftarrow> set_identified_capacity k af d cp;
     let d = d[94 := 0];
     model \<leftarrow> cstr (drop 54 d);
     let c = setProperty IDENT_MODEL_PROPERTY (PString model) c;
     let d = d[40 := 0];
     serial \<leftarrow> cstr (drop 20 d);
     Some (d, setProperty IDENT_SERIAL_PROPERTY (PString serial) c, p) }"

definition set_received_data :: "u8 list \<Rightarrow> controller \<Rightarrow> controller" where
  "set_received_data d c = c\<lparr>m_pReceivedATAHeader := map_option (\<lambda>(h, _). (h, d)) (m_pReceivedATAHeader c)\<rparr>"

definition handle_identify :: "kernel \<Rightarrow> ata_family \<Rightarrow> controller \<times> provider
    \<Rightarrow> (bool \<times> controller \<times> provider) option" where
  "handle_identify k af cp = (case m_pReceivedATAHeader (fst cp) of None \<Rightarrow> None
   | Some (h, d) \<Rightarrow> do {
       let (c, p) = cp;
       d \<leftarrow> fake_dma d;
       (if m_nOutstandingIdentTag c = m_unReceivedTag c then do {
          (d, c, p) \<leftarrow> publish_identify k af d (c\<lparr>m_nOutstandingIdentTag := 0\<rparr>, p);
          Some (False, set_received_data d c, p) }
        else Some (True, set_received_data d c, p)) })"

section \<open>Read data\<close>

text \<open>One copy of \<open>completeDataRead\<close>: at most \<open>len\<close> bytes of a piece of the reply, no more than expected
  in this packet and in the whole transfer. The state of the copy is what is left of both, the
  position, and the command.\<close>

definition copy_piece :: "ata_family \<Rightarrow> u8 list \<Rightarrow> u32 \<Rightarrow> int \<times> u32 \<times> u32 \<times> ata_command
    \<Rightarrow> (int \<times> u32 \<times> u32 \<times> ata_command) option" where
  "copy_piece af data len st =
     (let (nMaxTransferSize, bytesRemaining, xfrPosition, x) = st;
          bufferBytes = min (word_of_int nMaxTransferSize) len;
          bufferBytes = min bytesRemaining bufferBytes
      in if length data < unat bufferBytes then None
         else Some (s32 (nMaxTransferSize - uint bufferBytes), bytesRemaining - bufferBytes,
                xfrPosition + bufferBytes,
                x\<lparr>cmd_buffer := af_writeBytes af xfrPosition (take (unat bufferBytes) data) (cmd_buffer x),
                  cmd_actualTransfer := cmd_actualTransfer x + bufferBytes\<rparr>))"

fun copy_chain :: "ata_family \<Rightarrow> u32 \<Rightarrow> u8 list list \<Rightarrow> int \<times> u32 \<times> u32 \<times> ata_command
    \<Rightarrow> (int \<times> u32 \<times> u32 \<times> ata_command) option" where
  "copy_chain af bufferSize [] st = Some st"
| "copy_chain af bufferSize (mb # mbs) st = do {
     let thisPass = of_nat (length mb);
     st \<leftarrow> copy_piece af mb (if thisPass > bufferSize then bufferSize else thisPass) st;
     copy_chain af bufferSize mbs st }"

text \<open>\<open>completeDataRead\<close>: the result, what it writes to its flag (\<open>None\<close>: nothing), the controller.\<close>

definition completeDataRead :: "ata_family \<Rightarrow> controller \<Rightarrow> (ioreturn \<times> bool option \<times> controller) option" where
  "completeDataRead af c = (case currentCommand c of None \<Rightarrow> None | Some x \<Rightarrow>
     let bytesRemaining = cmd_byteCount x - cmd_actualTransfer x in
     if bytesRemaining < 1 then Some (kATANoErr, None, set_state kATAStatus c)
     else case m_pReceivedATAHeader c of None \<Rightarrow> Some (kATADeviceError, None, set_state kATAStatus c)
     | Some (h, data) \<Rightarrow>
       if mATAFlagIOWrite x then Some (IOReturnCode (- 1), None, c)
       else if af_checkTimeout af c then Some (kATATimeoutErr, None, set_state kATAStatus c)
       else do {
         let nMaxTransferSize = s32 (m_nMaxSectorsPerTransfer c * kATADefaultSectorSize);
         let xfrPosition = (m_unReceivedTag c - m_unReadBaseTag c) * cmd_chunkSize x;
         let thisPass = min bytesRemaining (cmd_chunkSize x);
         let st = (nMaxTransferSize, bytesRemaining, xfrPosition, x);
         st \<leftarrow> (if thisPass > 0 then copy_piece af data (m_unReceivedATADataSize c) st else Some st);
         (_, _, _, x) \<leftarrow> copy_chain af (doubleBuffer_size c) (m_ReceivedMBufCont c) st;
         let c = c\<lparr>currentCommand := Some x, m_ReceivedMBufCont := []\<rparr>;
         Some (if m_nReadWriteRepliesRequired c \<noteq> 0
               then (kATANoErr, Some False, set_state kATADataTx c)
               else (kATANoErr, Some True, set_state kATAStatus c)) })"

definition asyncData :: "ata_family \<Rightarrow> controller \<Rightarrow> (ioreturn \<times> controller) option" where
  "asyncData af c = map_option (\<lambda>(err, _, c). (err, c)) (completeDataRead af c)"

section \<open>Replies\<close>

definition handleDeviceInterrupt :: "ata_family \<Rightarrow> controller \<times> provider
    \<Rightarrow> (ioreturn \<times> controller \<times> provider) option" where
  "handleDeviceInterrupt af cp =
     (if currentCommand (fst cp) = None then Some (kATADevIntNoCmd, cp) else af_asyncIO af cp)"

text \<open>A reply to a write: the status of the first one is kept for later, with its error if it has one.\<close>

definition write_reply :: "aoe_atahdr \<Rightarrow> controller \<Rightarrow> bool \<times> controller" where
  "write_reply h c =
     (let c = c\<lparr>m_nReadWriteRepliesRequired := s32 (m_nReadWriteRepliesRequired c - 1)\<rparr> in
      if m_nReadWriteRepliesRequired c \<noteq> 0 then
        if \<not> (m_PreviousWriteStatus c \<noteq> 0 \<or> m_PreviousWriteError c \<noteq> 0) then
          let c = c\<lparr>m_PreviousWriteStatus := AOE_ATAHEADER_GETSTAT h\<rparr> in
          (False, if m_PreviousWriteStatus c AND mATAError \<noteq> 0
                  then c\<lparr>m_PreviousWriteError := AOE_ATAHEADER_GETERR h\<rparr> else c)
        else (False, c)
      else (True, c))"

definition read_reply :: "ata_family \<Rightarrow> controller \<Rightarrow> (bool \<times> controller) option" where
  "read_reply af c = do {
     let c = c\<lparr>m_nReadWriteRepliesRequired := s32 (m_nReadWriteRepliesRequired c - 1)\<rparr>;
     (_, fInterrupt, c) \<leftarrow> completeDataRead af c;
     Some (case fInterrupt of Some b \<Rightarrow> b | None \<Rightarrow> True, c) }"

text \<open>\<open>getStatus\<close> of the command reads the register shared with its command code.\<close>

definition command_reply :: "kernel \<Rightarrow> ata_family \<Rightarrow> aoe_atahdr \<Rightarrow> ata_command \<Rightarrow> controller \<times> provider
    \<Rightarrow> (bool \<times> controller \<times> provider) option" where
  "command_reply k af h x cp =
     (let (c, p) = cp; PrevCommand = translate_dma (ataTFCommand (cmd_tf x)) in
      if PrevCommand = kATAcmdDriveIdentify then handle_identify k af cp
      else if PrevCommand = kATAcmdWrite \<or> PrevCommand = kATAcmdWriteExtended
      then let (f, c) = write_reply h c in Some (f, c, p)
      else if PrevCommand = kATAcmdRead \<or> PrevCommand = kATAcmdReadExtended
      then map_option (\<lambda>(f, c). (f, c, p)) (read_reply af c)
      else Some (True, cp))"

definition store_received :: "aoe_atahdr \<times> u8 list \<Rightarrow> rx_mbuf option \<Rightarrow> u32 \<Rightarrow> controller \<Rightarrow> controller" where
  "store_received rcv pMBufData Tag c =
     c\<lparr>m_ReceivedMBufCont := (case pMBufData of Some m \<Rightarrow> rx_chain m | None \<Rightarrow> []),
       m_pReceivedATAHeader := Some rcv,
       m_unReceivedATADataSize := (case pMBufData of Some m \<Rightarrow> of_nat (length (rx_mem m)) - 6 - 16 | None \<Rightarrow> 0),
       m_unReceivedTag := Tag\<rparr>"

definition ata_response :: "kernel \<Rightarrow> ata_family \<Rightarrow> aoe_atahdr \<times> u8 list \<Rightarrow> rx_mbuf option \<Rightarrow> u32
    \<Rightarrow> controller \<times> provider \<Rightarrow> (ioreturn \<times> controller \<times> provider) option" where
  "ata_response k af rcv pMBufData Tag cp = do {
     let (c, p) = cp;
     let c = store_received rcv pMBufData Tag c;
     (fReady, c, p) \<leftarrow>
       (case currentCommand c of
          Some x \<Rightarrow> command_reply k af (fst rcv) x (c, p)
        | None \<Rightarrow>
            if m_nOutstandingIdentTag c = m_unReceivedTag c then do {
              (_, c, p) \<leftarrow> handle_identify k af (c, p);
              Some (False, c\<lparr>m_nOutstandingIdentTag := 0\<rparr>, p) }
            else Some (False, c, p));
     if fReady then handleDeviceInterrupt af (c, p) else Some (kATANoErr, c, p) }"

section \<open>Reassembling a read\<close>

text \<open>What the driver relies on in a memory descriptor: a write inside the buffer replaces exactly those
  bytes. And no command times out meanwhile.\<close>

definition descriptor_ok :: "ata_family \<Rightarrow> bool" where
  "descriptor_ok af \<longleftrightarrow>
     (\<forall>off bs buf. unat off + length bs \<le> length buf \<longrightarrow> af_writeBytes af off bs buf = write_at off bs buf) \<and>
     (\<forall>c. \<not> af_checkTimeout af c)"

lemma length_write_at [simp]: "unat off + length bs \<le> length buf \<Longrightarrow> length (write_at off bs buf) = length buf"
  by (simp add: write_at_def)

lemma write_at_append:
  assumes "unat off + length a + length b \<le> length buf" "length buf < 2 ^ 32"
  shows "write_at (off + of_nat (length a)) b (write_at off a buf) = write_at off (a @ b) buf"
proof -
  have "unat (off + of_nat (length a)) = unat off + length a"
    using assms by (simp add: unat_word_ariths unsigned_of_nat take_bit_nat_eq_self)
  then show ?thesis using assms(1) by (simp add: write_at_def add.assoc add.commute [of "length b"])
qed

lemma nth_write_at:
  assumes "unat off + length bs \<le> length buf" "i < length buf"
  shows "write_at off bs buf ! i =
    (if unat off \<le> i \<and> i < unat off + length bs then bs ! (i - unat off) else buf ! i)"
  using assms by (auto simp: write_at_def nth_append)

text \<open>The state of a copy after \<open>bs\<close> more bytes, when there is room for them.\<close>

definition copied :: "u8 list \<Rightarrow> nat \<times> u32 \<times> u32 \<times> ata_command \<Rightarrow> int \<times> u32 \<times> u32 \<times> ata_command" where
  "copied bs st = (case st of (room, rem, pos, x) \<Rightarrow>
     (int (room - length bs), rem - of_nat (length bs), pos + of_nat (length bs),
      x\<lparr>cmd_buffer := write_at pos bs (cmd_buffer x),
        cmd_actualTransfer := cmd_actualTransfer x + of_nat (length bs)\<rparr>))"

definition copy_room :: "nat \<Rightarrow> nat \<times> u32 \<times> u32 \<times> ata_command \<Rightarrow> bool" where
  "copy_room n st = (case st of (room, rem, pos, x) \<Rightarrow>
     n \<le> room \<and> room < 2 ^ 31 \<and> n \<le> unat rem \<and> unat pos + n \<le> length (cmd_buffer x) \<and>
     length (cmd_buffer x) < 2 ^ 32)"

lemma copy_piece_whole:
  assumes "descriptor_ok af" "copy_room (length d) (room, rem, pos, x)"
  shows "copy_piece af d (of_nat (length d)) (int room, rem, pos, x) = Some (copied d (room, rem, pos, x))"
proof -
  have r: "length d \<le> room" "room < 2 ^ 31" "length d \<le> unat rem" "unat pos + length d \<le> length (cmd_buffer x)"
    using assms(2) by (auto simp: copy_room_def)
  have u: "unat (of_nat (length d) :: u32) = length d"
    using r(1,2) by (simp add: unsigned_of_nat take_bit_nat_eq_self)
  have "(of_nat (length d) :: u32) \<le> of_nat room"
    using r(1,2) u by (simp add: word_le_nat_alt unsigned_of_nat take_bit_nat_eq_self)
  moreover have "(of_nat (length d) :: u32) \<le> rem" using r(3) u by (simp add: word_le_nat_alt)
  ultimately have min: "min rem (min (of_nat room) (of_nat (length d))) = (of_nat (length d) :: u32)"
    by (simp add: min_def)
  have "uint (of_nat (length d) :: u32) = int (length d)" by (metis u uint_nat)
  then have "s32 (int room - uint (of_nat (length d) :: u32)) = int (room - length d)"
    using r(1,2) by (simp add: s32_in_range of_nat_diff)
  moreover have "af_writeBytes af pos d (cmd_buffer x) = write_at pos d (cmd_buffer x)"
    using assms(1) r(4) by (simp add: descriptor_ok_def)
  ultimately show ?thesis
    by (simp add: copy_piece_def Let_def min u copied_def)
qed

lemma copied_chain:
  assumes "descriptor_ok af" "\<forall>mb \<in> set mbs. of_nat (length mb) \<le> bufferSize"
    "copy_room (length d + length (concat mbs)) (room, rem, pos, x)"
  shows "copy_chain af bufferSize mbs (copied d (room, rem, pos, x)) =
    Some (copied (d @ concat mbs) (room, rem, pos, x))"
  using assms(2,3)
proof (induction mbs arbitrary: d)
  case Nil
  then show ?case by simp
next
  case (Cons mb mbs)
  let ?n = "length d"
  have r: "?n + (length mb + length (concat mbs)) \<le> room" "room < 2 ^ 31" "unat rem \<ge> ?n + (length mb + length (concat mbs))"
      "unat pos + (?n + (length mb + length (concat mbs))) \<le> length (cmd_buffer x)" "length (cmd_buffer x) < 2 ^ 32"
    using Cons.prems(2) by (auto simp: copy_room_def)
  let ?y = "x\<lparr>cmd_buffer := write_at pos d (cmd_buffer x),
      cmd_actualTransfer := cmd_actualTransfer x + of_nat ?n\<rparr>"
  have u: "unat (of_nat ?n :: u32) = ?n" using r(1,2) by (simp add: unsigned_of_nat take_bit_nat_eq_self)
  have "unat (pos + of_nat ?n) = unat pos + ?n" using r(4,5) u by (simp add: unat_word_ariths)
  moreover have "unat (rem - of_nat ?n) = unat rem - ?n" using r(3) u by (simp add: unat_sub word_le_nat_alt)
  ultimately have "copy_room (length mb) (room - ?n, rem - of_nat ?n, pos + of_nat ?n, ?y)"
    using r by (auto simp: copy_room_def)
  from copy_piece_whole [OF assms(1) this]
  have "copy_piece af mb (of_nat (length mb)) (copied d (room, rem, pos, x)) =
      Some (copied mb (room - ?n, rem - of_nat ?n, pos + of_nat ?n, ?y))"
    by (simp add: copied_def)
  moreover have "copied mb (room - ?n, rem - of_nat ?n, pos + of_nat ?n, ?y) = copied (d @ mb) (room, rem, pos, x)"
    using r by (simp add: copied_def write_at_append algebra_simps)
  moreover have "\<not> of_nat (length mb) > bufferSize" using Cons.prems(1) by (simp add: not_less)
  moreover have "copy_chain af bufferSize mbs (copied (d @ mb) (room, rem, pos, x)) =
      Some (copied ((d @ mb) @ concat mbs) (room, rem, pos, x))"
    using Cons.prems by (intro Cons.IH) (simp_all add: add.assoc)
  ultimately show ?case by (simp add: Let_def)
qed

text \<open>The part of the data that packet \<open>j\<close> of a transfer carries, and the number of packets.\<close>

definition piece_of :: "nat \<Rightarrow> u8 list \<Rightarrow> nat \<Rightarrow> u8 list" where
  "piece_of chunk data j = take chunk (drop (j * chunk) data)"

definition pieces :: "nat \<Rightarrow> u8 list \<Rightarrow> nat" where
  "pieces chunk data = (length data + chunk - 1) div chunk"

lemma pieces_concat: "concat (map (piece_of chunk b) [0..<n]) = take (n * chunk) b"
proof (induction n)
  case (Suc n)
  then show ?case by (simp add: piece_of_def add.commute [of chunk] take_add)
qed simp

lemma pieces_length: "(\<Sum>j < n. length (piece_of chunk b j)) = min (length b) (n * chunk)"
proof -
  have "(\<Sum>j < n. length (piece_of chunk b j)) = length (concat (map (piece_of chunk b) [0..<n]))"
    by (simp add: length_concat o_def interv_sum_list_conv_sum_set_nat atLeast0LessThan)
  then show ?thesis by (simp add: pieces_concat)
qed

lemma pieces_cover: "0 < chunk \<Longrightarrow> length b \<le> pieces chunk b * chunk"
  using dividend_less_div_times [of chunk "length b + chunk - 1"] by (simp add: pieces_def)

lemma piece_in_range:
  assumes "j < pieces chunk b"
  shows "j * chunk < length b" "0 < chunk"
proof -
  show c: "0 < chunk" using assms by (cases chunk) (auto simp: pieces_def)
  have "Suc j * chunk \<le> length b + chunk - 1"
    using assms c by (metis Suc_leI less_eq_div_iff_mult_less_eq pieces_def)
  then show "j * chunk < length b" using c by simp
qed

lemma same_pieces:
  assumes "0 < chunk" "length a = length b" "\<forall>j < pieces chunk b. piece_of chunk a j = piece_of chunk b j"
  shows "a = b"
proof -
  have "take (pieces chunk b * chunk) a = take (pieces chunk b * chunk) b"
    using assms(3) by (auto simp flip: pieces_concat intro!: arg_cong [of _ _ concat])
  then show ?thesis using pieces_cover [OF assms(1), of b] assms(2) by simp
qed

lemma div_eq_range: "0 < c \<Longrightarrow> n div c = j \<longleftrightarrow> j * c \<le> n \<and> n < j * c + c" for c :: nat
  by (metis add.commute div_nat_eqI dividend_less_div_times div_times_less_eq_dividend mult.commute mult_Suc_right)

lemma piece_of_write_at:
  assumes "j < pieces chunk data" "length buf = length data" "length data < 2 ^ 32" "unat pos = j * chunk"
  shows "length (piece_of chunk data j) + unat pos \<le> length buf"
    "piece_of chunk (write_at pos (piece_of chunk data j) buf) i =
      (if i = j then piece_of chunk data j else piece_of chunk buf i)"
proof -
  note r = piece_in_range [OF assms(1)]
  show fits: "length (piece_of chunk data j) + unat pos \<le> length buf"
    using assms(2,4) r by (simp add: piece_of_def)
  have nth: "write_at pos (piece_of chunk data j) buf ! n =
      (if n div chunk = j then data ! n else buf ! n)" if "n < length buf" for n
  proof -
    have "unat pos \<le> n \<and> n < unat pos + length (piece_of chunk data j) \<longleftrightarrow> n div chunk = j"
      using that assms(2,4) r by (auto simp: piece_of_def div_eq_range)
    then show ?thesis using that fits assms(2,4) r
      by (auto simp: nth_write_at piece_of_def)
  qed
  have len: "length (write_at pos (piece_of chunk data j) buf) = length buf" using fits by simp
  show "piece_of chunk (write_at pos (piece_of chunk data j) buf) i =
      (if i = j then piece_of chunk data j else piece_of chunk buf i)"
  proof (rule nth_equalityI)
    fix n assume "n < length (piece_of chunk (write_at pos (piece_of chunk data j) buf) i)"
    then have n: "n < chunk" "i * chunk + n < length buf" using len by (auto simp: piece_of_def)
    moreover have "(i * chunk + n) div chunk = i" using n(1) by simp
    ultimately show "piece_of chunk (write_at pos (piece_of chunk data j) buf) i ! n =
        (if i = j then piece_of chunk data j else piece_of chunk buf i) ! n"
      using nth [OF n(2)] len assms(2) by (auto simp: piece_of_def)
  qed (use len assms(2) in \<open>auto simp: piece_of_def\<close>)
qed

text \<open>A reply with its pieces spread over any chain of mbufs, each no larger than the double buffer.\<close>

type_synonym reply = "(aoe_atahdr \<times> u8 list) \<times> rx_mbuf \<times> u32"

definition reply_for :: "nat \<Rightarrow> u8 list \<Rightarrow> u32 \<Rightarrow> u32 \<Rightarrow> nat \<Rightarrow> reply \<Rightarrow> bool" where
  "reply_for chunk data bufferSize base j r = (case r of ((h, d), mb, Tag) \<Rightarrow>
     Tag = base + of_nat j \<and> length (rx_mem mb) = 22 + length d \<and>
     d @ concat (rx_chain mb) = piece_of chunk data j \<and>
     (\<forall>m \<in> set (rx_chain mb). of_nat (length m) \<le> bufferSize))"

text \<open>The state of a read of which the packets \<open>J\<close> have been answered.\<close>

definition read_command :: "ata_command \<Rightarrow> bool" where
  "read_command x \<longleftrightarrow> \<not> mATAFlagIOWrite x \<and>
     translate_dma (ataTFCommand (cmd_tf x)) \<in> {kATAcmdRead, kATAcmdReadExtended}"

definition reading :: "nat \<Rightarrow> u8 list \<Rightarrow> u32 \<Rightarrow> nat set \<Rightarrow> controller \<Rightarrow> bool" where
  "reading chunk data base J c = (case currentCommand c of None \<Rightarrow> False | Some x \<Rightarrow>
     read_command x \<and> 0 < chunk \<and> length data < 2 ^ 31 \<and> J \<subseteq> {..<pieces chunk data} \<and>
     cmd_byteCount x = of_nat (length data) \<and> cmd_chunkSize x = of_nat chunk \<and>
     int chunk \<le> m_nMaxSectorsPerTransfer c * kATADefaultSectorSize \<and>
     m_nMaxSectorsPerTransfer c * kATADefaultSectorSize < 2 ^ 31 \<and>
     cmd_actualTransfer x = of_nat (\<Sum>j \<in> J. length (piece_of chunk data j)) \<and>
     length (cmd_buffer x) = length data \<and>
     (\<forall>j \<in> J. piece_of chunk (cmd_buffer x) j = piece_of chunk data j) \<and>
     m_unReadBaseTag c = base \<and>
     m_nReadWriteRepliesRequired c = int (pieces chunk data) - int (card J))"

lemma sum_pieces:
  assumes "J \<subseteq> {..<pieces chunk data}"
  shows "(\<Sum>j \<in> J. length (piece_of chunk data j)) \<le> length data"
proof -
  have "(\<Sum>j \<in> J. length (piece_of chunk data j)) \<le> (\<Sum>j < pieces chunk data. length (piece_of chunk data j))"
    using assms by (intro sum_mono2) auto
  then show ?thesis by (simp add: pieces_length)
qed

lemma pieces_bound: "pieces chunk data \<le> length data"
proof (cases "chunk = 0 \<or> data = []")
  case True
  then show ?thesis by (cases chunk) (auto simp: pieces_def)
next
  case False
  then have "length data + chunk - 1 < (length data + 1) * chunk"
    by (cases chunk; cases "length data") (auto simp: algebra_simps)
  then have "pieces chunk data < length data + 1"
    using False by (simp add: pieces_def less_mult_imp_div_less)
  then show ?thesis by simp
qed

lemma min_piece: "0 < length (piece_of chunk data j) \<Longrightarrow> length (piece_of chunk data j) \<le> chunk"
  by (simp add: piece_of_def)

lemma unat_small: "n < 2 ^ 32 \<Longrightarrow> unat (of_nat n :: u32) = n"
  by (simp add: unsigned_of_nat take_bit_nat_eq_self)

text \<open>One reply of the read: what \<open>completeDataRead\<close> makes of it.\<close>

lemma complete_read:
  assumes "descriptor_ok af" "reading chunk data base J c" "j < pieces chunk data" "j \<notin> J"
    "reply_for chunk data (doubleBuffer_size c) base j (hdr, mb, Tag)"
    "c1 = (store_received hdr (Some mb) Tag c)\<lparr>m_nReadWriteRepliesRequired :=
       m_nReadWriteRepliesRequired c - 1\<rparr>"
  shows "\<exists>c'. completeDataRead af c1 = Some (kATANoErr, Some (insert j J = {..<pieces chunk data}), c') \<and>
    reading chunk data base (insert j J) c' \<and> doubleBuffer_size c' = doubleBuffer_size c \<and>
    map_option cmd_state (currentCommand c') =
      Some (if insert j J = {..<pieces chunk data} then kATAStatus else kATADataTx)"
proof -
  obtain h d where hdr: "hdr = (h, d)" by (cases hdr)
  obtain x where x: "currentCommand c = Some x" "read_command x" "cmd_byteCount x = of_nat (length data)"
      "cmd_chunkSize x = of_nat chunk" "cmd_actualTransfer x = of_nat (\<Sum>j \<in> J. length (piece_of chunk data j))"
      "length (cmd_buffer x) = length data" "\<forall>j \<in> J. piece_of chunk (cmd_buffer x) j = piece_of chunk data j"
    and c: "0 < chunk" "length data < 2 ^ 31" "J \<subseteq> {..<pieces chunk data}"
      "int chunk \<le> m_nMaxSectorsPerTransfer c * kATADefaultSectorSize"
      "m_nMaxSectorsPerTransfer c * kATADefaultSectorSize < 2 ^ 31" "m_unReadBaseTag c = base"
      "m_nReadWriteRepliesRequired c = int (pieces chunk data) - int (card J)"
    using assms(2) by (auto simp: reading_def split: option.splits)
  have r: "Tag = base + of_nat j" "length (rx_mem mb) = 22 + length d"
      "d @ concat (rx_chain mb) = piece_of chunk data j"
      "\<forall>m \<in> set (rx_chain mb). of_nat (length m) \<le> doubleBuffer_size c"
    using assms(5) by (auto simp: reply_for_def hdr)
  let ?p = "piece_of chunk data j" and ?sum = "\<Sum>j \<in> J. length (piece_of chunk data j)"
  have fin: "finite J" using c(3) finite_subset by blast
  have "?sum + length ?p = (\<Sum>j \<in> insert j J. length (piece_of chunk data j))"
    using assms(4) fin by simp
  also have "\<dots> \<le> length data" using c(3) assms(3) by (intro sum_pieces) auto
  finally have sum: "?sum + length ?p \<le> length data" .
  have len: "0 < length ?p" "length ?p \<le> chunk"
    using piece_in_range [OF assms(3)] by (auto simp: piece_of_def)
  define room where "room = nat (m_nMaxSectorsPerTransfer c * kATADefaultSectorSize)"
  have room: "s32 (m_nMaxSectorsPerTransfer c * kATADefaultSectorSize) = int room" "chunk \<le> room" "room < 2 ^ 31"
    using c(1,4,5) by (auto simp: room_def s32_in_range)
  define rem where "rem = (of_nat (length data - ?sum) :: u32)"
  have "unat rem = length data - ?sum" using c(2) unfolding rem_def by (intro unat_small) simp
  moreover have "cmd_byteCount x - cmd_actualTransfer x = rem"
    using x(3,5) sum by (simp add: rem_def of_nat_diff del: of_nat_sum)
  ultimately have rem: "cmd_byteCount x - cmd_actualTransfer x = rem" "unat rem = length data - ?sum" by simp_all
  have rem1: "\<not> rem < 1"
  proof -
    have "0 < length data - ?sum" using sum len(1) by linarith
    then show ?thesis using rem(2) by (simp add: word_less_nat_alt)
  qed
  define pos where "pos = (of_nat (j * chunk) :: u32)"
  have pos: "unat pos = j * chunk"
    using piece_in_range [OF assms(3)] c(2) by (simp add: pos_def unat_small del: of_nat_mult)
  have pos': "(Tag - base) * cmd_chunkSize x = pos" using r(1) x(4) by (simp add: pos_def)
  note w = piece_of_write_at [OF assms(3) x(6), of pos] 
  have cr: "copy_room (length ?p) (room, rem, pos, x)"
    using room len rem(2) sum w(1) pos c(2) x(6) by (simp add: copy_room_def)
  then have cr': "copy_room (length d) (room, rem, pos, x)"
    using arg_cong [OF r(3), of length] by (auto simp: copy_room_def)
  have data: "(of_nat (length (rx_mem mb)) :: u32) - 6 - 16 = of_nat (length d)" using r(2) by simp
  have first: "copy_piece af d (of_nat (length d)) (int room, rem, pos, x) = Some (copied d (room, rem, pos, x))"
    using assms(1) cr' by (rule copy_piece_whole)
  have chain: "copy_chain af (doubleBuffer_size c) (rx_chain mb) (copied d (room, rem, pos, x)) =
      Some (copied ?p (room, rem, pos, x))"
  proof -
    have "length d + length (concat (rx_chain mb)) = length ?p" by (metis length_append r(3))
    then show ?thesis using copied_chain [OF assms(1) r(4), of d room rem pos x] cr r(3) by metis
  qed
  let ?y = "x\<lparr>cmd_buffer := write_at pos ?p (cmd_buffer x),
      cmd_actualTransfer := cmd_actualTransfer x + of_nat (length ?p)\<rparr>"
  let ?st = "if m_nReadWriteRepliesRequired c - 1 \<noteq> 0 then kATADataTx else kATAStatus"
  let ?c' = "set_state ?st (c1\<lparr>currentCommand := Some ?y, m_ReceivedMBufCont := []\<rparr>)"
  have flags: "\<not> mATAFlagIOWrite x" using x(2) by (simp add: read_command_def)
  have "chunk < 2 ^ 32" using c(4,5) by simp
  then have "cmd_chunkSize x \<noteq> 0" using x(4) c(1) unat_small [of chunk] by auto
  then have pass: "0 < min rem (cmd_chunkSize x)"
    using rem1 by (auto simp: min_def word_less_nat_alt unat_gt_0)
  have c1: "currentCommand c1 = Some x" "m_pReceivedATAHeader c1 = Some (h, d)"
      "m_nMaxSectorsPerTransfer c1 = m_nMaxSectorsPerTransfer c" "m_unReceivedTag c1 = Tag"
      "m_unReadBaseTag c1 = base" "m_unReceivedATADataSize c1 = of_nat (length d)"
      "m_ReceivedMBufCont c1 = rx_chain mb" "doubleBuffer_size c1 = doubleBuffer_size c"
      "m_nReadWriteRepliesRequired c1 = m_nReadWriteRepliesRequired c - 1" "\<not> af_checkTimeout af c1"
    using assms(1) x(1) c(6) data by (simp_all add: assms(6) store_received_def hdr descriptor_ok_def)
  have cp: "copied ?p (room, rem, pos, x) =
      (int (room - length ?p), rem - of_nat (length ?p), pos + of_nat (length ?p), ?y)"
    by (simp add: copied_def)
  have run: "completeDataRead af c1 =
      Some (kATANoErr, Some (\<not> m_nReadWriteRepliesRequired c - 1 \<noteq> 0), ?c')"
    unfolding completeDataRead_def c1 option.case Let_def rem(1) pos' room(1)
    by (simp only: rem1 flags pass first chain cp c1 if_False if_True Option.bind_lunit case_prod_conv)
      (simp add: c1(9))
  have card: "m_nReadWriteRepliesRequired c - 1 \<noteq> 0 \<longleftrightarrow> insert j J \<noteq> {..<pieces chunk data}"
  proof -
    have "insert j J = {..<pieces chunk data} \<longleftrightarrow> card (insert j J) = pieces chunk data"
      using card_subset_eq [of "{..<pieces chunk data}" "insert j J"] c(3) assms(3) by auto
    also have "card (insert j J) = card J + 1" using assms(4) fin by simp
    finally have e: "insert j J = {..<pieces chunk data} \<longleftrightarrow> card J + 1 = pieces chunk data" .
    show ?thesis unfolding c(7) e by arith
  qed
  have new: "\<forall>i \<in> insert j J. piece_of chunk (cmd_buffer ?y) i = piece_of chunk data i"
      "length (cmd_buffer ?y) = length data"
    using w(2) [of _] x(6,7) w(1) c(2) pos by (auto simp: add.commute)
  have "cmd_actualTransfer ?y = of_nat (\<Sum>j \<in> insert j J. length (piece_of chunk data j))"
    using x(5) fin assms(4) by simp
  moreover have "read_command ?y" using x(2) by (simp add: read_command_def)
  ultimately have "reading chunk data base (insert j J) ?c'"
    using new x(3,4) c assms(3,4,6) fin unfolding reading_def
    by (simp add: set_state_def map_command_def store_received_def read_command_def)
  moreover have "map_option cmd_state (currentCommand ?c') = Some ?st" "doubleBuffer_size ?c' = doubleBuffer_size c"
    using assms(6) by (simp_all add: set_state_def map_command_def store_received_def)
  moreover have "?st = (if insert j J = {..<pieces chunk data} then kATAStatus else kATADataTx)"
    by (simp only: card) simp
  ultimately show ?thesis using run card by (intro exI [of _ ?c']) (simp only: simp_thms)
qed

lemma read_response:
  assumes "descriptor_ok af" "reading chunk data base J c" "j < pieces chunk data" "j \<notin> J"
    "reply_for chunk data (doubleBuffer_size c) base j (hdr, mb, Tag)"
  shows "\<exists>c'. ata_response k af hdr (Some mb) Tag (c, p) =
      (if insert j J = {..<pieces chunk data} then handleDeviceInterrupt af (c', p)
       else Some (kATANoErr, c', p)) \<and>
    reading chunk data base (insert j J) c' \<and> doubleBuffer_size c' = doubleBuffer_size c \<and>
    (insert j J = {..<pieces chunk data} \<longrightarrow> map_option cmd_state (currentCommand c') = Some kATAStatus)"
proof -
  obtain x where x: "currentCommand c = Some x" "read_command x"
    using assms(2) by (auto simp: reading_def split: option.splits)
  have cmd: "translate_dma (ataTFCommand (cmd_tf x)) = kATAcmdRead \<or>
      translate_dma (ataTFCommand (cmd_tf x)) = kATAcmdReadExtended"
    using x(2) by (simp add: read_command_def)
  have "m_nReadWriteRepliesRequired c = int (pieces chunk data) - int (card J)" "card J \<le> pieces chunk data"
      "length data < 2 ^ 31"
    using assms(2) card_mono [of "{..<pieces chunk data}" J]
    by (auto simp: reading_def split: option.splits)
  then have s32: "s32 (m_nReadWriteRepliesRequired c - 1) = m_nReadWriteRepliesRequired c - 1"
    using pieces_bound [of chunk data] by (intro s32_in_range) simp_all
  let ?c1 = "(store_received hdr (Some mb) Tag c)\<lparr>m_nReadWriteRepliesRequired := m_nReadWriteRepliesRequired c - 1\<rparr>"
  obtain c' where c': "completeDataRead af ?c1 = Some (kATANoErr, Some (insert j J = {..<pieces chunk data}), c')"
      "reading chunk data base (insert j J) c'" "doubleBuffer_size c' = doubleBuffer_size c"
      "map_option cmd_state (currentCommand c') =
        Some (if insert j J = {..<pieces chunk data} then kATAStatus else kATADataTx)"
    using complete_read [OF assms refl] by blast
  have sel: "m_nReadWriteRepliesRequired (store_received hdr (Some mb) Tag c) = m_nReadWriteRepliesRequired c"
      "currentCommand (store_received hdr (Some mb) Tag c) = Some x"
    using x(1) by (simp_all add: store_received_def)
  have "read_reply af (store_received hdr (Some mb) Tag c) = Some (insert j J = {..<pieces chunk data}, c')"
    unfolding read_reply_def Let_def sel s32 c'(1) by simp
  then have "command_reply k af (fst hdr) x (store_received hdr (Some mb) Tag c, p) =
      Some (insert j J = {..<pieces chunk data}, c', p)"
    using cmd by (auto simp: command_reply_def Let_def)
  then have "ata_response k af hdr (Some mb) Tag (c, p) =
      (if insert j J = {..<pieces chunk data} then handleDeviceInterrupt af (c', p) else Some (kATANoErr, c', p))"
    by (simp add: ata_response_def Let_def sel)
  with c'(2-4) show ?thesis by (intro exI [of _ c'] conjI impI) simp_all
qed

text \<open>Replies delivered one after the other.\<close>

fun receive_replies :: "kernel \<Rightarrow> ata_family \<Rightarrow> reply list \<Rightarrow> controller \<times> provider
    \<Rightarrow> (controller \<times> provider) option" where
  "receive_replies k af [] cp = Some cp"
| "receive_replies k af ((hdr, mb, Tag) # rs) cp = do {
     (err, cp) \<leftarrow> ata_response k af hdr (Some mb) Tag cp;
     receive_replies k af rs cp }"

lemma receive_rest:
  assumes "descriptor_ok af" "reading chunk data base J c" "distinct js" "js \<noteq> []" "set js \<inter> J = {}"
    "set js \<union> J = {..<pieces chunk data}" "length rs = length js"
    "\<forall>i < length js. reply_for chunk data (doubleBuffer_size c) base (js ! i) (rs ! i)"
  shows "\<exists>c'. receive_replies k af rs (c, p) = map_option snd (handleDeviceInterrupt af (c', p)) \<and>
    reading chunk data base {..<pieces chunk data} c' \<and>
    map_option cmd_state (currentCommand c') = Some kATAStatus"
  using assms(2-)
proof (induction js arbitrary: rs J c)
  case (Cons j js)
  obtain hdr mb Tag rs' where rs: "rs = (hdr, mb, Tag) # rs'"
    using Cons.prems(6) by (cases rs) auto
  have j: "j < pieces chunk data" "j \<notin> J" using Cons.prems(4,5) by auto
  have r: "reply_for chunk data (doubleBuffer_size c) base j (hdr, mb, Tag)"
    using Cons.prems(7) rs by auto
  obtain c' where c': "ata_response k af hdr (Some mb) Tag (c, p) =
        (if insert j J = {..<pieces chunk data} then handleDeviceInterrupt af (c', p)
         else Some (kATANoErr, c', p))"
      "reading chunk data base (insert j J) c'" "doubleBuffer_size c' = doubleBuffer_size c"
      "insert j J = {..<pieces chunk data} \<longrightarrow> map_option cmd_state (currentCommand c') = Some kATAStatus"
    using read_response [OF assms(1) Cons.prems(1) j r] by blast
  show ?case
  proof (cases "js = []")
    case True
    then have all: "insert j J = {..<pieces chunk data}" using Cons.prems(5) by simp
    have "rs' = []" using Cons.prems(6) rs True by simp
    moreover have "ata_response k af hdr (Some mb) Tag (c, p) = handleDeviceInterrupt af (c', p)"
      unfolding c'(1) by (simp only: all simp_thms if_True)
    ultimately have "receive_replies k af rs (c, p) = map_option snd (handleDeviceInterrupt af (c', p))"
      unfolding rs by (cases "handleDeviceInterrupt af (c', p)") auto
    then show ?thesis using c'(2,4) unfolding all by blast
  next
    case False
    then obtain i where "i \<in> set js" by (cases js) auto
    then have "i \<notin> insert j J" "i \<in> {..<pieces chunk data}"
      using Cons.prems(2,4) by (auto simp flip: Cons.prems(5))
    then have more: "insert j J \<noteq> {..<pieces chunk data}" by blast
    have "\<exists>c''. receive_replies k af rs' (c', p) = map_option snd (handleDeviceInterrupt af (c'', p)) \<and>
        reading chunk data base {..<pieces chunk data} c'' \<and>
        map_option cmd_state (currentCommand c'') = Some kATAStatus"
    proof (rule Cons.IH [OF c'(2)])
      show "\<forall>i < length js. reply_for chunk data (doubleBuffer_size c') base (js ! i) (rs' ! i)"
        using Cons.prems(7) unfolding rs c'(3) by (metis Suc_less_eq length_Cons nth_Cons_Suc)
      show "set js \<union> insert j J = {..<pieces chunk data}" using Cons.prems(5) by simp
    qed (use Cons.prems(2,4,6) rs False in auto)
    then show ?thesis using c'(1) more rs by simp
  qed
qed simp

text \<open>C1: a read split into packets is put together correctly whatever the order of the replies, and however
  each is spread over mbufs: after the last one the caller's buffer holds exactly the data, the
  whole transfer is counted, no reply is awaited any more, and only then, once, the interrupt is
  signalled, with the command ready for its status check.\<close>

theorem read_reassembled:
  assumes "descriptor_ok af" "reading chunk data base {} c" "data \<noteq> []"
    "distinct js" "set js = {..<pieces chunk data}" "length rs = length js"
    "\<forall>i < length js. reply_for chunk data (doubleBuffer_size c) base (js ! i) (rs ! i)"
  shows "\<exists>c' x. receive_replies k af rs (c, p) = map_option snd (handleDeviceInterrupt af (c', p)) \<and>
    currentCommand c' = Some x \<and> cmd_buffer x = data \<and> cmd_state x = kATAStatus \<and>
    cmd_actualTransfer x = cmd_byteCount x \<and> m_nReadWriteRepliesRequired c' = 0"
proof -
  have "0 < chunk" using assms(2) by (auto simp: reading_def split: option.splits)
  then have "pieces chunk data \<noteq> 0" using assms(3) pieces_cover [of chunk data] by (intro notI) simp
  then have "0 \<in> set js" unfolding assms(5) by simp
  then have "js \<noteq> []" by auto
  moreover have "set js \<inter> {} = {}" "set js \<union> {} = {..<pieces chunk data}" using assms(5) by simp_all
  ultimately obtain c' where c': "receive_replies k af rs (c, p) = map_option snd (handleDeviceInterrupt af (c', p))"
      "reading chunk data base {..<pieces chunk data} c'"
      "map_option cmd_state (currentCommand c') = Some kATAStatus"
    using receive_rest [OF assms(1,2,4) _ _ _ assms(6,7)] by blast
  then obtain x where x: "currentCommand c' = Some x" "cmd_state x = kATAStatus" by auto
  then have r: "\<forall>j < pieces chunk data. piece_of chunk (cmd_buffer x) j = piece_of chunk data j"
      "length (cmd_buffer x) = length data" "m_nReadWriteRepliesRequired c' = 0"
      "cmd_actualTransfer x = of_nat (\<Sum>j < pieces chunk data. length (piece_of chunk data j))"
      "cmd_byteCount x = of_nat (length data)"
    using c'(2) unfolding reading_def x(1) option.case by simp_all
  have "cmd_buffer x = data" using same_pieces [OF \<open>0 < chunk\<close> r(2)] r(1,2) by (simp add: pieces_def)
  moreover have "min (length data) (pieces chunk data * chunk) = length data"
    using pieces_cover [OF \<open>0 < chunk\<close>, of data] by simp
  then have "cmd_actualTransfer x = cmd_byteCount x" using r(4,5) by (simp only: pieces_length)
  ultimately show ?thesis using c'(1) x r(3) by blast
qed

text \<open>Three packets of two bytes, answered last first, one of them in two mbufs.\<close>

definition example_reader :: controller where
  "example_reader = example_controller\<lparr>m_unReadBaseTag := 7, m_nReadWriteRepliesRequired := 3,
     doubleBuffer_size := 512,
     currentCommand := Some (example_command\<lparr>cmd_byteCount := 5, cmd_chunkSize := 2,
       cmd_tf := (cmd_tf example_command)\<lparr>ataTFCommand := kATAcmdReadExtended\<rparr>,
       cmd_buffer := [0, 0, 0, 0, 0]\<rparr>)\<rparr>"

definition example_reply :: "u32 \<Rightarrow> u8 list \<Rightarrow> u8 list list \<Rightarrow> reply" where
  "example_reply Tag d chain =
     ((clear_atahdr, d), \<lparr>rx_mem = replicate 22 0 @ d, rx_chain = chain\<rparr>, Tag)"

definition example_replies :: "reply list" where
  "example_replies = [example_reply 9 [5] [], example_reply 7 [1] [[2]], example_reply 8 [3, 4] []]"

lemma example_descriptor: "descriptor_ok example_family"
  by (simp add: descriptor_ok_def example_family_def)

theorem read_reassembled_witness:
  "\<exists>c' x. receive_replies example_kernel example_family example_replies (example_reader, example_provider) =
      map_option snd (handleDeviceInterrupt example_family (c', example_provider)) \<and>
    currentCommand c' = Some x \<and> cmd_buffer x = [1, 2, 3, 4, 5] \<and> cmd_state x = kATAStatus \<and>
    cmd_actualTransfer x = cmd_byteCount x \<and> m_nReadWriteRepliesRequired c' = 0"
proof (rule read_reassembled [OF example_descriptor])
  have n: "pieces 2 [1, 2, 3, 4, 5 :: u8] = 3" by (simp add: pieces_def)
  show "reading 2 [1, 2, 3, 4, 5] 7 {} example_reader"
    unfolding reading_def n by (simp add: example_reader_def) code_simp
  show "set [2, 0, 1] = {..<pieces 2 [1, 2, 3, 4, 5 :: u8]}" unfolding n by auto
  show "\<forall>i < length [2, 0, 1 :: nat]. reply_for 2 [1, 2, 3, 4, 5] (doubleBuffer_size example_reader) 7
      ([2, 0, 1] ! i) (example_replies ! i)"
    by (simp add: All_less_Suc example_replies_def example_reply_def reply_for_def piece_of_def
        example_reader_def numeral_3_eq_3)
qed (simp_all add: example_replies_def)

section \<open>Identify data and write replies\<close>

lemma length_fake [simp]: "length (or_word n v d) = length d" "length (identify_checksum d) = length d"
  by (simp_all add: or_word_def identify_checksum_def Let_def)

lemma take_updated: "n < length d \<Longrightarrow> take (Suc n) (d[n := v]) = take n d @ [v]"
  by (simp add: take_Suc_conv_app_nth)

lemma identify_checksum_sums:
  assumes "512 \<le> length d"
  shows "sum_list (take 512 (identify_checksum d)) = 0"
proof -
  let ?d = "d[510 := 0xA5]"
  have "take 512 (identify_checksum d) = take 511 ?d @ [NOT (sum_list (take 511 ?d)) + 1]"
    using take_updated [of 511 ?d "NOT (sum_list (take 511 ?d)) + 1"] assms
    by (simp add: identify_checksum_def Let_def)
  then show ?thesis by (simp add: not_eq_complement)
qed

text \<open>C31: the identify data that is passed on always has a valid integrity word and announces DMA, and is
  otherwise what the target sent: the bytes of the first sector sum to 0, the signature is there,
  word 49 allows DMA, words 53 and 63 say that its modes are valid, and all other bytes are unchanged.
  Less than a sector of identify data is read and written out of bounds.\<close>

theorem identify_integrity:
  "(fake_dma d = None \<longleftrightarrow> length d < 512) \<and>
   (\<forall>d'. fake_dma d = Some d' \<longrightarrow>
      length d' = length d \<and> sum_list (take 512 d') = 0 \<and> d' ! 510 = 0xA5 \<and>
      d' ! 99 = d ! 99 OR 1 \<and> d' ! 106 = d ! 106 OR 2 \<and> d' ! 126 = d ! 126 OR 7 \<and>
      (\<forall>i < length d. i \<notin> {99, 106, 126, 510, 511} \<longrightarrow> d' ! i = d ! i))"
proof (intro conjI allI impI)
  fix d' assume d': "fake_dma d = Some d'"
  then have len: "512 \<le> length d" by (auto simp: fake_dma_def split: if_splits)
  let ?e = "or_word 63 0x7 (or_word 49 0x100 (or_word 53 0x0002 d))"
  have eq: "d' = identify_checksum ?e" using d' len by (simp add: fake_dma_def)
  show "length d' = length d" "sum_list (take 512 d') = 0"
    using len unfolding eq by (simp_all add: identify_checksum_sums)
  have other: "d' ! i = ?e ! i" if "i \<notin> {510, 511}" for i
    using that by (simp add: eq identify_checksum_def Let_def)
  show "d' ! 510 = 0xA5" using len by (simp add: eq identify_checksum_def Let_def)
  show "d' ! 99 = d ! 99 OR 1" "d' ! 106 = d ! 106 OR 2" "d' ! 126 = d ! 126 OR 7"
    using len by (simp_all add: other or_word_def)
  fix i assume "i < length d" "i \<notin> {99, 106, 126, 510, 511}"
  moreover have zero: "(256 :: u8) = 0" by code_simp
  ultimately show "d' ! i = d ! i"
    using len by (cases "i \<in> {98, 107, 127}") (auto simp: other or_word_def nth_list_update zero)
qed (auto simp: fake_dma_def split: if_splits)

theorem identify_integrity_witness:
  "\<exists>d'. fake_dma (replicate 512 1) = Some d' \<and> sum_list (take 512 d') = 0 \<and> d' ! 106 = 3 \<and> d' ! 0 = 1"
proof -
  have "fake_dma (replicate 512 1) \<noteq> None" by (simp add: fake_dma_def)
  then obtain d' where d: "fake_dma (replicate 512 1) = Some d'" by blast
  have "(1 :: u8) OR 2 = 3" by code_simp
  then show ?thesis
    using identify_integrity [of "replicate 512 1"]
    by (intro exI [of _ d'] conjI) (simp_all only: d option.inject simp_thms all_simps(5) length_replicate, simp_all)
qed

text \<open>The replies to the packets of a write.\<close>

fun write_replies :: "aoe_atahdr list \<Rightarrow> controller \<Rightarrow> bool list \<times> controller" where
  "write_replies [] c = ([], c)"
| "write_replies (h # hs) c =
     (let (f, c) = write_reply h c; (fs, c) = write_replies hs c in (f # fs, c))"

text \<open>The first nonzero status of a list of replies, with its error if it is one.\<close>

fun first_status :: "aoe_atahdr list \<Rightarrow> u8 \<times> u8" where
  "first_status [] = (0, 0)"
| "first_status (h # hs) =
     (if AOE_ATAHEADER_GETSTAT h \<noteq> 0
      then (AOE_ATAHEADER_GETSTAT h,
        if AOE_ATAHEADER_GETSTAT h AND mATAError \<noteq> 0 then AOE_ATAHEADER_GETERR h else 0)
      else first_status hs)"

lemma first_status_zero: "fst (first_status ps) = 0 \<Longrightarrow> first_status ps = (0, 0)"
  by (induction ps) (simp_all split: if_splits)

lemma first_status_snoc: "first_status (ps @ [h]) =
    (if fst (first_status ps) \<noteq> 0 then first_status ps else first_status [h])"
  by (induction ps) simp_all

lemma write_replies_stored:
  assumes "m_nReadWriteRepliesRequired c = int (length hs)" "hs \<noteq> []" "length hs < 2 ^ 31"
    "(m_PreviousWriteStatus c, m_PreviousWriteError c) = first_status ps"
  shows "write_replies hs c = (replicate (length hs - 1) False @ [True],
    c\<lparr>m_nReadWriteRepliesRequired := 0,
      m_PreviousWriteStatus := fst (first_status (ps @ butlast hs)),
      m_PreviousWriteError := snd (first_status (ps @ butlast hs))\<rparr>)"
  using assms
proof (induction hs arbitrary: c ps)
  case (Cons h hs)
  have s32: "s32 (m_nReadWriteRepliesRequired c - 1) = int (length hs)"
    using Cons.prems(1,3) by (subst s32_in_range) auto
  show ?case
  proof (cases "hs = []")
    case True
    then show ?thesis using s32 Cons.prems(4) 
      by (auto simp: write_reply_def Let_def prod_eq_iff)
  next
    case False
    let ?c = "c\<lparr>m_nReadWriteRepliesRequired := int (length hs),
        m_PreviousWriteStatus := fst (first_status (ps @ [h])),
        m_PreviousWriteError := snd (first_status (ps @ [h]))\<rparr>"
    have "write_reply h c = (False, ?c)"
    proof (cases "fst (first_status ps) = 0")
      case True
      then have old: "m_PreviousWriteStatus c = 0" "m_PreviousWriteError c = 0"
        using Cons.prems(4) first_status_zero [OF True] by (simp_all add: prod_eq_iff)
      have new: "first_status (ps @ [h]) = first_status [h]" using True by (simp add: first_status_snoc)
      show ?thesis unfolding new using old False s32
        by (simp add: write_reply_def Let_def)
    next
      case False': False
      then have "first_status (ps @ [h]) = (m_PreviousWriteStatus c, m_PreviousWriteError c)"
          "m_PreviousWriteStatus c \<noteq> 0"
        using Cons.prems(4) by (simp_all add: first_status_snoc prod_eq_iff)
      then show ?thesis using False s32 by (simp add: write_reply_def Let_def)
    qed
    moreover have "write_replies hs ?c = (replicate (length hs - 1) False @ [True],
        ?c\<lparr>m_nReadWriteRepliesRequired := 0,
          m_PreviousWriteStatus := fst (first_status ((ps @ [h]) @ butlast hs)),
          m_PreviousWriteError := snd (first_status ((ps @ [h]) @ butlast hs))\<rparr>)"
      using Cons.prems(3) False by (intro Cons.IH) simp_all
    ultimately show ?thesis using False by (cases hs) simp_all
  qed
qed simp

text \<open>C19: the interrupt of a write is signalled exactly at the last of the replies awaited, and what is kept
  for its status check is the first nonzero status among the replies before, with its error if that
  status is an error.\<close>

theorem write_replies_counted:
  assumes "m_nReadWriteRepliesRequired c = int (length hs)" "hs \<noteq> []" "length hs < 2 ^ 31"
    "m_PreviousWriteStatus c = 0" "m_PreviousWriteError c = 0"
  shows "write_replies hs c = (replicate (length hs - 1) False @ [True],
    c\<lparr>m_nReadWriteRepliesRequired := 0,
      m_PreviousWriteStatus := fst (first_status (butlast hs)),
      m_PreviousWriteError := snd (first_status (butlast hs))\<rparr>)"
  using write_replies_stored [of c hs "[]"] assms by simp

definition example_write_status :: "u8 \<Rightarrow> u8 \<Rightarrow> aoe_atahdr" where
  "example_write_status err status = clear_atahdr\<lparr>
     aa_aflags_errfeat := AOE_ATAHEADER_SET2 0 (ucast err), aa_scnt_cmdstat := AOE_ATAHEADER_SET2 0 (ucast status)\<rparr>"

theorem write_replies_counted_witness:
  "write_replies [example_write_status 0 0, example_write_status 4 0x41, example_write_status 0 0x40]
      (example_controller\<lparr>m_nReadWriteRepliesRequired := 3\<rparr>) =
    ([False, False, True], example_controller\<lparr>m_nReadWriteRepliesRequired := 0,
      m_PreviousWriteStatus := 0x41, m_PreviousWriteError := 4\<rparr>)"
proof -
  have "first_status [example_write_status 0 0, example_write_status 4 0x41] = (0x41, 4)" by code_simp
  moreover have "m_PreviousWriteStatus example_controller = 0" "m_PreviousWriteError example_controller = 0"
    by (simp_all add: example_controller_def controller_init_def Let_def update_interface_property_def
        setProperty_def removeProperty_def)
  ultimately show ?thesis
    using write_replies_counted [of "example_controller\<lparr>m_nReadWriteRepliesRequired := 3\<rparr>"
      "[example_write_status 0 0, example_write_status 4 0x41, example_write_status 0 0x40]"]
    by (simp del: write_replies.simps first_status.simps)
qed

text \<open>C40: an error in the middle of a write is lost. Once an earlier packet of the write was answered
  without error, and so with a nonzero status, the errors of the replies that follow are not kept;
  if the last reply is no error, the command completes as successful.\<close>

theorem write_error_lost:
  assumes "m_nReadWriteRepliesRequired c = int (length mid + 2)" "length mid + 2 < 2 ^ 31"
    "m_PreviousWriteStatus c = 0" "m_PreviousWriteError c = 0"
    "currentCommand c = Some x" "\<not> mATAFlagTFAccessResult x"
    "AOE_ATAHEADER_GETSTAT h \<noteq> 0" "AOE_ATAHEADER_GETSTAT h AND mATAError = 0"
    "AOE_ATAHEADER_GETSTAT l AND mATAError = 0"
    "c' = (snd (write_replies (h # mid @ [l]) c))\<lparr>m_pReceivedATAHeader := Some (l, d)\<rparr>"
  shows "map_option (\<lambda>(err, c). (err, map_option cmd_endResult (currentCommand c))) (asyncStatus af c') =
    Some (kATANoErr, Some (Some (AOE_ATAHEADER_GETSTAT l, 0)))"
proof -
  have "snd (write_replies (h # mid @ [l]) c) = c\<lparr>m_nReadWriteRepliesRequired := 0,
      m_PreviousWriteStatus := AOE_ATAHEADER_GETSTAT h, m_PreviousWriteError := 0\<rparr>"
    using assms(1-4,7,8) write_replies_stored [of c "h # mid @ [l]" "[]"]
    by (simp add: butlast_append)
  then show ?thesis
    using assms(5-9) unfolding assms(10)
    by (simp add: asyncStatus_def asyncStatus_received_def setEndResult_def map_command_def)
qed

theorem write_error_lost_witness:
  "map_option (\<lambda>(err, c). (err, map_option cmd_endResult (currentCommand c)))
     (asyncStatus example_family ((snd (write_replies [example_write_status 0 0x40,
         example_write_status 4 0x41, example_write_status 0 0x40]
       (example_controller\<lparr>currentCommand := Some example_write, m_nReadWriteRepliesRequired := 3\<rparr>)))
       \<lparr>m_pReceivedATAHeader := Some (example_write_status 0 0x40, [])\<rparr>)) =
    Some (kATANoErr, Some (Some (0x40, 0)))"
proof -
  have s: "AOE_ATAHEADER_GETSTAT (example_write_status 0 0x40) = 0x40" by code_simp
  moreover have "m_PreviousWriteStatus example_controller = 0" "m_PreviousWriteError example_controller = 0"
    by (simp_all add: example_controller_def controller_init_def Let_def update_interface_property_def
        setProperty_def removeProperty_def)
  ultimately show ?thesis
    using write_error_lost [of "example_controller\<lparr>currentCommand := Some example_write,
        m_nReadWriteRepliesRequired := 3\<rparr>" "[example_write_status 4 0x41]" example_write
        "example_write_status 0 0x40" "example_write_status 0 0x40" _ "[]" example_family]
    by (simp add: example_write_def example_command_def del: write_replies.simps)
qed
end
