(* ===== verification/Registry.thy ===== *)
theory Registry
  imports Responses
begin

unbundle bit_operations_syntax

text \<open>
  The registry of targets, \<open>AoE/AoEControllerInterface.cpp\<close>: the list of controllers, the routing of
  received packets to them, targets that appear, go down or are removed, and the operations on all
  controllers. Tags, search packets and load balancing are in \<open>SendPath\<close>.

  A loop over the list of controllers uses a collection iterator, which ends the loop when the
  list has changed. \<open>terminate\<close> of a removed controller belongs to the base class.
\<close>

type_synonym world = "controller list \<times> provider"

section \<open>Set-up and tear-down\<close>

text \<open>\<open>init\<close>: the result depends on the base class, the array of controllers, the work loop, and the
  creation and registration of the two timers.\<close>

record interface_setup =
  su_super :: bool
  su_array :: bool
  su_workloop :: bool
  su_timer1 :: bool
  su_timer1_added :: bool
  su_timer2 :: bool
  su_timer2_added :: bool

definition interface_init :: "interface_setup \<Rightarrow> service \<Rightarrow> bool \<times> world" where
  "interface_init u s =
     (let p = \<lparr>m_nCurrentTag = MIN_TAG, ci_nMaxTransferSize = 256 * 1024, m_fLUNSearchRunning = False,
            m_TimeUntilTargetOffline_us = 60 * 1000 * 1000, m_pControllerToFakeResponse = None,
            m_pStateUpdateTimer = NULL_timer, m_pFakeReturnTimer = NULL_timer, m_pAoEService = s, removed_targets = []\<rparr>
      in if \<not> su_array u then (False, [], p)
         else if \<not> su_workloop u then (su_super u, [], p)
         else if \<not> su_timer1 u then (False, [], p)
         else if \<not> su_timer1_added u then (False, [], p\<lparr>m_pStateUpdateTimer := Stopped\<rparr>)
         else if \<not> su_timer2 u then (False, [], p\<lparr>m_pStateUpdateTimer := Stopped\<rparr>)
         else if \<not> su_timer2_added u
         then (False, [], p\<lparr>m_pStateUpdateTimer := Stopped, m_pFakeReturnTimer := Stopped\<rparr>)
         else (su_super u, [], p\<lparr>m_pStateUpdateTimer := Stopped, m_pFakeReturnTimer := Stopped\<rparr>))"

section \<open>Loops over the controllers\<close>

definition remove_numbered :: "u32 \<Rightarrow> controller list \<Rightarrow> controller list" where
  "remove_numbered n cs = (case first_index (\<lambda>c. nTargetNumber (m_target c) = n) cs of
     None \<Rightarrow> cs | Some i \<Rightarrow> take i cs @ drop (Suc i) cs)"

definition apply_removals :: "world \<Rightarrow> world" where
  "apply_removals w = (case w of (cs, p) \<Rightarrow>
     (fold remove_numbered (removed_targets p) cs, p\<lparr>removed_targets := []\<rparr>))"

fun each :: "(controller \<Rightarrow> bool) \<Rightarrow> (controller \<times> provider \<Rightarrow> (controller \<times> provider) option)
    \<Rightarrow> world \<Rightarrow> world option" where
  "each sel f ([], p) = Some ([], p)"
| "each sel f (c # cs, p) = do {
     (c, p) \<leftarrow> (if sel c then f (c, p) else Some (c, p));
     (if removed_targets p \<noteq> [] then Some (c # cs, p)
      else do { (cs, p) \<leftarrow> each sel f (cs, p); Some (c # cs, p) }) }"

section \<open>Targets\<close>

definition target_number :: "controller \<Rightarrow> int" where
  "target_number c = sint (nTargetNumber (m_target c))"

definition number_of_targets :: "world \<Rightarrow> int" where
  "number_of_targets w = int (length (fst w))"

definition find_target :: "int \<Rightarrow> controller list \<Rightarrow> nat option" where
  "find_target nNumber cs = first_index (\<lambda>c. nNumber = target_number c) cs"

definition interface_get_target_info :: "int \<Rightarrow> world \<Rightarrow> TargetInfo option" where
  "interface_get_target_info nNumber w =
     map_option (\<lambda>i. m_target (fst w ! i)) (find_target nNumber (fst w))"

text \<open>\<open>get_next_target_number\<close>: the loop, with the number it tries.\<close>

function next_number :: "int list \<Rightarrow> int \<Rightarrow> int" where
  "next_number numbers n = (if n \<in> set numbers then next_number numbers (n + 1) else n)"
  by auto

termination
proof (relation "measure (\<lambda>(numbers, n). card {m \<in> set numbers. n \<le> m})")
  fix numbers :: "int list" and n assume "n \<in> set numbers"
  then have "n \<in> {m \<in> set numbers. n \<le> m}" "n \<notin> {m \<in> set numbers. n + 1 \<le> m}" by simp_all
  then have "{m \<in> set numbers. n + 1 \<le> m} \<subset> {m \<in> set numbers. n \<le> m}" by force
  then show "((numbers, n + 1), numbers, n) \<in> measure (\<lambda>(numbers, n). card {m \<in> set numbers. n \<le> m})"
    by (simp add: psubset_card_mono)
qed simp

declare next_number.simps [simp del]

definition get_next_target_number :: "controller list \<Rightarrow> int" where
  "get_next_target_number cs = next_number (map target_number cs) 1"

definition remove_target :: "kernel \<Rightarrow> ata_family \<Rightarrow> int \<Rightarrow> world \<Rightarrow> (int \<times> world) option" where
  "remove_target k af nNumber w = (case w of (cs, p) \<Rightarrow>
     (case find_target nNumber cs of None \<Rightarrow> Some (- 1, w)
      | Some nCount \<Rightarrow> do {
          let (c, p) = cancel_command af False (cs ! nCount, p);
          c \<leftarrow> remove_all_interfaces k c;
          let (c, p) = controller_uninit af (c, p);
          Some (0, take nCount cs @ drop (Suc nCount) cs, p) }))"

text \<open>\<open>uninit\<close>: every controller is shut down and the list emptied.\<close>

fun uninit_controllers :: "ata_family \<Rightarrow> world \<Rightarrow> world" where
  "uninit_controllers af ([], p) = ([], p)"
| "uninit_controllers af (c # cs, p) =
     (let (c, p) = controller_uninit af (c, p) in uninit_controllers af (cs, p))"

definition interface_uninit :: "ata_family \<Rightarrow> world \<Rightarrow> world" where
  "interface_uninit af w = (case w of (cs, p) \<Rightarrow>
     uninit_controllers af (cs, p\<lparr>m_pStateUpdateTimer := NULL_timer, m_pFakeReturnTimer := NULL_timer\<rparr>))"

section \<open>Received packets\<close>

definition addressed :: "aoe_header \<Rightarrow> controller \<Rightarrow> bool" where
  "addressed h c \<longleftrightarrow> is_device (uint (AOE_HEADER_GETMAJOR h)) (uint (AOE_HEADER_GETMINOR h)) (m_target c) = 0"

definition aoe_ata_receive :: "kernel \<Rightarrow> ata_family \<Rightarrow> aoe_header \<Rightarrow> aoe_atahdr \<times> u8 list \<Rightarrow> rx_mbuf
    \<Rightarrow> world \<Rightarrow> (int \<times> world) option" where
  "aoe_ata_receive k af h rcv mb w = do {
     w \<leftarrow> each (addressed h)
           (\<lambda>cp. map_option snd (ata_response k af rcv (Some mb) (AOE_HEADER_GETTAG h) cp)) w;
     Some (0, apply_removals w) }"

text \<open>A reply to a configuration query for a known target: what is learnt of it, and whether it has been
  claimed by another computer.\<close>

definition config_update :: "kernel \<Rightarrow> ifnet \<Rightarrow> mac \<Rightarrow> aoe_cfghdr \<Rightarrow> u8 list \<Rightarrow> controller \<times> provider
    \<Rightarrow> (controller \<times> provider) option" where
  "config_update k ifn mac cfg ac cp = do {
     (c, p) \<leftarrow> handle_aoe_cmd ifn cfg ac cp;
     (_, c) \<leftarrow> update_target_info k ifn mac True c;
     Some (c, p) }"

definition is_ours :: "provider \<Rightarrow> controller \<Rightarrow> bool" where
  "is_ours p c \<longleftrightarrow> cstring_is_ours (m_pszOurCString (m_pAoEService p)) c = 0"

text \<open>The loop of \<open>aoe_config_receive\<close>: the controllers already seen, whether a target was found; the
  result says whether the function returns at once.\<close>

fun config_each :: "kernel \<Rightarrow> ata_family \<Rightarrow> ifnet \<Rightarrow> mac \<Rightarrow> aoe_header \<Rightarrow> aoe_cfghdr \<Rightarrow> u8 list
    \<Rightarrow> controller list \<Rightarrow> bool \<Rightarrow> world \<Rightarrow> (bool \<times> bool \<times> world) option" where
  "config_each k af ifn mac h cfg ac seen fFound ([], p) = Some (False, fFound, seen, p)"
| "config_each k af ifn mac h cfg ac seen fFound (c # cs, p) =
     (if \<not> addressed h c then config_each k af ifn mac h cfg ac (seen @ [c]) fFound (cs, p)
      else do {
        (c, p) \<leftarrow> config_update k ifn mac cfg ac (c, p);
        (if \<not> is_ours p c \<and> is_registered c = 0
         then do { (_, w) \<leftarrow> remove_target k af (target_number c) (seen @ c # cs, p); Some (True, True, w) }
         else config_each k af ifn mac h cfg ac (seen @ [c]) True (cs, p)) })"

text \<open>A new target: \<open>this\<close> is the address of the new controller, \<open>None\<close> when there is none.\<close>

definition add_target :: "kernel \<Rightarrow> ata_family \<Rightarrow> nat option \<Rightarrow> ifnet \<Rightarrow> mac \<Rightarrow> aoe_header \<Rightarrow> aoe_cfghdr \<Rightarrow> u8 list
    \<Rightarrow> world \<Rightarrow> (int \<times> world) option" where
  "add_target k af this ifn mac h cfg ac w = (case w of (cs, p) \<Rightarrow>
     (case this of None \<Rightarrow> Some (- 1, w)
      | Some this \<Rightarrow>
        if \<not> af_controller_attach af \<or> \<not> af_controller_start af then Some (- 1, w)
        else do {
          let (_, c) = controller_init k af this (uint (AOE_HEADER_GETMAJOR h)) (uint (AOE_HEADER_GETMINOR h))
                         ifn mac (m_Min_MTU (m_pInterfaces (m_pAoEService p))) (ci_nMaxTransferSize p)
                         (get_next_target_number cs);
          (_, c) \<leftarrow> update_target_info k ifn mac True c;
          (c, p) \<leftarrow> handle_aoe_cmd ifn cfg ac (c, p);
          c \<leftarrow> attach_device af c;
          Some (0, cs @ [if is_ours p c then registerDiskService c else c], p) }))"

definition aoe_config_receive :: "kernel \<Rightarrow> ata_family \<Rightarrow> nat option \<Rightarrow> ifnet \<Rightarrow> mac \<Rightarrow> aoe_header \<Rightarrow> aoe_cfghdr
    \<Rightarrow> u8 list \<Rightarrow> world \<Rightarrow> (int \<times> world) option" where
  "aoe_config_receive k af this ifn mac h cfg ac w = do {
     (fReturn, fFound, w) \<leftarrow> config_each k af ifn mac h cfg ac [] False w;
     (if fReturn \<or> fFound then Some (0, w) else add_target k af this ifn mac h cfg ac w) }"

text \<open>The faked reply: a header on the stack, with one word of data, and no packet. The pointer to the
  controller outlives its removal; using it then is a trap.\<close>

definition FakeReturnTimer :: "kernel \<Rightarrow> ata_family \<Rightarrow> world \<Rightarrow> world option" where
  "FakeReturnTimer k af w = (case w of (cs, p) \<Rightarrow>
     let p = p\<lparr>m_pFakeReturnTimer := Stopped\<rparr> in
     (case m_pControllerToFakeResponse p of None \<Rightarrow> Some (cs, p)
      | Some this \<Rightarrow> (case first_index (\<lambda>c. ctl_id c = this) cs of None \<Rightarrow> None
        | Some i \<Rightarrow> do {
            let h = (AOE_ATAHEADER_CLEAR clear_atahdr)\<lparr>aa_scnt_cmdstat := push_bit 8 0x40\<rparr>;
            (_, c, p) \<leftarrow> ata_response k af (h, [0, 0]) None 0 (cs ! i, p);
            Some (apply_removals (cs[i := c], p)) })))"

section \<open>Targets going down and coming up\<close>

definition check_down_targets :: "kernel \<Rightarrow> ata_family \<Rightarrow> world \<Rightarrow> world option" where
  "check_down_targets k af w = (case w of (cs, p) \<Rightarrow>
     (case first_index (\<lambda>c. time_since_now_us k (m_time_since_last_comm c) \<ge> m_TimeUntilTargetOffline_us p) cs of
        None \<Rightarrow> Some w
      | Some i \<Rightarrow> map_option snd (remove_target k af (target_number (cs ! i)) w)))"

definition cancel_commands_on_interface :: "ata_family \<Rightarrow> ifnet \<Rightarrow> world \<Rightarrow> int \<times> world" where
  "cancel_commands_on_interface af enetifnet w = (case w of (cs, p) \<Rightarrow>
     (0, case first_index (\<lambda>c. connected_to_interface enetifnet (m_target c) = 0) cs of None \<Rightarrow> w
         | Some i \<Rightarrow> (let (c, p) = cancel_command af False (cs ! i, p) in (cs[i := c], p))))"

definition reenable_controllers :: "world \<Rightarrow> world" where
  "reenable_controllers w = (map device_online (fst w), snd w)"

definition adjust_mtu_sizes :: "int \<Rightarrow> world \<Rightarrow> world" where
  "adjust_mtu_sizes nMTU w = (map (set_mtu_size nMTU) (fst w), snd w)"

definition identify_all_targets :: "kernel \<Rightarrow> ata_family \<Rightarrow> world \<Rightarrow> world option" where
  "identify_all_targets k af w =
     each (\<lambda>c. True) (\<lambda>cp. map_option snd (send_identify k af cp)) w"

definition interface_force_packet_send :: "kernel \<Rightarrow> ata_family \<Rightarrow> ForcePacketInfo \<Rightarrow> world \<Rightarrow> (int \<times> world) option" where
  "interface_force_packet_send k af f w = do {
     w \<leftarrow> each (\<lambda>c. is_device (sint (fp_nShelf f)) (sint (fp_nSlot f)) (m_target c) = 0)
           (\<lambda>cp. map_option snd (controller_force_packet_send k af f cp)) w;
     Some (0, w) }"

definition start_lun_search :: "bool \<Rightarrow> world \<Rightarrow> world" where
  "start_lun_search fRun w = (case w of (cs, p) \<Rightarrow>
     let p = (if m_pStateUpdateTimer p \<noteq> NULL_timer \<and> fRun \<noteq> m_fLUNSearchRunning p
              then p\<lparr>m_pStateUpdateTimer := if fRun then Armed (60 * 1000) else Stopped\<rparr> else p)
     in (cs, p\<lparr>m_fLUNSearchRunning := fRun\<rparr>))"

definition interface_set_max_transfer_size :: "int \<Rightarrow> world \<Rightarrow> world" where
  "interface_set_max_transfer_size n w = (fst w, (snd w)\<lparr>ci_nMaxTransferSize := n\<rparr>)"

definition set_max_outstanding :: "ifnet \<Rightarrow> int \<Rightarrow> int \<Rightarrow> world \<Rightarrow> world option" where
  "set_max_outstanding ifref shelf nMaxOutstanding w = do {
     let (cs, p) = w;
     I \<leftarrow> EInterfaces_set_max_outstanding ifref shelf nMaxOutstanding (m_pInterfaces (m_pAoEService p));
     Some (cs, p\<lparr>m_pAoEService := (m_pAoEService p)\<lparr>m_pInterfaces := I\<rparr>\<rparr>) }"

text \<open>\<open>aoe_search_all\<close> of \<open>AoE/AoEService.cpp\<close>: \<open>get_nth_interface(n)\<close> gives the first enabled entry from
  entry \<open>n\<close> on, so the loop visits all entries up to the last enabled one.\<close>

fun search_from :: "kernel \<Rightarrow> nat list \<Rightarrow> provider \<Rightarrow> (int \<times> provider) option" where
  "search_from k [] p = Some (0, p)"
| "search_from k (n # ns) p =
     (let ifn = EInterfaces_get_nth_interface (m_pInterfaces (m_pAoEService p)) n in
      if ifn = 0 then Some (0, p)
      else do {
        (result, p) \<leftarrow> aoe_search k ifn p;
        (if result \<noteq> 0 then Some (result, p) else search_from k ns p) })"

definition aoe_search_all :: "kernel \<Rightarrow> ata_family \<Rightarrow> world \<Rightarrow> (int \<times> world) option" where
  "aoe_search_all k af w = do {
     let (cs, p) = w;
     (result, p) \<leftarrow> search_from k [0..<length (m_aInterfaces (m_pInterfaces (m_pAoEService p)))] p;
     (if result \<noteq> 0 then Some (result, cs, p)
      else do { w \<leftarrow> identify_all_targets k af (cs, p); Some (0, w) }) }"

definition StateUpdateTimer :: "kernel \<Rightarrow> ata_family \<Rightarrow> world \<Rightarrow> world option" where
  "StateUpdateTimer k af w = do {
     w \<leftarrow> check_down_targets k af w;
     (_, cs, p) \<leftarrow> aoe_search_all k af w;
     Some (cs, p\<lparr>m_pStateUpdateTimer := Armed (60 * 1000)\<rparr>) }"

section \<open>The configuration string of a target\<close>

fun cstring_each :: "kernel \<Rightarrow> ata_family \<Rightarrow> int \<Rightarrow> u8 list \<Rightarrow> int \<Rightarrow> controller list \<Rightarrow> int \<Rightarrow> world
    \<Rightarrow> (int \<times> world) option" where
  "cstring_each k af nDevice s nLength seen nRet ([], p) = Some (nRet, seen, p)"
| "cstring_each k af nDevice s nLength seen nRet (c # cs, p) =
     (if nDevice \<noteq> target_number c then cstring_each k af nDevice s nLength (seen @ [c]) nRet (cs, p)
      else do {
        (r, c, p) \<leftarrow> set_config_string k s nLength (c, p);
        (if r \<noteq> 0 then cstring_each k af nDevice s nLength (seen @ [c]) (- 1) (cs, p)
         else if is_registered c = 0 \<and> \<not> is_ours p c
         then do { (_, w) \<leftarrow> remove_target k af (target_number c) (seen @ c # cs, p); Some (nRet, w) }
         else if is_registered c \<noteq> 0 \<and> is_ours p c then Some (nRet, seen @ registerDiskService c # cs, p)
         else cstring_each k af nDevice s nLength (seen @ [c]) nRet (cs, p)) })"

definition interface_set_targets_cstring :: "kernel \<Rightarrow> ata_family \<Rightarrow> int \<Rightarrow> u8 list \<Rightarrow> int \<Rightarrow> world
    \<Rightarrow> (int \<times> world) option" where
  "interface_set_targets_cstring k af nDevice s nLength w = cstring_each k af nDevice s nLength [] 0 w"

end
