(* ===== verification/RegistryInv.thy ===== *)
theory RegistryInv
  imports Registry
begin

unbundle bit_operations_syntax

text \<open>
  What holds of the registry of targets. Every operation of a controller keeps the identity of its
  target (\<open>keeps\<close>) or also asks for its removal (\<open>keeps_or_removes\<close>); from this follows an invariant
  of the list of controllers under all events of the driver (\<open>registry_step\<close>). Then: which target a
  reply reaches, cancelled commands, the faked reply, and the search.
\<close>

section \<open>What an operation keeps of a controller\<close>

text \<open>The address and number of a target never change, and its interface list stays well formed.\<close>

definition identity :: "controller \<Rightarrow> u32 \<times> u32 \<times> u32" where
  "identity c = (nTargetNumber (m_target c), nShelf (m_target c), nSlot (m_target c))"

definition keeps :: "controller \<times> provider \<Rightarrow> controller \<times> provider \<Rightarrow> bool" where
  "keeps cp cp' \<longleftrightarrow> identity (fst cp') = identity (fst cp) \<and>
     (target_ok (m_target (fst cp)) \<longrightarrow> target_ok (m_target (fst cp'))) \<and>
     removed_targets (snd cp') = removed_targets (snd cp)"

text \<open>The base class knows nothing of targets: completing or continuing a command keeps all this.\<close>

definition family_keeps :: "ata_family \<Rightarrow> bool" where
  "family_keeps af \<longleftrightarrow> (\<forall>err cp. keeps cp (af_completeIO af err cp)) \<and>
     (\<forall>cp r c p. af_asyncIO af cp = Some (r, c, p) \<longrightarrow> keeps cp (c, p))"

lemma keeps_refl [simp]: "keeps cp cp"
  by (simp add: keeps_def)

lemma keeps_trans: "keeps a b \<Longrightarrow> keeps b c \<Longrightarrow> keeps a c"
  by (simp add: keeps_def)

lemma keeps_same: "m_target c' = m_target c \<Longrightarrow> removed_targets p' = removed_targets p \<Longrightarrow> keeps (c, p) (c', p')"
  by (simp add: keeps_def identity_def)

lemma keeps_congI: "keeps (c, p) (c', p') \<Longrightarrow> m_target d = m_target c \<Longrightarrow> m_target d' = m_target c' \<Longrightarrow>
    removed_targets q = removed_targets p \<Longrightarrow> removed_targets q' = removed_targets p' \<Longrightarrow> keeps (d, q) (d', q')"
  by (simp add: keeps_def identity_def)

lemma next_tag_removed [simp]: "removed_targets (snd (next_tag p)) = removed_targets p"
  by (simp add: next_tag_def Let_def)

lemma next_tag_keeps: "next_tag p = (t, q) \<Longrightarrow> removed_targets q = removed_targets p"
  using next_tag_removed [of p] by simp

lemma send_packet_keeps:
  assumes "send_packet k m Tag t p = Some (r, t', p')"
  shows "removed_targets p' = removed_targets p \<and> (\<exists>n. t' = t\<lparr>nLastSentInterface := n\<rparr>)"
proof -
  have id: "\<exists>n. t = t\<lparr>nLastSentInterface := n\<rparr>" by (rule exI [of _ "nLastSentInterface t"]) simp
  show ?thesis
    using assms id by (auto simp: send_packet_def Let_def split: if_splits Option.bind_splits prod.splits)
qed

lemma send_aoe_packet_keeps:
  assumes "send_aoe_packet k m Tag cp = Some (r, cp')"
  shows "keeps cp cp'"
  using assms
  by (auto simp: send_aoe_packet_def keeps_def identity_def target_ok_def
      split: prod.splits Option.bind_splits dest!: send_packet_keeps)

lemma send_ata_packet_keeps:
  assumes "send_ata_packet k af m Tag cp = Some (r, cp')"
  shows "keeps cp cp'"
  using assms send_aoe_packet_keeps
  by (cases cp) (auto simp: send_ata_packet_def keeps_same split: aoe_body.splits if_splits)

lemma send_identify_keeps:
  assumes "send_identify k af cp = Some (r, cp')"
  shows "keeps cp cp'"
proof -
  obtain c p where cp: "cp = (c, p)" by (cases cp)
  obtain Tag q where tag: "next_tag p = (Tag, q)" by (cases "next_tag p")
  have q: "removed_targets q = removed_targets p" using next_tag_removed [of p] tag by simp
  show ?thesis
  proof (cases "create_mbuf_for_transfer k Tag True (m_target c)")
    case None
    then show ?thesis using assms q by (auto simp: send_identify_def cp tag keeps_same)
  next
    case (Some m)
    then obtain m' result c1 p1 where send: "send_ata_packet k af m' Tag (c\<lparr>m_nOutstandingIdentTag := 0\<rparr>, q) = Some (result, c1, p1)"
        "cp' = (if result = 0 then c1\<lparr>m_nOutstandingIdentTag := Tag\<rparr> else c1, p1)"
      using assms by (auto simp: send_identify_def cp tag Let_def split: Option.bind_splits prod.splits if_splits)
    from send_ata_packet_keeps [OF send(1)] show ?thesis
      unfolding cp send(2) by (rule keeps_congI) (simp_all add: q)
  qed
qed

lemma set_config_string_keeps:
  assumes "set_config_string k s n cp = Some (r, cp')"
  shows "keeps cp cp'"
proof -
  obtain c p where cp: "cp = (c, p)" by (cases cp)
  obtain Tag q where tag: "next_tag p = (Tag, q)" by (cases "next_tag p")
  have q: "removed_targets q = removed_targets p" using next_tag_removed [of p] tag by simp
  show ?thesis
  proof (cases "create_mbuf_for_transfer k Tag False (m_target c)")
    case None
    then show ?thesis using assms q by (auto simp: set_config_string_def cp tag keeps_same)
  next
    case (Some m)
    then obtain m' s' where send: "send_aoe_packet k m' Tag (c\<lparr>m_aConfigString := s'\<rparr>, q) = Some (r, cp')"
      using assms by (auto simp: set_config_string_def cp tag Let_def split: Option.bind_splits prod.splits if_splits)
    obtain c1 p1 where "cp' = (c1, p1)" by (cases cp')
    with send_aoe_packet_keeps [OF send] show ?thesis
      unfolding cp by (auto intro: keeps_congI simp: q)
  qed
qed

lemma force_packet_keeps:
  assumes "controller_force_packet_send k af f cp = Some (r, cp')"
  shows "keeps cp cp'"
  using assms send_ata_packet_keeps send_aoe_packet_keeps
  by (cases cp) (auto simp: controller_force_packet_send_def Let_def split: if_splits)

lemma append_write_data_target:
  "append_write_data k m c = Some (r, m', c') \<Longrightarrow> m_target c' = m_target c"
  by (auto simp: append_write_data_def map_command_def Let_def
      split: option.splits if_splits Option.bind_splits prod.splits)

lemma issueCommand_keeps:
  assumes "issueCommand k af cp = Some (r, cp')"
  shows "keeps cp cp'"
proof -
  obtain c p where cp: "cp = (c, p)" by (cases cp)
  obtain Tag q where tag: "next_tag p = (Tag, q)" by (cases "next_tag p")
  have q: "removed_targets q = removed_targets p" using next_tag_removed [of p] tag by simp
  show ?thesis
  proof (cases "currentCommand c")
    case None
    then show ?thesis using assms by (simp add: issueCommand_def cp)
  next
    case x: (Some x)
    show ?thesis
    proof (cases "create_mbuf_for_transfer k Tag True (m_target c)")
      case None
      then show ?thesis using assms q by (auto simp: issueCommand_def cp tag x keeps_same)
    next
      case m: (Some m)
      let ?c = "if m_unReadBaseTag c = 0 then c\<lparr>m_unReadBaseTag := Tag\<rparr> else c"
      have t: "m_target ?c = m_target c" by simp
      show ?thesis
      proof (cases "\<exists>e. command_registers af x = Some (Inl e)")
        case True
        then show ?thesis using assms q by (auto simp: issueCommand_def cp tag x m Let_def keeps_same)
      next
        case False
        then obtain m' c1 result c2 p2 where send: "send_ata_packet k af m' Tag (c1, q) = Some (result, c2, p2)"
            "cp' = (c2, p2)" "m_target c1 = m_target c"
          using assms append_write_data_target
          by (auto simp: issueCommand_def cp tag x m Let_def
              split: Option.bind_splits prod.splits sum.splits if_splits)
        from send_ata_packet_keeps [OF send(1)] show ?thesis
          unfolding cp send(2) by (rule keeps_congI) (simp_all add: q send(3))
      qed
    qed
  qed
qed

lemma map_command_target [simp]: "m_target (map_command f c) = m_target c"
  by (simp add: map_command_def)

lemma issue_rounds_keeps:
  "issue_rounds k af set_count inc n (err, c, p) = Some (r, c', p') \<Longrightarrow> keeps (c, p) (c', p')"
proof (induction n arbitrary: err c p)
  case (Suc n)
  then obtain e c1 p1 where step: "issueCommand k af (map_command set_count c, p) = Some (e, c1, p1)"
      "issue_rounds k af set_count inc n (e, map_command inc c1, p1) = Some (r, c', p')"
    by (auto split: Option.bind_splits)
  have "keeps (c, p) (map_command inc c1, p1)"
    using issueCommand_keeps [OF step(1)] by (rule keeps_congI) simp_all
  then show ?case using Suc.IH [OF step(2)] by (rule keeps_trans)
qed simp

lemma rounds_then_keeps:
  assumes "issue_rounds k af set_count inc n (err, c, p) = Some (r, cp')" "m_target c = m_target d"
  shows "keeps (d, p) cp'"
proof -
  obtain c' p' where cp': "cp' = (c', p')" by (cases cp')
  have "keeps (c, p) (c', p')" using issue_rounds_keeps assms(1) unfolding cp' by blast
  then show ?thesis unfolding cp' by (rule keeps_congI) (simp_all add: assms(2))
qed

lemma rounds_bind_keeps:
  assumes "Option.bind (issue_rounds k af a b n (u, c1, p)) f = Some (r, cp')" "m_target c1 = m_target c"
    "\<And>e c2 p2. f (e, c2, p2) = Some (r, cp') \<Longrightarrow> keeps (c2, p2) cp'"
  shows "keeps (c, p) cp'"
proof -
  obtain e c2 p2 where r: "issue_rounds k af a b n (u, c1, p) = Some (e, c2, p2)" "f (e, c2, p2) = Some (r, cp')"
    using assms(1) by (cases "issue_rounds k af a b n (u, c1, p)") auto
  from rounds_then_keeps [OF r(1) assms(2)] assms(3) [OF r(2)] show ?thesis by (rule keeps_trans)
qed

lemma block_transfer_keeps:
  assumes "block_transfer k af count sc inc x (c, p) = Some (r, cp')"
  shows "keeps (c, p) cp'"
  using assms unfolding block_transfer_def Let_def
  by (simp only: split_conv split: if_split_asm)
    (simp, erule rounds_bind_keeps, auto split: if_split_asm simp del: issue_rounds.simps intro: rounds_then_keeps)

lemma keeps_from:
  assumes "keeps (c1, p) cp'" "m_target c1 = m_target c"
  shows "keeps (c, p) cp'"
  using assms by (cases cp') (auto intro: keeps_congI)

lemma async_prologue_target: "async_prologue af x c = Some (x1, c1) \<Longrightarrow> m_target c1 = m_target c"
  by (auto simp: async_prologue_def Let_def split: if_splits)

lemma async_ext_keeps: "async_ext k af x (c, p) = Some (r, cp') \<Longrightarrow> keeps (c, p) cp'"
  unfolding async_ext_def Let_def
  by (auto split: if_split_asm dest!: issueCommand_keeps block_transfer_keeps elim: keeps_from)

lemma async_tf_keeps: "async_tf k af x (c, p) = Some (r, cp') \<Longrightarrow> keeps (c, p) cp'"
  unfolding async_tf_def Let_def
  by (auto split: if_split_asm dest!: issueCommand_keeps block_transfer_keeps elim: keeps_from)

lemma async_epilogue_target [simp]: "m_target (async_epilogue c) = m_target c"
  by (simp add: async_epilogue_def set_state_def split: option.split)

lemma asyncCommand_keeps:
  assumes "asyncCommand k af (c, p) = Some (r, cp')"
  shows "keeps (c, p) cp'"
proof (cases "currentCommand c = None \<or> nNumberOfInterfaces (m_target c) = 0")
  case True
  then show ?thesis using assms by (auto simp: asyncCommand_def split: option.splits)
next
  case False
  then obtain x x1 c1 err c2 p2 where pro: "async_prologue af x c = Some (x1, c1)"
      and run: "(if is_extended_command x1 then async_ext k af x1 (c1, p)
                 else async_tf k af x1 (c1, p)) = Some (err, c2, p2)"
      and cp': "cp' = (if err = kATANoErr then async_epilogue c2 else c2, p2)"
    using assms by (auto simp: asyncCommand_def split: Option.bind_splits if_split_asm)
  have "keeps (c1, p) (c2, p2)"
    using run async_ext_keeps async_tf_keeps by (auto split: if_split_asm)
  then show ?thesis
    unfolding cp' by (rule keeps_congI) (simp_all add: async_prologue_target [OF pro])
qed

section \<open>Replies keep a controller or remove it\<close>

definition keeps_or_removes :: "controller \<times> provider \<Rightarrow> controller \<times> provider \<Rightarrow> bool" where
  "keeps_or_removes cp cp' \<longleftrightarrow> identity (fst cp') = identity (fst cp) \<and>
     (target_ok (m_target (fst cp)) \<longrightarrow> target_ok (m_target (fst cp'))) \<and>
     removed_targets (snd cp') \<in> {removed_targets (snd cp),
       removed_targets (snd cp) @ [nTargetNumber (m_target (fst cp))]}"

lemma keeps_imp_or: "keeps cp cp' \<Longrightarrow> keeps_or_removes cp cp'"
  by (simp add: keeps_def keeps_or_removes_def)

lemma or_then_keeps: "keeps_or_removes a b \<Longrightarrow> keeps b c \<Longrightarrow> keeps_or_removes a c"
  by (auto simp: keeps_def keeps_or_removes_def)

lemma keeps_then_or: "keeps a b \<Longrightarrow> keeps_or_removes b c \<Longrightarrow> keeps_or_removes a c"
  by (auto simp: keeps_def keeps_or_removes_def identity_def)

lemma keeps_or_removes_congI: "keeps_or_removes (c, p) (c', p') \<Longrightarrow> m_target d = m_target c \<Longrightarrow>
    m_target d' = m_target c' \<Longrightarrow> removed_targets q = removed_targets p \<Longrightarrow>
    removed_targets q' = removed_targets p' \<Longrightarrow> keeps_or_removes (d, q) (d', q')"
  by (simp add: keeps_or_removes_def identity_def)

lemma cancel_command_keeps:
  assumes "family_keeps af"
  shows "keeps cp (cancel_command af f cp)"
proof -
  obtain c p where cp: "cp = (c, p)" by (cases cp)
  let ?c = "set_state kATAComplete (log_event (EventCallout kATAOfflineEvent) c)" and ?e = "if f then kATANoErr else kATADeviceError"
  obtain c1 p1 where io: "af_completeIO af ?e (?c, p) = (c1, p1)" by (cases "af_completeIO af ?e (?c, p)")
  have k: "keeps (?c, p) (c1, p1)" using assms io unfolding family_keeps_def by metis
  have "keeps (c, p) (c1\<lparr>m_ATAState := kATAOfflineEvent\<rparr>, p1)"
    by (rule keeps_congI [OF k]) (simp_all add: set_state_def log_event_def)
  then show ?thesis unfolding cp cancel_command_def Let_def by (simp only: split_conv io)
qed

lemma removeProperty_target [simp]: "m_target (removeProperty key c) = m_target c"
  by (simp add: removeProperty_def)

lemma controller_uninit_keeps:
  assumes "family_keeps af"
  shows "keeps cp (controller_uninit af cp)"
proof -
  obtain c p where cp: "cancel_command af True cp = (c, p)" by (cases "cancel_command af True cp")
  have k: "keeps cp (c, p)" using cancel_command_keeps [OF assms] cp by metis
  obtain c0 p0 where cp0: "cp = (c0, p0)" by (cases cp)
  have "keeps cp (d, p)" if "m_target d = m_target c" for d
    using k that unfolding cp0 by (auto intro: keeps_congI)
  then show ?thesis
    unfolding controller_uninit_def Let_def cp split_conv by (simp add: log_event_def)
qed

lemma update_interface_property_target [simp]: "m_target (update_interface_property k c) = m_target c"
  by (simp add: update_interface_property_def setProperty_def Let_def)

lemma remove_interfaces_identity:
  "remove_interfaces n t = Some t' \<Longrightarrow>
    (nTargetNumber t', nShelf t', nSlot t') = (nTargetNumber t, nShelf t, nSlot t)"
  by (induction n arbitrary: t) (auto simp: remove_interface_def Let_def split: if_splits Option.bind_splits)

lemma remove_all_interfaces_keeps:
  assumes "remove_all_interfaces k c = Some c'"
  shows "keeps (c, p) (c', p)"
proof -
  obtain t where t: "remove_interfaces (nNumberOfInterfaces (m_target c)) (m_target c) = Some t" "m_target c' = t"
    using assms by (auto simp: remove_all_interfaces_def remove_all_target_interfaces_def split: Option.bind_splits)
  have "target_ok t" if "target_ok (m_target c)" using remove_interfaces_all [OF that order_refl] t(1) by auto
  then show ?thesis using remove_interfaces_identity [OF t(1)] t(2) by (simp add: keeps_def identity_def)
qed

lemma remove_self_or:
  assumes "family_keeps af" "remove_self k af cp = Some cp'"
  shows "keeps_or_removes cp cp'"
proof -
  obtain c p where a: "cancel_command af False cp = (c, p)" by (cases "cancel_command af False cp")
  then obtain d where b: "remove_all_interfaces k c = Some d"
    using assms(2) by (auto simp: remove_self_def split: Option.bind_splits)
  obtain e q where u: "controller_uninit af (d, p) = (e, q)" by (cases "controller_uninit af (d, p)")
  have cp': "cp' = (e, q\<lparr>removed_targets := removed_targets q @ [nTargetNumber (m_target e)]\<rparr>)"
    using assms(2) a b u by (simp add: remove_self_def)
  have "keeps cp (c, p)" "keeps (c, p) (d, p)" "keeps (d, p) (e, q)"
    using cancel_command_keeps [OF assms(1)] a remove_all_interfaces_keeps [OF b]
      controller_uninit_keeps [OF assms(1)] u by metis+
  then have "keeps cp (e, q)" by (blast intro: keeps_trans)
  then show ?thesis unfolding cp' by (simp add: keeps_def keeps_or_removes_def identity_def)
qed

lemma setProperty_target [simp]: "m_target (setProperty key v c) = m_target c"
  by (simp add: setProperty_def)

lemma set_identified_capacity_or:
  assumes "family_keeps af" "set_identified_capacity k af d (c, p) = Some cp'"
  shows "keeps_or_removes (c, p) cp'"
proof -
  have id: "keeps_or_removes (c, p) (c1, p)" if "m_target c1 = m_target c" for c1
    using that by (auto intro!: keeps_imp_or keeps_same)
  have rm: "keeps_or_removes (c, p) (c2\<lparr>m_IdentifiedCapacity := n\<rparr>, p2)"
    if "remove_self k af (c1, p) = Some (c2, p2)" "m_target c1 = m_target c" for c1 c2 p2 n
    using remove_self_or [OF assms(1) that(1)] that(2) by (auto intro: keeps_or_removes_congI)
  show ?thesis
    using assms(2) unfolding set_identified_capacity_def Let_def
    by (auto split: if_split_asm prod.splits Option.bind_splits intro: id rm)
qed

lemma publish_identify_or:
  assumes "family_keeps af" "publish_identify k af d (c, p) = Some (d', c', p')"
  shows "keeps_or_removes (c, p) (c', p')"
proof -
  obtain d1 c1 where s: "set_identified_capacity k af d1 (c, p) = Some (c1, p')" "m_target c' = m_target c1"
    using assms(2) by (auto simp: publish_identify_def Let_def split: Option.bind_splits)
  from set_identified_capacity_or [OF assms(1) s(1)] show ?thesis
    by (rule keeps_or_removes_congI) (simp_all add: s(2))
qed

lemma handle_identify_or:
  assumes "family_keeps af" "handle_identify k af (c, p) = Some (f, c', p')"
  shows "keeps_or_removes (c, p) (c', p')"
proof -
  have id: "keeps_or_removes (c, q) (set_received_data d c, q)" for d q
    by (auto intro!: keeps_imp_or keeps_same simp: set_received_data_def)
  have pub: "keeps_or_removes (c, p) (set_received_data d2 c2, p2)"
    if "publish_identify k af d (c\<lparr>m_nOutstandingIdentTag := 0\<rparr>, p) = Some (d1, c2, p2)" for d d1 d2 c2 p2
    using publish_identify_or [OF assms(1) that]
    by (auto intro: keeps_or_removes_congI simp: set_received_data_def)
  show ?thesis
    using assms(2) unfolding handle_identify_def Let_def
    by (auto split: if_split_asm option.splits Option.bind_splits) (erule pub, rule id)
qed

lemma completeDataRead_target: "completeDataRead af c = Some (r, f, c') \<Longrightarrow> m_target c' = m_target c"
  by (auto simp: completeDataRead_def set_state_def Let_def
      split: option.splits if_split_asm Option.bind_splits prod.splits)

lemma write_reply_target: "write_reply h c = (f, c') \<Longrightarrow> m_target c' = m_target c"
  by (auto simp: write_reply_def Let_def split: if_split_asm)

lemma read_reply_target: "read_reply af c = Some (f, c') \<Longrightarrow> m_target c' = m_target c"
  by (auto simp: read_reply_def Let_def split: Option.bind_splits option.splits dest!: completeDataRead_target)

lemma store_received_target [simp]: "m_target (store_received rcv m t c) = m_target c"
  by (simp add: store_received_def)

lemma command_reply_or:
  assumes "family_keeps af" "command_reply k af h x (c, p) = Some (f, c', p')"
  shows "keeps_or_removes (c, p) (c', p')"
  using assms(2) handle_identify_or [OF assms(1)]
  by (auto simp: command_reply_def Let_def split: if_split_asm prod.splits
      intro!: keeps_imp_or keeps_same dest: write_reply_target read_reply_target)

lemma handleDeviceInterrupt_keeps:
  assumes "family_keeps af" "handleDeviceInterrupt af cp = Some (r, cp')"
  shows "keeps cp cp'"
  using assms by (cases cp; cases cp') (auto simp: handleDeviceInterrupt_def family_keeps_def split: if_split_asm)

lemma ata_response_or:
  assumes "family_keeps af" "ata_response k af rcv m Tag (c, p) = Some (r, cp')"
  shows "keeps_or_removes (c, p) cp'"
proof -
  let ?c = "store_received rcv m Tag c"
  obtain f c1 p1 where body:
      "(case currentCommand ?c of
          Some x \<Rightarrow> command_reply k af (fst rcv) x (?c, p)
        | None \<Rightarrow>
            if m_nOutstandingIdentTag ?c = m_unReceivedTag ?c then do {
              (_, c, p) \<leftarrow> handle_identify k af (?c, p);
              Some (False, c\<lparr>m_nOutstandingIdentTag := 0\<rparr>, p) }
            else Some (False, ?c, p)) = Some (f, c1, p1)"
    and rest: "(if f then handleDeviceInterrupt af (c1, p1) else Some (kATANoErr, c1, p1)) = Some (r, cp')"
    using assms(2) unfolding ata_response_def Let_def split_conv by (auto split: Option.bind_split_asm)
  have "keeps_or_removes (?c, p) (c1, p1)"
  proof (cases "currentCommand ?c")
    case None
    have "keeps_or_removes (?c, p) (d\<lparr>m_nOutstandingIdentTag := 0\<rparr>, q)"
      if "handle_identify k af (?c, p) = Some (g, d, q)" for g d q
      by (rule keeps_or_removes_congI [OF handle_identify_or [OF assms(1) that]]) simp_all
    then show ?thesis
      using body None by (auto split: if_split_asm Option.bind_split_asm intro: keeps_imp_or)
  next
    case (Some x)
    then show ?thesis using body command_reply_or [OF assms(1)] by simp
  qed
  moreover have "keeps (c1, p1) cp'"
    using rest handleDeviceInterrupt_keeps [OF assms(1)] by (auto split: if_split_asm)
  ultimately have "keeps_or_removes (?c, p) cp'" by (rule or_then_keeps)
  then show ?thesis by (cases cp') (auto intro: keeps_or_removes_congI)
qed

section \<open>Target numbers\<close>

lemma next_number_props:
  "next_number numbers n \<notin> set numbers \<and> n \<le> next_number numbers n \<and>
   {n..<next_number numbers n} \<subseteq> set numbers"
proof (induction numbers n rule: next_number.induct)
  case (1 numbers n)
  show ?case
  proof (cases "n \<in> set numbers")
    case True
    have eq: "next_number numbers n = next_number numbers (n + 1)"
      using True by (subst next_number.simps) simp
    have "{n..<next_number numbers (n + 1)} \<subseteq> insert n {n + 1..<next_number numbers (n + 1)}" by auto
    then show ?thesis unfolding eq using 1 [OF True] True by auto
  next
    case False
    then have "next_number numbers n = n" by (subst next_number.simps) simp
    then show ?thesis using False by simp
  qed
qed

lemma next_target_number_bounds:
  "get_next_target_number cs \<notin> set (map target_number cs) \<and>
   1 \<le> get_next_target_number cs \<and> get_next_target_number cs \<le> int (length cs) + 1 \<and>
   (\<forall>m. 1 \<le> m \<and> m < get_next_target_number cs \<longrightarrow> m \<in> set (map target_number cs))"
proof -
  let ?n = "get_next_target_number cs"
  have n: "?n \<notin> set (map target_number cs)" "1 \<le> ?n" "{1..<?n} \<subseteq> set (map target_number cs)"
    using next_number_props [of "map target_number cs" 1] by (simp_all add: get_next_target_number_def)
  have "nat (?n - 1) = card {1..<?n}" by simp
  also have "\<dots> \<le> card (set (map target_number cs))" using n(3) by (intro card_mono) simp_all
  also have "\<dots> \<le> length cs" by (metis card_length length_map)
  finally show ?thesis using n by auto
qed

text \<open>C24: a new target gets the least number from 1 on that no target has; it is at most one more than the
  number of targets.\<close>

theorem next_target_number_least:
  "get_next_target_number cs \<notin> set (map target_number cs) \<and>
   1 \<le> get_next_target_number cs \<and> get_next_target_number cs \<le> int (length cs) + 1 \<and>
   (\<forall>m. 1 \<le> m \<and> m < get_next_target_number cs \<longrightarrow> m \<in> set (map target_number cs))"
  by (rule next_target_number_bounds)

theorem next_target_number_least_witness:
  "get_next_target_number [example_controller] = 2 \<and> 1 \<in> set (map target_number [example_controller])"
proof -
  have two: "get_next_target_number [example_controller] = 2" by code_simp
  have "(1::int) \<le> 1 \<and> (1::int) < get_next_target_number [example_controller]" unfolding two by simp
  then show ?thesis using next_target_number_least [of "[example_controller]"] two by blast
qed

section \<open>The list of controllers\<close>

definition ids_ok :: "controller list \<Rightarrow> bool" where
  "ids_ok cs \<longleftrightarrow> distinct (map (fst \<circ> identity) cs) \<and> distinct (map (snd \<circ> identity) cs) \<and>
     (\<forall>c \<in> set cs. target_ok (m_target c) \<and> 0 < target_number c \<and>
        nShelf (m_target c) < 0x10000 \<and> nSlot (m_target c) < 0x100)"

definition registry_ok :: "world \<Rightarrow> bool" where
  "registry_ok w \<longleftrightarrow> ids_ok (fst w) \<and> removed_targets (snd w) = []"

lemma ids_ok_drop: "ids_ok (ys @ c # zs) \<Longrightarrow> ids_ok (ys @ zs)"
  by (auto simp: ids_ok_def)

lemma ids_ok_update:
  assumes "ids_ok (ys @ c # zs)" "identity c' = identity c" "target_ok (m_target c) \<longrightarrow> target_ok (m_target c')"
  shows "ids_ok (ys @ c' # zs)"
  using assms by (auto simp: ids_ok_def identity_def target_number_def)

lemma ids_ok_at: "ids_ok cs \<Longrightarrow> i < length cs \<Longrightarrow> ids_ok (take i cs @ cs ! i # drop (Suc i) cs)"
  by (simp flip: id_take_nth_drop)

lemma ids_ok_list_update:
  assumes "ids_ok cs" "i < length cs" "keeps_or_removes (cs ! i, p) (c, p')"
  shows "ids_ok (cs[i := c])"
  using ids_ok_update [OF ids_ok_at [OF assms(1,2)]] assms(2,3)
  by (simp add: keeps_or_removes_def upd_conv_take_nth_drop)

lemma ids_ok_remove: "ids_ok cs \<Longrightarrow> i < length cs \<Longrightarrow> ids_ok (take i cs @ drop (Suc i) cs)"
  by (rule ids_ok_drop [OF ids_ok_at])

lemma ids_ok_same:
  "map identity cs' = map identity cs \<Longrightarrow> ids_ok cs \<Longrightarrow> \<forall>c \<in> set cs'. target_ok (m_target c) \<Longrightarrow> ids_ok cs'"
proof -
  assume same: "map identity cs' = map identity cs" and ok: "ids_ok cs" and t: "\<forall>c \<in> set cs'. target_ok (m_target c)"
  have "map (fst \<circ> identity) cs' = map (fst \<circ> identity) cs" "map (snd \<circ> identity) cs' = map (snd \<circ> identity) cs"
    using same by (metis map_map)+
  moreover have "\<exists>d \<in> set cs. identity d = identity c" if "c \<in> set cs'" for c
    using same that by (metis (no_types) image_eqI image_iff set_map)
  ultimately show "ids_ok cs'" using ok t unfolding ids_ok_def
    by (simp add: identity_def target_number_def) (metis (no_types, lifting))
qed

lemma remove_numbered_ok: "ids_ok cs \<Longrightarrow> ids_ok (remove_numbered n cs)"
  by (auto simp: remove_numbered_def intro: ids_ok_remove dest: first_index_less split: option.split)

lemma fold_remove_ok: "ids_ok cs \<Longrightarrow> ids_ok (fold remove_numbered ns cs)"
  by (induction ns arbitrary: cs) (simp_all add: remove_numbered_ok)

lemma apply_removals_ok: "ids_ok (fst w) \<Longrightarrow> registry_ok (apply_removals w)"
  by (cases w) (simp add: registry_ok_def apply_removals_def fold_remove_ok)

lemma each_ok:
  assumes "each sel f (cs, p) = Some (cs', p')" "removed_targets p = []"
    "\<And>c p c' p'. f (c, p) = Some (c', p') \<Longrightarrow> keeps_or_removes (c, p) (c', p')"
    "\<forall>c \<in> set cs. target_ok (m_target c)"
  shows "map identity cs' = map identity cs \<and> (\<forall>c \<in> set cs'. target_ok (m_target c))"
  using assms(1,2,4)
proof (induction cs arbitrary: p cs' p')
  case (Cons c cs)
  obtain c1 p1 where c1: "(if sel c then f (c, p) else Some (c, p)) = Some (c1, p1)"
    using Cons.prems(1) by (auto split: Option.bind_split_asm)
  have k: "keeps_or_removes (c, p) (c1, p1)"
    using c1 assms(3) by (auto split: if_split_asm intro: keeps_imp_or)
  show ?case
  proof (cases "removed_targets p1 = []")
    case True
    then obtain cs1 where "each sel f (cs, p1) = Some (cs1, p')" "cs' = c1 # cs1"
      using Cons.prems(1) c1 by (auto split: Option.bind_split_asm)
    with Cons.IH [of p1 cs1 p'] True Cons.prems(3) k show ?thesis
      by (simp add: keeps_or_removes_def)
  next
    case False
    then have "cs' = c1 # cs" using Cons.prems(1) c1 by simp
    then show ?thesis using k Cons.prems(3) by (simp add: keeps_or_removes_def)
  qed
qed simp

lemma each_registry:
  assumes "each sel f w = Some w'" "registry_ok w"
    "\<And>c p c' p'. f (c, p) = Some (c', p') \<Longrightarrow> keeps_or_removes (c, p) (c', p')"
  shows "ids_ok (fst w')"
proof -
  obtain cs p cs' p' where w: "w = (cs, p)" "w' = (cs', p')" by (cases w; cases w')
  have ok: "ids_ok cs" "removed_targets p = []" "\<forall>c \<in> set cs. target_ok (m_target c)"
    using assms(2) w by (auto simp: registry_ok_def ids_ok_def)
  from each_ok [OF assms(1) [unfolded w] ok(2) assms(3) ok(3)] ok(1) show ?thesis
    unfolding w by (auto intro: ids_ok_same)
qed

lemma each_keeps_registry:
  assumes "each sel f w = Some w'" "registry_ok w"
    "\<And>c p c' p'. f (c, p) = Some (c', p') \<Longrightarrow> keeps (c, p) (c', p')"
  shows "registry_ok w'"
proof -
  have "removed_targets p' = []" if "each sel f (cs, p) = Some (cs', p')" "removed_targets p = []" for cs p cs' p'
    using that
  proof (induction cs arbitrary: p cs' p')
    case (Cons c cs)
    obtain c1 p1 where c1: "(if sel c then f (c, p) else Some (c, p)) = Some (c1, p1)"
      using Cons.prems(1) by (auto split: Option.bind_split_asm)
    have "removed_targets p1 = []"
      using c1 assms(3) Cons.prems(2) by (auto split: if_split_asm simp: keeps_def)
    then show ?case using Cons c1 by (auto split: Option.bind_split_asm)
  qed simp
  moreover have "ids_ok (fst w')" using each_registry [OF assms(1,2)] assms(3) keeps_imp_or by blast
  ultimately show ?thesis using assms(1,2) by (cases w; cases w') (simp add: registry_ok_def)
qed

lemma remove_target_ok:
  assumes "family_keeps af" "remove_target k af n w = Some (r, w')" "registry_ok w"
  shows "registry_ok w'"
proof -
  obtain cs p where w: "w = (cs, p)" by (cases w)
  show ?thesis
  proof (cases "find_target n cs")
    case None
    then show ?thesis using assms(2,3) by (simp add: remove_target_def w)
  next
    case (Some i)
    then have i: "i < length cs" by (simp add: find_target_def first_index_less)
    obtain c1 p1 where a: "cancel_command af False (cs ! i, p) = (c1, p1)"
      by (cases "cancel_command af False (cs ! i, p)")
    obtain c2 where b: "remove_all_interfaces k c1 = Some c2"
      using assms(2) Some a by (auto simp: remove_target_def w split: Option.bind_split_asm)
    obtain c3 p3 where u: "controller_uninit af (c2, p1) = (c3, p3)" by (cases "controller_uninit af (c2, p1)")
    have w': "w' = (take i cs @ drop (Suc i) cs, p3)"
      using assms(2) Some a b u by (simp add: remove_target_def w)
    have "keeps (cs ! i, p) (c1, p1)" "keeps (c2, p1) (c3, p3)"
      using cancel_command_keeps [OF assms(1)] a controller_uninit_keeps [OF assms(1)] u by metis+
    then have "removed_targets p3 = removed_targets p" by (simp add: keeps_def)
    then show ?thesis using assms(3) i unfolding w w' by (simp add: registry_ok_def ids_ok_remove)
  qed
qed

lemma handle_aoe_cmd_keeps: "handle_aoe_cmd ifn cfg ac cp = Some cp' \<Longrightarrow> keeps cp cp'"
  by (cases cp; cases cp') (auto simp: handle_aoe_cmd_def Let_def keeps_same split: if_split_asm Option.bind_split_asm)

lemma update_target_list_ok:
  assumes "update_target_list k r m True t = Some (b, t')"
  shows "(nTargetNumber t', nShelf t', nSlot t') = (nTargetNumber t, nShelf t, nSlot t) \<and>
    (target_ok t \<longrightarrow> target_ok t')"
  using assms
  by (auto simp: update_target_list_def add_interface_def Let_def target_ok_def split: option.splits if_split_asm)

lemma update_target_info_keeps:
  assumes "update_target_info k ifn mac True c = Some (r, c')"
  shows "keeps (c, p) (c', p)"
proof -
  obtain b t where t: "update_target_list k ifn mac True (m_target c) = Some (b, t)" "m_target c' = t"
    using assms by (auto simp: update_target_info_def Let_def split: Option.bind_split_asm if_split_asm)
  with update_target_list_ok [OF t(1)] show ?thesis by (simp add: keeps_def identity_def)
qed

lemma config_update_keeps:
  assumes "config_update k ifn mac cfg ac cp = Some cp'"
  shows "keeps cp cp'"
proof -
  obtain c1 p1 r c2 where "handle_aoe_cmd ifn cfg ac cp = Some (c1, p1)"
      "update_target_info k ifn mac True c1 = Some (r, c2)" "cp' = (c2, p1)"
    using assms by (auto simp: config_update_def split: Option.bind_split_asm)
  then show ?thesis using handle_aoe_cmd_keeps update_target_info_keeps keeps_trans by metis
qed

lemma config_each_ok:
  assumes "family_keeps af"
    "config_each k af ifn mac h cfg ac seen fFound w = Some (ret, found, w')"
    "registry_ok (seen @ fst w, snd w)"
  shows "registry_ok w' \<and> (\<not> ret \<and> \<not> found \<longrightarrow> \<not> fFound \<and> (\<forall>c \<in> set (fst w). \<not> addressed h c) \<and>
    w' = (seen @ fst w, snd w))"
proof -
  have "registry_ok w' \<and> (\<not> ret \<and> \<not> found \<longrightarrow> \<not> fFound \<and> (\<forall>c \<in> set cs. \<not> addressed h c) \<and> w' = (seen @ cs, p))"
    if "config_each k af ifn mac h cfg ac seen fFound (cs, p) = Some (ret, found, w')" "registry_ok (seen @ cs, p)" for cs p
    using that
  proof (induction cs arbitrary: seen fFound p)
    case (Cons c cs)
    show ?case
    proof (cases "addressed h c")
      case False
      then show ?thesis using Cons.IH [of "seen @ [c]" fFound p] Cons.prems by simp
    next
      case True
      then obtain c1 p1 where u: "config_update k ifn mac cfg ac (c, p) = Some (c1, p1)"
        and rest: "(if \<not> is_ours p1 c1 \<and> is_registered c1 = 0
           then do { (_, w) \<leftarrow> remove_target k af (target_number c1) (seen @ c1 # cs, p1); Some (True, True, w) }
           else config_each k af ifn mac h cfg ac (seen @ [c1]) True (cs, p1)) = Some (ret, found, w')"
        using Cons.prems(1) by (auto split: Option.bind_split_asm)
      have "registry_ok (seen @ c1 # cs, p1)"
        using Cons.prems(2) config_update_keeps [OF u] ids_ok_update [of seen c cs c1]
        by (simp add: registry_ok_def keeps_def)
      then show ?thesis
        using rest remove_target_ok [OF assms(1)] Cons.IH [of "seen @ [c1]" True p1]
        by (auto split: if_split_asm Option.bind_split_asm)
    qed
  qed simp
  from this [of "fst w" "snd w"] assms(2,3) show ?thesis by simp
qed

lemma ids_ok_length:
  assumes "ids_ok cs"
  shows "length cs \<le> 0x1000000"
proof -
  have "map (snd \<circ> identity) cs = map (\<lambda>c. (nShelf (m_target c), nSlot (m_target c))) cs" by (simp add: identity_def)
  then have d: "distinct (map (\<lambda>c. (unat (nShelf (m_target c)), unat (nSlot (m_target c)))) cs)"
    using assms by (auto simp: ids_ok_def distinct_map inj_on_def word_unat_eq_iff)
  have "length cs = card (set (map (\<lambda>c. (unat (nShelf (m_target c)), unat (nSlot (m_target c)))) cs))"
    using distinct_card [OF d] by simp
  also have "\<dots> \<le> card ({..<0x10000 :: nat} \<times> {..<0x100 :: nat})"
    using assms by (intro card_mono) (auto simp: ids_ok_def word_less_nat_alt)
  also have "\<dots> = 0x1000000" by simp
  finally show ?thesis .
qed

lemma attach_device_target: "attach_device af c = Some c' \<Longrightarrow> m_target c' = m_target c"
  by (auto simp: attach_device_def Let_def split: if_split_asm)

lemma registerDiskService_target [simp]: "m_target (registerDiskService c) = m_target c"
  by (simp add: registerDiskService_def log_event_def Let_def)

lemma controller_init_target:
  "m_target (snd (controller_init k af this sh sl r mac mtu mx n)) = target_init k sh sl r mac n"
  by (simp add: controller_init_def Let_def)

lemma header_minor_small: "AOE_HEADER_GETMINOR h < 0x100"
proof -
  have "AOE_HEADER_GETMINOR h \<le> 0xFF" unfolding AOE_HEADER_GETMINOR_def by (rule word_and_le1)
  also have "(0xFF :: u32) < 0x100" by simp
  finally show ?thesis .
qed

lemma add_target_ok:
  assumes "add_target k af this ifn mac h cfg ac w = Some (r, w')" "registry_ok w"
    "\<forall>c \<in> set (fst w). \<not> addressed h c"
  shows "registry_ok w'"
proof -
  obtain cs p where w: "w = (cs, p)" by (cases w)
  show ?thesis
  proof (cases "this = None \<or> \<not> af_controller_attach af \<or> \<not> af_controller_start af")
    case True
    then show ?thesis using assms(1,2) by (auto simp: add_target_def w split: option.splits)
  next
    case False
    let ?n = "get_next_target_number cs"
    let ?sh = "uint (AOE_HEADER_GETMAJOR h)" and ?sl = "uint (AOE_HEADER_GETMINOR h)"
    from False obtain id where id: "this = Some id" by auto
    obtain f c0 where init: "controller_init k af id ?sh ?sl ifn mac
        (m_Min_MTU (m_pInterfaces (m_pAoEService p))) (ci_nMaxTransferSize p) ?n = (f, c0)"
      by (cases "controller_init k af id ?sh ?sl ifn mac
        (m_Min_MTU (m_pInterfaces (m_pAoEService p))) (ci_nMaxTransferSize p) ?n")
    obtain r1 c1 c2 p2 c3 where run: "update_target_info k ifn mac True c0 = Some (r1, c1)"
        "handle_aoe_cmd ifn cfg ac (c1, p) = Some (c2, p2)" "attach_device af c2 = Some c3"
        "w' = (cs @ [if is_ours p2 c3 then registerDiskService c3 else c3], p2)"
      using assms(1) False init by (auto simp: add_target_def w id split: Option.bind_split_asm)
    let ?c = "if is_ours p2 c3 then registerDiskService c3 else c3"
    have t0: "m_target c0 = target_init k ?sh ?sl ifn mac ?n"
      using controller_init_target [of k af id ?sh ?sl ifn mac _ _ ?n] init by (metis snd_conv)
    have kk: "keeps (c0, p) (c2, p2)"
      using update_target_info_keeps [OF run(1)] handle_aoe_cmd_keeps [OF run(2)] by (rule keeps_trans)
    have t3: "m_target ?c = m_target c2" using attach_device_target [OF run(3)] by simp
    have id3: "identity ?c = (word_of_int ?n, word_of_int ?sh, word_of_int ?sl)"
      using kk t3 t0 by (simp add: keeps_def identity_def target_init_def)
    have ok3: "target_ok (m_target ?c)" using kk t3 t0 by (simp add: keeps_def)
    note n = next_target_number_bounds [of cs]
    have small: "?n \<le> 0x1000001" using n ids_ok_length [of cs] assms(2) w by (simp add: registry_ok_def)
    have sint: "sint (word_of_int ?n :: u32) = ?n"
      using n small by (intro sint_word_of_int_32) simp_all
    have number: "word_of_int ?n \<notin> set (map (fst \<circ> identity) cs)"
    proof
      assume "word_of_int ?n \<in> set (map (fst \<circ> identity) cs)"
      then obtain c where "c \<in> set cs" "nTargetNumber (m_target c) = word_of_int ?n" by (auto simp: identity_def)
      then have "?n \<in> set (map target_number cs)" using sint by (force simp: target_number_def)
      then show False using n by blast
    qed
    have address: "(word_of_int ?sh, word_of_int ?sl) \<notin> set (map (snd \<circ> identity) cs)"
      using assms(3) by (auto simp: w addressed_def is_device_def identity_def)
    have range: "(word_of_int ?sh :: u32) < 0x10000" "(word_of_int ?sl :: u32) < 0x100"
    proof -
      have "uint (AOE_HEADER_GETMAJOR h) < 0x10000" using uint_lt2p [of "AOE_HEADER_GETMAJOR h"] by simp
      then show "(word_of_int ?sh :: u32) < 0x10000"
        by (simp add: word_less_def unsigned_ucast_eq take_bit_int_eq_self)
    qed (simp add: header_minor_small)
    have "registry_ok (cs, p2)" using assms(2) kk w by (simp add: registry_ok_def keeps_def)
    moreover have "0 < target_number ?c" using id3 sint n by (simp add: identity_def target_number_def)
    moreover have "nShelf (m_target ?c) < 0x10000" "nSlot (m_target ?c) < 0x100"
      using id3 range by (simp_all add: identity_def)
    ultimately show ?thesis
      unfolding run(4) using number address ok3
      by (simp only: registry_ok_def ids_ok_def fst_conv snd_conv map_append list.map distinct_append set_append
          comp_apply id3) auto
  qed
qed

lemma cstring_each_ok:
  assumes "family_keeps af"
  shows "cstring_each k af n s len seen nRet (cs, p) = Some (r, w') \<Longrightarrow> registry_ok (seen @ cs, p) \<Longrightarrow> registry_ok w'"
proof (induction cs arbitrary: seen nRet p)
  case (Cons c cs)
  show ?case
  proof (cases "n = target_number c")
    case False
    then show ?thesis using Cons.IH [of "seen @ [c]" nRet p] Cons.prems by simp
  next
    case True
    then obtain e c1 p1 where u: "set_config_string k s len (c, p) = Some (e, c1, p1)"
      and rest: "(if e \<noteq> 0 then cstring_each k af n s len (seen @ [c1]) (- 1) (cs, p1)
         else if is_registered c1 = 0 \<and> \<not> is_ours p1 c1
         then do { (_, w) \<leftarrow> remove_target k af (target_number c1) (seen @ c1 # cs, p1); Some (nRet, w) }
         else if is_registered c1 \<noteq> 0 \<and> is_ours p1 c1 then Some (nRet, seen @ registerDiskService c1 # cs, p1)
         else cstring_each k af n s len (seen @ [c1]) nRet (cs, p1)) = Some (r, w')"
      using Cons.prems(1) by (auto split: Option.bind_split_asm)
    have ok: "registry_ok (seen @ c1 # cs, p1)"
      using Cons.prems(2) set_config_string_keeps [OF u] ids_ok_update [of seen c cs c1]
      by (simp add: registry_ok_def keeps_def)
    moreover have "registry_ok (seen @ registerDiskService c1 # cs, p1)"
      using ok ids_ok_update [of seen c1 cs "registerDiskService c1"] by (simp add: registry_ok_def identity_def)
    ultimately show ?thesis
      using rest remove_target_ok [OF assms] Cons.IH [of "seen @ [c1]" _ p1]
      by (auto split: if_split_asm Option.bind_split_asm)
  qed
qed simp

lemma registry_ok_update:
  assumes "registry_ok (cs, p)" "i < length cs" "keeps (cs ! i, p) (c, p')"
  shows "registry_ok (cs[i := c], p')"
  using assms ids_ok_list_update [OF _ assms(2) keeps_imp_or [OF assms(3)]]
  by (simp add: registry_ok_def keeps_def)

lemma registry_ok_map:
  "registry_ok (cs, p) \<Longrightarrow> (\<And>c. m_target (f c) = m_target c) \<Longrightarrow> registry_ok (map f cs, p)"
  by (auto simp: registry_ok_def ids_ok_def identity_def target_number_def comp_def)

lemma device_online_target: "m_target (device_online c) = m_target c"
  by (simp add: device_online_def log_event_def Let_def)

lemma search_from_removed:
  "search_from k ns p = Some (r, p') \<Longrightarrow> removed_targets p' = removed_targets p"
proof (induction ns arbitrary: p)
  case (Cons n ns)
  have "removed_targets q' = removed_targets q" if "aoe_search k i q = Some (e, q')" for i e q q'
    using that by (auto simp: aoe_search_def Let_def dest: next_tag_keeps
        split: if_split_asm Option.bind_split_asm prod.splits)
  then show ?case using Cons
    by (auto simp: Let_def split: if_split_asm Option.bind_split_asm)
qed simp

lemma identify_all_ok: "identify_all_targets k af w = Some w' \<Longrightarrow> registry_ok w \<Longrightarrow> registry_ok w'"
  unfolding identify_all_targets_def by (erule each_keeps_registry) (auto dest: send_identify_keeps)

lemma aoe_search_all_ok:
  assumes "aoe_search_all k af w = Some (r, w')" "registry_ok w"
  shows "registry_ok w'"
proof -
  obtain cs p e q where w: "w = (cs, p)" and s: "search_from k [0..<length (m_aInterfaces (m_pInterfaces (m_pAoEService p)))] p = Some (e, q)"
    using assms(1) by (cases w) (auto simp: aoe_search_all_def split: Option.bind_split_asm)
  have "registry_ok (cs, q)" using assms(2) search_from_removed [OF s] by (simp add: w registry_ok_def)
  then show ?thesis
    using assms(1) s by (auto simp: aoe_search_all_def w split: if_split_asm Option.bind_split_asm dest: identify_all_ok)
qed

section \<open>Everything that happens to the registry\<close>

text \<open>Each event of the driver that touches the list of targets, in any order. The operating system may
  answer differently every time; \<open>rs_service\<close> is whatever flow control does meanwhile.\<close>

inductive registry_step :: "ata_family \<Rightarrow> world \<Rightarrow> world \<Rightarrow> bool" for af where
  rs_ata: "aoe_ata_receive k af h rcv mb w = Some (r, w') \<Longrightarrow> registry_step af w w'"
| rs_config: "aoe_config_receive k af this ifn mac h cfg ac w = Some (r, w') \<Longrightarrow> registry_step af w w'"
| rs_fake: "FakeReturnTimer k af w = Some w' \<Longrightarrow> registry_step af w w'"
| rs_timer: "StateUpdateTimer k af w = Some w' \<Longrightarrow> registry_step af w w'"
| rs_search: "aoe_search_all k af w = Some (r, w') \<Longrightarrow> registry_step af w w'"
| rs_remove: "remove_target k af n w = Some (r, w') \<Longrightarrow> registry_step af w w'"
| rs_cancel: "cancel_commands_on_interface af ifn w = (r, w') \<Longrightarrow> registry_step af w w'"
| rs_reenable: "registry_step af w (reenable_controllers w)"
| rs_mtu: "registry_step af w (adjust_mtu_sizes n w)"
| rs_force: "interface_force_packet_send k af f w = Some (r, w') \<Longrightarrow> registry_step af w w'"
| rs_lun: "registry_step af w (start_lun_search b w)"
| rs_max: "registry_step af w (interface_set_max_transfer_size n w)"
| rs_window: "set_max_outstanding ifn sh n w = Some w' \<Longrightarrow> registry_step af w w'"
| rs_cstring: "interface_set_targets_cstring k af n s len w = Some (r, w') \<Longrightarrow> registry_step af w w'"
| rs_command: "i < length cs \<Longrightarrow> asyncCommand k af (cs ! i, p) = Some (r, c, p') \<Longrightarrow>
    registry_step af (cs, p) (cs[i := c], p')"
| rs_service: "registry_step af (cs, p) (cs, p\<lparr>m_pAoEService := s\<rparr>)"

lemma registry_step_ok:
  assumes "family_keeps af" "registry_step af w w'" "registry_ok w"
  shows "registry_ok w'"
  using assms(2,3)
proof (induction rule: registry_step.induct)
  case (rs_ata k h rcv mb w r w')
  then obtain v where v: "each (addressed h)
      (\<lambda>cp. map_option snd (ata_response k af rcv (Some mb) (AOE_HEADER_GETTAG h) cp)) w = Some v" "w' = apply_removals v"
    by (auto simp: aoe_ata_receive_def split: Option.bind_split_asm)
  have "ids_ok (fst v)"
    using each_registry [OF v(1) rs_ata.prems] ata_response_or [OF assms(1)] by fastforce
  then show ?case unfolding v(2) by (rule apply_removals_ok)
next
  case (rs_config k this ifn mac h cfg ac w r w')
  then obtain ret found v where v: "config_each k af ifn mac h cfg ac [] False w = Some (ret, found, v)"
      "(if ret \<or> found then Some (0, v) else add_target k af this ifn mac h cfg ac v) = Some (r, w')"
    by (auto simp: aoe_config_receive_def split: Option.bind_split_asm)
  have c: "registry_ok v \<and> (\<not> ret \<and> \<not> found \<longrightarrow> (\<forall>c \<in> set (fst v). \<not> addressed h c))"
    using config_each_ok [OF assms(1) v(1)] rs_config.prems by auto
  then show ?case using v(2) add_target_ok by (auto split: if_split_asm)
next
  case (rs_fake k w w')
  show ?case
  proof (cases "m_pControllerToFakeResponse (snd w)")
    case None
    then show ?thesis using rs_fake by (auto simp: FakeReturnTimer_def registry_ok_def split: prod.splits)
  next
    case (Some this)
    then obtain cs p p' i rcv e c q where w: "w = (cs, p')" "first_index (\<lambda>c. ctl_id c = this) cs = Some i"
        "ata_response k af rcv None 0 (cs ! i, p) = Some (e, c, q)" "w' = apply_removals (cs[i := c], q)"
        "p = p'\<lparr>m_pFakeReturnTimer := Stopped\<rparr>"
      using rs_fake.hyps by (cases w) (auto simp: FakeReturnTimer_def Let_def split: option.splits Option.bind_split_asm)
    have "ids_ok (cs[i := c])"
      using rs_fake.prems w(1) ids_ok_list_update [OF _ first_index_less [OF w(2)] ata_response_or [OF assms(1) w(3)]]
      by (simp add: registry_ok_def)
    then show ?thesis unfolding w(4) by (intro apply_removals_ok) simp
  qed
next
  case (rs_timer k w w')
  then obtain v r cs p where v: "check_down_targets k af w = Some v" "aoe_search_all k af v = Some (r, cs, p)"
      "w' = (cs, p\<lparr>m_pStateUpdateTimer := Armed (60 * 1000)\<rparr>)"
    by (auto simp: StateUpdateTimer_def split: Option.bind_split_asm)
  have "registry_ok v"
    using v(1) rs_timer.prems remove_target_ok [OF assms(1)]
    by (auto simp: check_down_targets_def split: prod.splits option.splits)
  then have "registry_ok (cs, p)" by (rule aoe_search_all_ok [OF v(2)])
  then show ?case by (simp add: v(3) registry_ok_def)
next
  case (rs_search k w r w')
  then show ?case by (blast intro: aoe_search_all_ok)
next
  case (rs_remove k n w r w')
  then show ?case by (blast intro: remove_target_ok [OF assms(1)])
next
  case (rs_cancel ifn w r w')
  obtain cs p where w: "w = (cs, p)" by (cases w)
  have "registry_ok (cs[i := c], q)" if "i < length cs" "cancel_command af False (cs ! i, p) = (c, q)" for i c q
    using registry_ok_update [OF _ that(1)] cancel_command_keeps [OF assms(1), of "(cs ! i, p)" False] that(2)
      rs_cancel.prems w by metis
  then show ?case
    using rs_cancel w by (auto simp: cancel_commands_on_interface_def dest: first_index_less
        split: option.splits prod.splits)
next
  case (rs_force k f w r w')
  then show ?case
    by (auto simp: interface_force_packet_send_def dest: force_packet_keeps split: Option.bind_split_asm
        elim!: each_keeps_registry)
next
  case (rs_cstring k n s len w r w')
  then show ?case
    using cstring_each_ok [OF assms(1), of k n s len "[]" 0 "fst w" "snd w"]
    by (simp add: interface_set_targets_cstring_def)
next
  case (rs_command i cs k p r c p')
  then show ?case using registry_ok_update asyncCommand_keeps by blast
qed (auto simp: reenable_controllers_def adjust_mtu_sizes_def start_lun_search_def interface_set_max_transfer_size_def
      set_max_outstanding_def set_mtu_size_def registry_ok_def device_online_target ids_ok_def identity_def
      target_number_def comp_def split: Option.bind_split_asm)

text \<open>One event, with any base class that keeps the targets.\<close>

definition registry_event :: "world \<Rightarrow> world \<Rightarrow> bool" where
  "registry_event w w' \<longleftrightarrow> (\<exists>af. family_keeps af \<and> registry_step af w w')"

interpretation registry: state_machine registry_event registry_ok
  by unfold_locales (auto simp: registry_event_def intro: registry_step_ok)

lemma registry_ok_distinct:
  assumes "registry_ok (cs, p)"
  shows "distinct (map target_number cs) \<and>
    distinct (map (\<lambda>c. (nShelf (m_target c), nSlot (m_target c))) cs) \<and>
    (\<forall>c \<in> set cs. 1 \<le> target_number c \<and> target_ok (m_target c))"
proof -
  have ok: "distinct (map (fst \<circ> identity) cs)" "distinct (map (snd \<circ> identity) cs)"
      "\<forall>c \<in> set cs. target_ok (m_target c) \<and> 0 < target_number c"
    using assms by (auto simp: registry_ok_def ids_ok_def)
  have "target_number = sint \<circ> (fst \<circ> identity)" by (auto simp: target_number_def identity_def)
  then have "map target_number cs = map sint (map (fst \<circ> identity) cs)" by simp
  moreover have "inj_on sint A" for A :: "u32 set" by (rule inj_on_inverseI [of _ word_of_int]) simp
  ultimately have "distinct (map target_number cs)"
    using ok(1) by (simp only: distinct_map [of sint] simp_thms)
  moreover have "snd \<circ> identity = (\<lambda>c. (nShelf (m_target c), nSlot (m_target c)))"
    by (auto simp: identity_def)
  ultimately show ?thesis using ok by auto
qed

text \<open>C15: whatever happens to the registry of targets, in any order, no two targets share a number or an
  address, every number is positive, and the interface list of every target stays well formed.\<close>

theorem registry_invariant:
  assumes "family_keeps af" "(registry_step af)\<^sup>*\<^sup>* (snd (interface_init u s)) (cs, p)"
  shows "distinct (map target_number cs) \<and>
    distinct (map (\<lambda>c. (nShelf (m_target c), nSlot (m_target c))) cs) \<and>
    (\<forall>c \<in> set cs. 1 \<le> target_number c \<and> target_ok (m_target c))"
proof -
  have "registry_ok (snd (interface_init u s))"
    by (simp add: registry_ok_def ids_ok_def interface_init_def Let_def)
  moreover have "registry_event\<^sup>*\<^sup>* (snd (interface_init u s)) (cs, p)"
    using assms(2) by (rule rtranclp_mono [THEN predicate2D, rotated]) (use assms(1) in \<open>auto simp: registry_event_def\<close>)
  ultimately have "registry_ok (cs, p)" by (metis registry.steps_inv)
  then show ?thesis by (rule registry_ok_distinct)
qed

definition example_setup :: interface_setup where
  "example_setup = \<lparr>su_super = True, su_array = True, su_workloop = True, su_timer1 = True,
     su_timer1_added = True, su_timer2 = True, su_timer2_added = True\<rparr>"

definition example_cfg :: aoe_cfghdr where "example_cfg = clear_cfghdr"

definition example_from :: "u32 \<Rightarrow> u32 \<Rightarrow> aoe_header" where
  "example_from shelf slot = aoe_header_to shelf slot AOE_CFG_COMMAND 0"

lemma example_family_keeps: "family_keeps example_family"
  by (auto simp: family_keeps_def example_family_def intro: keeps_same)

lemma two_targets_found:
  "case aoe_config_receive example_kernel example_family (Some 1) 2 17 (example_from 1 0) example_cfg []
          (snd (interface_init example_setup example_service)) of
     Some (_, w) \<Rightarrow>
       (case aoe_config_receive example_kernel example_family (Some 2) 2 18 (example_from 2 0) example_cfg [] w of
          Some (_, cs, p) \<Rightarrow> map target_number cs = [1, 2] | None \<Rightarrow> False)
   | None \<Rightarrow> False"
  by code_simp

theorem registry_invariant_witness:
  "\<exists>cs p. (registry_step example_family)\<^sup>*\<^sup>* (snd (interface_init example_setup example_service)) (cs, p) \<and>
     map target_number cs = [1, 2] \<and> distinct (map (\<lambda>c. (nShelf (m_target c), nSlot (m_target c))) cs)"
proof -
  obtain r w r' cs p where
    "aoe_config_receive example_kernel example_family (Some 1) 2 17 (example_from 1 0) example_cfg []
       (snd (interface_init example_setup example_service)) = Some (r, w)"
    "aoe_config_receive example_kernel example_family (Some 2) 2 18 (example_from 2 0) example_cfg [] w = Some (r', cs, p)"
    and n: "map target_number cs = [1, 2]"
    using two_targets_found by (auto split: option.splits)
  then have run: "(registry_step example_family)\<^sup>*\<^sup>* (snd (interface_init example_setup example_service)) (cs, p)"
    by (meson rs_config converse_rtranclp_into_rtranclp r_into_rtranclp)
  moreover have "distinct (map (\<lambda>c. (nShelf (m_target c), nSlot (m_target c))) cs)"
    using registry_invariant [OF example_family_keeps run] by (rule conjunct1 [OF conjunct2])
  ultimately show ?thesis using n by (intro exI [of _ cs] exI [of _ p] conjI)
qed

section \<open>Replies reach one target\<close>

lemma config_each_skip:
  "\<forall>c \<in> set cs. \<not> addressed h c \<Longrightarrow>
   config_each k af ifn mac h cfg ac seen f (cs @ ds, p) = config_each k af ifn mac h cfg ac (seen @ cs) f (ds, p)"
  by (induction cs arbitrary: seen) simp_all

lemma addressed_identity: "identity c = identity d \<Longrightarrow> addressed h c = addressed h d"
  by (simp add: addressed_def is_device_def identity_def)

lemma addressed_unique:
  assumes "ids_ok (ys @ c # zs)" "addressed h c"
  shows "\<forall>d \<in> set ys \<union> set zs. \<not> addressed h d"
  using assms by (auto simp: ids_ok_def identity_def addressed_def is_device_def split: if_split_asm)

lemma sint_same: "sint a = sint b \<longleftrightarrow> a = b" for a b :: u32
  by (auto dest: arg_cong [of _ _ "word_of_int :: int \<Rightarrow> u32"])

lemma find_target_at:
  assumes "ids_ok (ys @ c # zs)"
  shows "find_target (target_number c) (ys @ c # zs) = Some (length ys)"
proof -
  have "fst (identity d) \<noteq> fst (identity c)" if "d \<in> set ys" for d
  proof -
    have "fst (identity c) \<notin> (fst \<circ> identity) ` set ys" using assms by (simp add: ids_ok_def)
    then show ?thesis using that by (metis comp_apply image_eqI)
  qed
  then have "\<forall>d \<in> set ys. target_number d \<noteq> target_number c"
    by (auto simp: target_number_def identity_def sint_same)
  then have "first_index (\<lambda>d. target_number c = target_number d) (ys @ c # zs) = Some (length ys)"
    by (induction ys) auto
  then show ?thesis by (simp add: find_target_def)
qed

lemma remove_target_at:
  assumes "family_keeps af" "ids_ok (ys @ c # zs)"
  shows "\<exists>p'. remove_target k af (target_number c) (ys @ c # zs, p) = Some (0, ys @ zs, p')"
proof -
  obtain c1 p1 where a: "cancel_command af False (c, p) = (c1, p1)" by (cases "cancel_command af False (c, p)")
  have "target_ok (m_target c1)"
    using cancel_command_keeps [OF assms(1), of "(c, p)" False] a assms(2) by (simp add: keeps_def ids_ok_def)
  then obtain t where "remove_all_target_interfaces (m_target c1) = Some t"
    using remove_interfaces_all [OF _ order_refl] by (auto simp: remove_all_target_interfaces_def)
  then obtain c2 where "remove_all_interfaces k c1 = Some c2" by (simp add: remove_all_interfaces_def)
  then show ?thesis
    using find_target_at [OF assms(2)] a
    by (cases "controller_uninit af (c2, p1)") (simp add: remove_target_def)
qed

text \<open>C14: a reply to a configuration query reaches exactly the target it names: that target is updated in
  place; it is removed from the list if and only if its disk was registered and its configuration
  string is no longer that of this computer. All other targets stay as they were.\<close>

theorem config_reply_outcome:
  assumes "family_keeps af" "registry_ok (ys @ c # zs, p)" "addressed h c"
    "config_update k ifn mac cfg ac (c, p) = Some (c', p')"
  shows "if is_registered c' = 0 \<and> \<not> is_ours p' c'
    then \<exists>p''. aoe_config_receive k af this ifn mac h cfg ac (ys @ c # zs, p) = Some (0, ys @ zs, p'')
    else aoe_config_receive k af this ifn mac h cfg ac (ys @ c # zs, p) = Some (0, ys @ c' # zs, p')"
proof -
  have ok: "ids_ok (ys @ c # zs)" using assms(2) by (simp add: registry_ok_def)
  note others = addressed_unique [OF ok assms(3)]
  have ok': "ids_ok (ys @ c' # zs)"
    using ids_ok_update [OF ok, of c'] config_update_keeps [OF assms(4)] by (simp add: keeps_def)
  have start: "config_each k af ifn mac h cfg ac [] False (ys @ c # zs, p) =
      (if \<not> is_ours p' c' \<and> is_registered c' = 0
       then do { (_, w) \<leftarrow> remove_target k af (target_number c') (ys @ c' # zs, p'); Some (True, True, w) }
       else config_each k af ifn mac h cfg ac (ys @ [c']) True (zs, p'))"
    using others assms(3,4) config_each_skip [of ys h k af ifn mac cfg ac "[]" False "c # zs" p] by simp
  have last: "config_each k af ifn mac h cfg ac (ys @ [c']) True (zs, p') = Some (False, True, ys @ c' # zs, p')"
    using others config_each_skip [of zs h k af ifn mac cfg ac "ys @ [c']" True "[]" p'] by simp
  show ?thesis
    using remove_target_at [OF assms(1) ok', of k p'] start last
    by (auto simp: aoe_config_receive_def)
qed

text \<open>When an interface goes down, the commands of the first controller on it are cancelled; those of all
  other controllers on it stay pending.\<close>

theorem cancel_only_first:
  assumes "i < j" "j < length cs" "connected_to_interface r (m_target (cs ! i)) = 0"
    "connected_to_interface r (m_target (cs ! j)) = 0"
  shows "\<exists>cs' p'. cancel_commands_on_interface af r (cs, p) = (0, cs', p') \<and> cs' ! j = cs ! j"
proof -
  obtain n where n: "first_index (\<lambda>c. connected_to_interface r (m_target c) = 0) cs = Some n"
    using assms(1-3) by (cases "first_index (\<lambda>c. connected_to_interface r (m_target c) = 0) cs")
      (auto simp: first_index_None)
  then have "n \<noteq> j" using first_index_Some [OF n] assms(1,3) by auto
  then show ?thesis
    using n by (cases "cancel_command af False (cs ! n, p)") (simp add: cancel_commands_on_interface_def)
qed

text \<open>The timer that fakes replies ends in a trap when the command it answers is gone: with no command
  and no identify outstanding, tag 0 is taken for the reply to an identify and 512 bytes are read from a header on
  the stack; and when the target was removed meanwhile, its controller is used after its release.\<close>

theorem fake_response_traps:
  assumes "m_pControllerToFakeResponse p = Some this"
    "(\<forall>c \<in> set cs. ctl_id c \<noteq> this) \<or>
     (first_index (\<lambda>c. ctl_id c = this) cs = Some i \<and> currentCommand (cs ! i) = None \<and>
      m_nOutstandingIdentTag (cs ! i) = 0)"
  shows "FakeReturnTimer k af (cs, p) = None"
  using assms(2)
proof
  assume "\<forall>c \<in> set cs. ctl_id c \<noteq> this"
  then have "first_index (\<lambda>c. ctl_id c = this) cs = None" by (simp add: first_index_None)
  then show ?thesis using assms(1) by (simp add: FakeReturnTimer_def)
next
  assume "first_index (\<lambda>c. ctl_id c = this) cs = Some i \<and> currentCommand (cs ! i) = None \<and>
      m_nOutstandingIdentTag (cs ! i) = 0"
  then show ?thesis
    using assms(1) by (simp add: FakeReturnTimer_def ata_response_def store_received_def handle_identify_def fake_dma_def Let_def)
qed

lemma example_controller_target: "m_target example_controller = target_init example_kernel 0 1 2 17 1"
  by (simp add: example_controller_def controller_init_target)

definition claimed_provider :: provider where
  "claimed_provider = example_provider\<lparr>m_pAoEService := example_service
     \<lparr>m_pszOurCString := 65 # replicate (MAX_CONFIG_STRING_LENGTH - 1) 0\<rparr>\<rparr>"

lemma claimed_update:
  "case config_update example_kernel 2 17 example_cfg [] (example_controller\<lparr>m_fRegistered := True\<rparr>, claimed_provider) of
     Some (c', p') \<Rightarrow> is_registered c' = 0 \<and> \<not> is_ours p' c' | None \<Rightarrow> False"
  by code_simp

theorem config_reply_outcome_witness:
  "\<exists>p''. aoe_config_receive example_kernel example_family None 2 17 (example_from 0 1) example_cfg []
     ([example_controller\<lparr>m_fRegistered := True\<rparr>], claimed_provider) = Some (0, [], p'')"
proof -
  obtain c' p' where u: "config_update example_kernel 2 17 example_cfg []
        (example_controller\<lparr>m_fRegistered := True\<rparr>, claimed_provider) = Some (c', p')"
      "is_registered c' = 0 \<and> \<not> is_ours p' c'"
    using claimed_update by (auto split: option.splits)
  have "target_number (example_controller\<lparr>m_fRegistered := True\<rparr>) = 1"
    by (simp add: target_number_def example_controller_target target_init_def)
  then have ok: "registry_ok ([] @ example_controller\<lparr>m_fRegistered := True\<rparr> # [], claimed_provider)"
    by (simp add: registry_ok_def ids_ok_def example_controller_target claimed_provider_def example_provider_def)
      (simp add: target_init_def)
  have a: "addressed (example_from 0 1) (example_controller\<lparr>m_fRegistered := True\<rparr>)"
    by (simp add: addressed_def example_controller_target) code_simp
  show ?thesis
    using config_reply_outcome [OF example_family_keeps ok a u(1), of None] u(2)
    by (simp only: if_True append.left_neutral simp_thms)
qed

theorem cancel_only_first_witness:
  "\<exists>cs' p'. cancel_commands_on_interface example_family 2
      ([example_controller, example_controller\<lparr>currentCommand := Some example_command\<rparr>], example_provider) =
      (0, cs', p') \<and> currentCommand (cs' ! 1) = Some example_command"
proof -
  have c: "connected_to_interface 2 (m_target example_controller) = 0"
    unfolding example_controller_target by code_simp
  from cancel_only_first [of 0 1 "[example_controller, example_controller\<lparr>currentCommand := Some example_command\<rparr>]"
      2 example_family example_provider]
  obtain cs' p' where r: "cancel_commands_on_interface example_family 2
      ([example_controller, example_controller\<lparr>currentCommand := Some example_command\<rparr>], example_provider) = (0, cs', p')"
      and "cs' ! 1 = example_controller\<lparr>currentCommand := Some example_command\<rparr>"
    using c by auto
  moreover have "currentCommand (example_controller\<lparr>currentCommand := Some example_command\<rparr>) =
      Some example_command" by simp
  ultimately have "currentCommand (cs' ! 1) = Some example_command" by (simp only:)
  with r show ?thesis by blast
qed

theorem fake_response_traps_witness:
  "FakeReturnTimer example_kernel example_family
     ([example_controller], example_provider\<lparr>m_pControllerToFakeResponse := Some (ctl_id example_controller)\<rparr>) = None"
proof (rule fake_response_traps [where this = "ctl_id example_controller" and i = 0])
  have "currentCommand example_controller = None" "m_nOutstandingIdentTag example_controller = 0"
    by (simp_all add: example_controller_def controller_init_def Let_def update_interface_property_def
        setProperty_def removeProperty_def)
  then show "(\<forall>c \<in> set [example_controller]. ctl_id c \<noteq> ctl_id example_controller) \<or>
     (first_index (\<lambda>c. ctl_id c = ctl_id example_controller) [example_controller] = Some 0 \<and>
      currentCommand ([example_controller] ! 0) = None \<and> m_nOutstandingIdentTag ([example_controller] ! 0) = 0)"
    by simp
qed simp

section \<open>The search for targets\<close>

text \<open>The number of entries up to and including the last enabled one.\<close>

definition searched_entries :: "EInterfaces \<Rightarrow> nat" where
  "searched_entries I = length (dropWhile (\<lambda>e. \<not> m_fEnabled e) (rev (m_aInterfaces I)))"

lemma searched_entries_bound: "searched_entries I \<le> length (m_aInterfaces I)"
  unfolding searched_entries_def by (metis length_dropWhile_le length_rev)

lemma dropWhile_rev_enabled:
  "n < length (dropWhile (\<lambda>e. \<not> P e) (rev xs)) \<longleftrightarrow> (\<exists>j. n \<le> j \<and> j < length xs \<and> P (xs ! j))"
proof (induction xs rule: rev_induct)
  case (snoc x xs)
  show ?case
  proof (cases "P x")
    case True
    then have "n < length (dropWhile (\<lambda>e. \<not> P e) (rev (xs @ [x]))) \<longleftrightarrow> n < Suc (length xs)" by simp
    also have "\<dots> \<longleftrightarrow> (\<exists>j. n \<le> j \<and> j < length (xs @ [x]) \<and> P ((xs @ [x]) ! j))"
    proof
      assume "n < Suc (length xs)"
      then show "\<exists>j. n \<le> j \<and> j < length (xs @ [x]) \<and> P ((xs @ [x]) ! j)"
        using True by (intro exI [of _ "length xs"]) simp
    qed auto
    finally show ?thesis .
  next
    case False
    then have "n < length (dropWhile (\<lambda>e. \<not> P e) (rev (xs @ [x]))) \<longleftrightarrow>
        (\<exists>j. n \<le> j \<and> j < length xs \<and> P (xs ! j))" using snoc by simp
    also have "\<dots> \<longleftrightarrow> (\<exists>j. n \<le> j \<and> j < length (xs @ [x]) \<and> P ((xs @ [x]) ! j))"
      using False by (auto simp: nth_append less_Suc_eq)
    finally show ?thesis .
  qed
qed simp

lemma nth_interface_enabled:
  assumes "table_ok I" "\<forall>e \<in> set (m_aInterfaces I). m_fEnabled e \<longrightarrow> m_ifnet e \<noteq> 0"
  shows "if n < searched_entries I
    then EInterfaces_get_nth_interface I n \<noteq> 0 \<and> EInterfaces_is_used I (EInterfaces_get_nth_interface I n) = 1
    else EInterfaces_get_nth_interface I n = 0"
proof (cases "first_index m_fEnabled (drop n (m_aInterfaces I))")
  case None
  have "\<not> m_fEnabled (m_aInterfaces I ! j)" if "n \<le> j" "j < length (m_aInterfaces I)" for j
  proof -
    have "drop n (m_aInterfaces I) ! (j - n) \<in> set (drop n (m_aInterfaces I))" using that by (intro nth_mem) auto
    then show ?thesis using None that by (auto simp: first_index_None)
  qed
  then have "\<not> n < searched_entries I" unfolding searched_entries_def dropWhile_rev_enabled by blast
  then show ?thesis using None by (simp add: EInterfaces_get_nth_interface_def)
next
  case (Some j)
  then have j: "n + j < length (m_aInterfaces I)" "m_fEnabled (m_aInterfaces I ! (n + j))"
    using first_index_Some [OF Some] by auto
  then have "n < searched_entries I" unfolding searched_entries_def dropWhile_rev_enabled
    by (intro exI [of _ "n + j"]) simp
  moreover have "EInterfaces_is_used I (m_ifnet (m_aInterfaces I ! (n + j))) = 1"
    using assms(1) j by (simp add: table_ok_def EInterfaces_is_used_def read_if_def)
  ultimately show ?thesis
    using assms(2) j Some by (simp add: EInterfaces_get_nth_interface_def)
qed

lemma aoe_search_queues:
  assumes "kernel_ok k" "EInterfaces_is_used (m_pInterfaces (m_pAoEService p)) r = 1"
  shows "\<exists>p' item. aoe_search k r p = Some (0, p') \<and>
    m_to_send_queue (m_pAoEService p') = m_to_send_queue (m_pAoEService p) @ [item] \<and> ts_if_sent item = r \<and>
    m_pInterfaces (m_pAoEService p') = m_pInterfaces (m_pAoEService p)"
proof -
  obtain tag q where tag: "next_tag p = (tag, q)" by (cases "next_tag p")
  then have q: "m_pAoEService q = m_pAoEService p" by (auto simp: next_tag_def Let_def)
  have k: "ifnet_lladdr_err k r = 0" "IOMalloc_sent_ok k" "IOMalloc_to_send_ok k" "mbuf_gethdr_err k = 0"
      "mbuf_prepend_err k = 0" using assms(1) by (simp_all add: kernel_ok_def)
  have send: "\<exists>s' item. send_packet_on_interface k r T m (- 1) False (m_pAoEService q) = Some (0, s') \<and>
      m_to_send_queue s' = m_to_send_queue (m_pAoEService p) @ [item] \<and> ts_if_sent item = r \<and>
      m_pInterfaces s' = m_pInterfaces (m_pAoEService p)" for T m
    using send_on_used_interface [OF assms(2) k(1-3), of T m "- 1" False] unfolding q by blast
  let ?T = "TAG_BROADCAST_MASK OR tag"
  let ?m = "\<lparr>ether_dhost = ifnet_broadcast k r, ether_shost = 0, ether_type = htons ETHERTYPE_AOE,
      pk_aoe = aoe_header_to SHELF_BROADCAST SLOT_BROADCAST AOE_CFG_COMMAND ?T,
      pk_body = CFG ((AOE_CFGHEADER_CLEAR clear_cfghdr)\<lparr>ac_scnt_aoe_ccmd :=
        AOE_HEADER_SETSECTOR_CMD (get_sector_count (m_pAoEService q)) CONFIG_STR_GET\<rparr>), pk_data = []\<rparr>"
  from send [of ?T ?m] obtain s' item where
      s': "send_packet_on_interface k r ?T ?m (- 1) False (m_pAoEService q) = Some (0, s')"
        "m_to_send_queue s' = m_to_send_queue (m_pAoEService p) @ [item]" "ts_if_sent item = r"
        "m_pInterfaces s' = m_pInterfaces (m_pAoEService p)" by blast
  then have "aoe_search k r p = Some (0, q\<lparr>m_pAoEService := s'\<rparr>)"
    using k(4,5) by (simp add: aoe_search_def tag Let_def)
  then show ?thesis using s'(2-4) by (intro exI [of _ "q\<lparr>m_pAoEService := s'\<rparr>"] exI [of _ item]) simp
qed

lemma search_from_queues:
  assumes "kernel_ok k" "m_pInterfaces (m_pAoEService p) = I" "n \<le> m" "m \<le> l"
    "\<forall>i. if i < m then EInterfaces_get_nth_interface I i \<noteq> 0 \<and>
             EInterfaces_is_used I (EInterfaces_get_nth_interface I i) = 1
         else EInterfaces_get_nth_interface I i = 0"
  shows "\<exists>p' items. search_from k [n..<l] p = Some (0, p') \<and>
    m_to_send_queue (m_pAoEService p') = m_to_send_queue (m_pAoEService p) @ items \<and>
    map ts_if_sent items = map (EInterfaces_get_nth_interface I) [n..<m]"
  using assms(2,3)
proof (induction "m - n" arbitrary: n p)
  case 0
  then have n: "n = m" by simp
  have "search_from k [m..<l] p = Some (0, p)"
  proof (cases "m < l")
    case True
    then show ?thesis using assms(5) 0(2) by (simp add: upt_conv_Cons Let_def)
  qed simp
  then show ?case unfolding n by (intro exI [of _ p] exI [of _ "[]"]) simp
next
  case (Suc d)
  then have n: "n < m" by simp
  let ?r = "EInterfaces_get_nth_interface I n"
  have r: "?r \<noteq> 0" "EInterfaces_is_used I ?r = 1" using assms(5) n by (metis)+
  obtain q item where q: "aoe_search k ?r p = Some (0, q)" "m_pInterfaces (m_pAoEService q) = I"
      "m_to_send_queue (m_pAoEService q) = m_to_send_queue (m_pAoEService p) @ [item]" "ts_if_sent item = ?r"
    using aoe_search_queues [OF assms(1), of p ?r] r(2) Suc.prems(1) by auto
  have "d = m - Suc n" "Suc n \<le> m" using Suc.hyps(2) n by simp_all
  from Suc.hyps(1) [OF this(1) q(2) this(2)] obtain p' items where
      "search_from k [Suc n..<l] q = Some (0, p')"
      "m_to_send_queue (m_pAoEService p') = m_to_send_queue (m_pAoEService q) @ items"
      "map ts_if_sent items = map (EInterfaces_get_nth_interface I) [Suc n..<m]" by blast
  moreover have "[n..<l] = n # [Suc n..<l]" "[n..<m] = n # [Suc n..<m]"
    using n assms(4) by (simp_all add: upt_conv_Cons)
  ultimately show ?case
    using q r(1) Suc.prems(1) by (intro exI [of _ p'] exI [of _ "item # items"]) simp
qed

text \<open>A search for targets broadcasts once for every port entry up to the last enabled one, also for the
  entries that are not enabled: those repeat the search on the next enabled port. With only the last
  of six ports enabled, the same query goes out six times.\<close>

theorem search_broadcasts:
  assumes "kernel_ok k" "m_pInterfaces (m_pAoEService p) = I" "table_ok I"
    "\<forall>e \<in> set (m_aInterfaces I). m_fEnabled e \<longrightarrow> m_ifnet e \<noteq> 0"
  shows "\<exists>p' items. search_from k [0..<length (m_aInterfaces I)] p = Some (0, p') \<and>
    m_to_send_queue (m_pAoEService p') = m_to_send_queue (m_pAoEService p) @ items \<and>
    length items = searched_entries I \<and>
    map ts_if_sent items = map (EInterfaces_get_nth_interface I) [0..<searched_entries I]"
proof -
  obtain p' items where "search_from k [0..<length (m_aInterfaces I)] p = Some (0, p')"
      "m_to_send_queue (m_pAoEService p') = m_to_send_queue (m_pAoEService p) @ items"
      and items: "map ts_if_sent items = map (EInterfaces_get_nth_interface I) [0..<searched_entries I]"
    using search_from_queues [OF assms(1,2) le0 searched_entries_bound] nth_interface_enabled [OF assms(3,4)] by blast
  moreover have "length items = searched_entries I" using arg_cong [OF items, of length] by simp
  ultimately show ?thesis by blast
qed

definition last_port :: EInterfaces where
  "last_port = EInterfaces_init\<lparr>m_aInterfaces := (m_aInterfaces EInterfaces_init)
     [5 := EInterface_init\<lparr>m_fEnabled := True, m_ifnet := 9\<rparr>]\<rparr>"

theorem search_broadcasts_witness:
  "\<exists>p' items. search_from example_kernel [0..<6]
      (example_provider\<lparr>m_pAoEService := example_service\<lparr>m_pInterfaces := last_port\<rparr>\<rparr>) = Some (0, p') \<and>
    m_to_send_queue (m_pAoEService p') = m_to_send_queue example_service @ items \<and>
    map ts_if_sent items = [9, 9, 9, 9, 9, 9]"
proof -
  have t: "table_ok last_port" by (simp add: table_ok_def All_less_Suc numeral_eq_Suc) code_simp
  have z: "\<forall>e \<in> set (m_aInterfaces last_port). m_fEnabled e \<longrightarrow> m_ifnet e \<noteq> 0" by code_simp
  have "m_pInterfaces (m_pAoEService (example_provider\<lparr>m_pAoEService := example_service
      \<lparr>m_pInterfaces := last_port\<rparr>\<rparr>)) = last_port" by simp
  from search_broadcasts [OF kernel_ok_example this t z] obtain p' items where
      "search_from example_kernel [0..<length (m_aInterfaces last_port)]
        (example_provider\<lparr>m_pAoEService := example_service\<lparr>m_pInterfaces := last_port\<rparr>\<rparr>) = Some (0, p')"
      "map ts_if_sent items = map (EInterfaces_get_nth_interface last_port) [0..<searched_entries last_port]"
      "m_to_send_queue (m_pAoEService p') = m_to_send_queue (m_pAoEService (example_provider
        \<lparr>m_pAoEService := example_service\<lparr>m_pInterfaces := last_port\<rparr>\<rparr>)) @ items"
    by blast
  moreover have "m_to_send_queue (m_pAoEService (example_provider
      \<lparr>m_pAoEService := example_service\<lparr>m_pInterfaces := last_port\<rparr>\<rparr>)) = m_to_send_queue example_service" by simp
  moreover have "length (m_aInterfaces last_port) = 6" by code_simp
  moreover have "map (EInterfaces_get_nth_interface last_port) [0..<searched_entries last_port] = [9, 9, 9, 9, 9, 9]"
    by code_simp
  ultimately show ?thesis by metis
qed
end
