(* ===== verification/Driver.thy ===== *)
theory Driver
  imports RegistryInv
begin

unbundle bit_operations_syntax

text \<open>
  The driver as a whole: the operations of \<open>AoE/AoEService.cpp\<close> that work on the interfaces, the queues,
  the targets and the packet filters together, its start and stop, the path of a received packet, and
  the callbacks of the packet filter in \<open>AoE/AoEtherFilter.c\<close>.

  The command gate makes the operations run one at a time; an operation that goes through the gate
  traps when there is none. The value \<open>runAction\<close> returns for an action without a result is not modelled:
  no caller uses it but to print a message.
\<close>

section \<open>State\<close>

text \<open>
  \<open>g_pController\<close>: the global pointer to the service, which both C files keep and set together.
  \<open>ctl_registered\<close>: the control socket of the user interface is registered.
\<close>

record driver =
  dr_world :: world
  dr_filters :: filter_table
  m_pCmdGate :: bool
  g_pController :: bool
  ctl_registered :: bool

abbreviation (input) service_of :: "world \<Rightarrow> service" where
  "service_of w \<equiv> m_pAoEService (snd w)"

definition on_service :: "(service \<Rightarrow> service) \<Rightarrow> world \<Rightarrow> world" where
  "on_service f w = (fst w, (snd w)\<lparr>m_pAoEService := f (service_of w)\<rparr>)"

section \<open>Start and stop\<close>

text \<open>What \<open>start\<close> depends on: the base class, the registration of the control socket, the controller
  interface (\<open>init\<close>, \<open>attach\<close>, \<open>start\<close>), the creation and registration of the three timers in turn, and the gate.
  \<open>service_start\<close> holds all that \<open>start\<close> sets in the service.\<close>

record start_setup =
  st_super :: bool
  st_ctl :: bool
  st_interface :: interface_setup
  st_attach :: bool
  st_start :: bool
  st_timers :: "bool list"
  st_gate :: bool

text \<open>When \<open>attach\<close> fails the function, of type \<open>bool\<close>, returns \<open>kIOReturnError\<close>, which is true.\<close>

definition driver_start :: "start_setup \<Rightarrow> filter_table \<Rightarrow> bool \<times> driver" where
  "driver_start u t =
     (let d = \<lparr>dr_world = ([], snd (snd (interface_init (st_interface u) service_start))), dr_filters = t,
               m_pCmdGate = False, g_pController = False, ctl_registered = False\<rparr>
      in if \<not> st_super u \<or> \<not> st_ctl u then (False, d)
         else
           let (initialised, w) = interface_init (st_interface u) service_start;
               d = d\<lparr>dr_world := w, dr_filters := filter_init t, g_pController := True, ctl_registered := True\<rparr>
           in if \<not> initialised then (False, d)
              else if \<not> st_attach u then (True, d)
              else if \<not> st_start u then (False, d)
              else if \<not> su_workloop (st_interface u) then (True, d)
              else if \<not> list_all (\<lambda>ok. ok) (st_timers u) then (False, d\<lparr>ctl_registered := False\<rparr>)
              else if \<not> st_gate u then (False, d)
              else (True, d\<lparr>m_pCmdGate := True\<rparr>))"

definition driver_stop :: "ata_family \<Rightarrow> driver \<Rightarrow> driver option" where
  "driver_stop af d = do {
     let d = d\<lparr>m_pCmdGate := False, ctl_registered := False\<rparr>;
     t \<leftarrow> filter_uninit (dr_filters d);
     let d = d\<lparr>dr_filters := t, g_pController := False\<rparr>;
     Some (d\<lparr>dr_world := on_service service_stop (interface_uninit af (dr_world d))\<rparr>) }"

section \<open>Enabling and disabling ports\<close>

definition get_mtu :: "service \<Rightarrow> u32" where
  "get_mtu s = m_Min_MTU (m_pInterfaces s)"

definition get_payload_size :: "service \<Rightarrow> u32" where
  "get_payload_size s = 512 * get_sector_count s"

definition set_interfaces :: "EInterfaces \<Rightarrow> world \<Rightarrow> world" where
  "set_interfaces I = on_service (\<lambda>s. s\<lparr>m_pInterfaces := I\<rparr>)"

definition cg_enable_interface :: "kernel \<Rightarrow> int \<Rightarrow> world \<times> filter_table \<Rightarrow> (world \<times> filter_table) option" where
  "cg_enable_interface k nEthernetNumber wt = do {
     let (w, t) = wt;
     (result, I, t) \<leftarrow> EInterfaces_enable_interface k nEthernetNumber (m_pInterfaces (service_of w)) t;
     let w = set_interfaces I w;
     Some (if result = KERN_SUCCESS
           then start_lun_search True (reenable_controllers (adjust_mtu_sizes (sint (get_mtu (service_of w))) w))
           else w, t) }"

definition enable_interface :: "kernel \<Rightarrow> int \<Rightarrow> driver \<Rightarrow> driver option" where
  "enable_interface k nEthernetNumber d =
     (if \<not> m_pCmdGate d then None
      else map_option (\<lambda>(w, t). d\<lparr>dr_world := w, dr_filters := t\<rparr>)
             (cg_enable_interface k nEthernetNumber (dr_world d, dr_filters d)))"

text \<open>
  \<open>get_nth_interface\<close> is asked for the interface of the port before it is disconnected; for a port that is
  not enabled it answers with the next enabled one. The statement that would reset a counter through the
  last item of the sent queue is never reached: after the loop the item is null.
\<close>

definition stop_timers :: "service \<Rightarrow> service" where
  "stop_timers s = s\<lparr>m_pRetransmitTimer := (m_pRetransmitTimer s)\<lparr>tm_enabled := False\<rparr>,
                     m_pTransmitTimer := (m_pTransmitTimer s)\<lparr>tm_enabled := False\<rparr>\<rparr>"

definition cg_disable_interface :: "kernel \<Rightarrow> ata_family \<Rightarrow> int \<Rightarrow> world \<Rightarrow> world option" where
  "cg_disable_interface k af nEthernetNumber w = do {
     let w = on_service stop_timers w;
     let I = m_pInterfaces (service_of w);
     let ifn = (if nEthernetNumber < 0 then 0 else EInterfaces_get_nth_interface I (nat nEthernetNumber));
     (_, I) \<leftarrow> EInterfaces_interface_disconnected k nEthernetNumber I;
     let w = on_service (purge_sent \<circ> purge_to_send) (set_interfaces I w);
     let w = on_service (enable_retransmit_timer \<circ> enable_transmit_timer 3) w;
     Some (snd (cancel_commands_on_interface af ifn w)) }"

definition interface_disconnected :: "kernel \<Rightarrow> ata_family \<Rightarrow> int \<Rightarrow> driver \<Rightarrow> driver option" where
  "interface_disconnected k af nEthernetNumber d =
     (if \<not> m_pCmdGate d then None
      else map_option (\<lambda>w. d\<lparr>dr_world := w\<rparr>) (cg_disable_interface k af nEthernetNumber (dr_world d)))"

definition disable_interface :: "kernel \<Rightarrow> ata_family \<Rightarrow> int \<Rightarrow> driver \<Rightarrow> (int \<times> driver) option" where
  "disable_interface k af nEthernetNumber d = do {
     d \<leftarrow> interface_disconnected k af nEthernetNumber d;
     (result, t) \<leftarrow> disable_filtering nEthernetNumber (dr_filters d);
     Some (result, d\<lparr>dr_filters := t\<rparr>) }"

definition interface_reconnected :: "kernel \<Rightarrow> int \<Rightarrow> ifnet \<Rightarrow> driver \<Rightarrow> driver option" where
  "interface_reconnected k nEthernetNumber enetifnet d = do {
     I \<leftarrow> EInterfaces_interface_reconnected k nEthernetNumber enetifnet (m_pInterfaces (service_of (dr_world d)));
     let w = set_interfaces I (dr_world d);
     let w = reenable_controllers (adjust_mtu_sizes (sint (get_mtu (service_of w))) w);
     Some (d\<lparr>dr_world := w\<rparr>) }"

section \<open>Settings and queries\<close>

text \<open>The configuration string of this computer; \<open>fString\<close>: the string object of the registry was created.
  The buffer is copied in full.\<close>

definition set_our_cstring :: "bool \<Rightarrow> u8 list \<Rightarrow> world \<Rightarrow> (int \<times> world) option" where
  "set_our_cstring fString pszOurCString w = do {
     text \<leftarrow> cstr pszOurCString;
     (if length pszOurCString < MAX_CONFIG_STRING_LENGTH then None
      else Some (if fString then 0 else - 1,
        on_service (\<lambda>s. s\<lparr>prop_our_cstring := if fString then Some text else None,
          m_pszOurCString := take MAX_CONFIG_STRING_LENGTH pszOurCString\<rparr>) w)) }"

definition set_user_window :: "int \<Rightarrow> world \<Rightarrow> world" where
  "set_user_window nMaxSize = on_service (\<lambda>s. s\<lparr>m_pInterfaces := (m_pInterfaces s)\<lparr>m_nMaxUserWindow := nMaxSize\<rparr>\<rparr>)"

text \<open>
  The result, the number of targets stored for the caller, and the state. The function sleeps between the search and
  the count; the replies that come in meanwhile are steps of their own, and the count here is the one before them.
\<close>

definition find_targets :: "kernel \<Rightarrow> ata_family \<Rightarrow> world \<Rightarrow> (int \<times> int \<times> world) option" where
  "find_targets k af w = do {
     (ret, w) \<leftarrow> aoe_search_all k af w;
     Some (if ret \<noteq> 0 then (ret, 0, w) else (0, number_of_targets w, w)) }"

definition get_target_info :: "int \<Rightarrow> world \<Rightarrow> int \<times> TargetInfo option" where
  "get_target_info nDevice w =
     (case interface_get_target_info nDevice w of Some t \<Rightarrow> (0, Some t) | None \<Rightarrow> (- 1, None))"

definition get_outstanding :: "ifnet \<Rightarrow> world \<Rightarrow> int" where
  "get_outstanding ifref w = EInterfaces_get_outstanding (m_pInterfaces (service_of w)) ifref"

definition get_error_info :: "world \<Rightarrow> int \<times> int" where
  "get_error_info w = (m_nNumUnexpectedResponses (service_of w), m_nNumRetransmits (service_of w))"

section \<open>Received packets\<close>

definition count_unexpected :: "world \<Rightarrow> world" where
  "count_unexpected = on_service (\<lambda>s. s\<lparr>m_nNumUnexpectedResponses := s32 (m_nNumUnexpectedResponses s + 1)\<rparr>)"

text \<open>The headers are read through pointers into the first mbuf; \<open>None\<close> when it is shorter than they are.\<close>

definition dispatch :: "kernel \<Rightarrow> ata_family \<Rightarrow> nat option \<Rightarrow> ifnet \<Rightarrow> mac \<Rightarrow> aoe_header \<Rightarrow> rx_mbuf \<Rightarrow> world \<Rightarrow> world option" where
  "dispatch k af this ifp shost h mb w =
     (if AOE_HEADER_GETCMD h = AOE_ATA_COMMAND then do {
        a \<leftarrow> aoe_atahdr_at (drop 10 (rx_mem mb));
        (_, w) \<leftarrow> aoe_ata_receive k af h (a, drop 22 (rx_mem mb)) mb w;
        Some w }
      else if AOE_HEADER_GETCMD h = AOE_CFG_COMMAND then do {
        cfg \<leftarrow> aoe_cfghdr_at (drop 10 (rx_mem mb));
        (_, w) \<leftarrow> aoe_config_receive k af this ifp shost h cfg (drop 18 (rx_mem mb)) w;
        Some w }
      else Some (count_unexpected w))"

definition expected :: "bool \<Rightarrow> u32 \<Rightarrow> bool" where
  "expected fPacketFound tag \<longleftrightarrow> fPacketFound \<or> DEVICE_ONLINE_TAG = tag \<or> TAG_BROADCAST_MASK AND tag \<noteq> 0"

definition cg_aoe_incoming :: "kernel \<Rightarrow> (SentPkt \<Rightarrow> SentPkt) \<Rightarrow> ata_family \<Rightarrow> nat option \<Rightarrow> ifnet \<Rightarrow> mac
    \<Rightarrow> rx_mbuf \<Rightarrow> world \<Rightarrow> world option" where
  "cg_aoe_incoming k freed af this ifp shost mb w = do {
     h \<leftarrow> aoe_header_at (rx_mem mb);
     let tag = AOE_HEADER_GETTAG h;
     (if AOE_HEADER_GETFLAG h AND AOE_FLAG_RESPONSE = 0 then Some w
      else do {
        (fPacketFound, s) \<leftarrow> response_found k freed tag (service_of w);
        let w = on_service (\<lambda>_. s) w;
        (if AOE_HEADER_GETFLAG h AND AOE_FLAG_ERROR \<noteq> 0 then Some (count_unexpected w)
         else do {
           w \<leftarrow> (if expected fPacketFound tag then dispatch k af this ifp shost h mb w else Some (count_unexpected w));
           Some (if fPacketFound \<and> m_to_send_queue (service_of w) \<noteq> []
                 then on_service (enable_transmit_timer 3) w else w) }) }) }"

definition aoe_incoming :: "kernel \<Rightarrow> (SentPkt \<Rightarrow> SentPkt) \<Rightarrow> ata_family \<Rightarrow> nat option \<Rightarrow> ifnet \<Rightarrow> mac
    \<Rightarrow> rx_mbuf \<Rightarrow> driver \<Rightarrow> (int \<times> driver) option" where
  "aoe_incoming k freed af this ifp shost mb d =
     (if \<not> m_pCmdGate d then None
      else map_option (\<lambda>w. (0, d\<lparr>dr_world := w\<rparr>)) (cg_aoe_incoming k freed af this ifp shost mb (dr_world d)))"

definition c_aoe_incoming :: "kernel \<Rightarrow> (SentPkt \<Rightarrow> SentPkt) \<Rightarrow> ata_family \<Rightarrow> nat option \<Rightarrow> ifnet \<Rightarrow> mac
    \<Rightarrow> rx_mbuf \<Rightarrow> driver \<Rightarrow> (int \<times> driver) option" where
  "c_aoe_incoming k freed af this ifp shost mb d =
     (if g_pController d then aoe_incoming k freed af this ifp shost mb d else Some (- 1, d))"

section \<open>The callbacks of the packet filter\<close>

text \<open>A packet as the filter sees it: the mark of the driver on the mbuf (its length and value), the
  type and source address in the frame header, and the data.\<close>

record frame =
  fr_mark :: "(nat \<times> u32) option"
  fr_ether_type :: u16
  fr_ether_shost :: mac
  fr_mbuf :: rx_mbuf

abbreviation (input) INBOUND_DONE :: u32 where "INBOUND_DONE \<equiv> 1"
abbreviation (input) OUTBOUND_DONE :: u32 where "OUTBOUND_DONE \<equiv> 2"
abbreviation (input) EINVAL :: int where "EINVAL \<equiv> 22"
abbreviation (input) EOPNOTSUPP :: int where "EOPNOTSUPP \<equiv> 102"
abbreviation (input) AF_UNSPEC :: int where "AF_UNSPEC \<equiv> 0"

definition CheckTag :: "frame \<Rightarrow> u32 \<Rightarrow> bool" where
  "CheckTag m mark = (case fr_mark m of None \<Rightarrow> False
     | Some (len, v) \<Rightarrow> v AND mark \<noteq> 0 \<and> len = 4)"

text \<open>\<open>alloc\<close>: the result of \<open>mbuf_tag_allocate\<close>.\<close>

definition SetTag :: "int \<Rightarrow> u32 \<Rightarrow> frame \<Rightarrow> int \<times> frame" where
  "SetTag alloc mark m = (case fr_mark m of
       None \<Rightarrow> if alloc = 0 then (0, m\<lparr>fr_mark := Some (4, mark)\<rparr>) else (alloc, m)
     | Some (len, v) \<Rightarrow> if len \<noteq> 4 then (EINVAL, m) else (0, m\<lparr>fr_mark := Some (len, mark)\<rparr>))"

definition aoefilter_input_func :: "kernel \<Rightarrow> (SentPkt \<Rightarrow> SentPkt) \<Rightarrow> ata_family \<Rightarrow> nat option \<Rightarrow> int \<Rightarrow> ifnet \<Rightarrow> int
    \<Rightarrow> frame \<times> driver \<Rightarrow> (int \<times> frame \<times> driver) option" where
  "aoefilter_input_func k freed af this alloc ifn protocol md = do {
     let (m, d) = md;
     (if CheckTag m INBOUND_DONE then Some (0, m, d)
      else
        let (err, m) = SetTag alloc INBOUND_DONE m
        in if err \<noteq> 0 then Some (err, m, d)
           else if protocol = AF_UNSPEC \<and> fr_ether_type m = htons ETHERTYPE_AOE then do {
             (_, d) \<leftarrow> c_aoe_incoming k freed af this ifn (fr_ether_shost m) (fr_mbuf m) d;
             Some (0, m, d) }
           else Some (0, m, d)) }"

definition aoefilter_output_func :: "int \<Rightarrow> frame \<Rightarrow> int \<times> frame" where
  "aoefilter_output_func alloc m =
     (if CheckTag m OUTBOUND_DONE then (0, m) else SetTag alloc OUTBOUND_DONE m)"

datatype kev_event = KEV_DL_LINK_OFF | KEV_DL_LINK_ON | KEV_OTHER nat

definition filter_index :: "ifnet \<Rightarrow> filter_table \<Rightarrow> int" where
  "filter_index ifn t = (case first_index (\<lambda>i. ifn = fi_ifnet i) (g_aInterfaces t) of
     Some n \<Rightarrow> int n | None \<Rightarrow> int (length (g_aInterfaces t)))"

definition aoefilter_event_func :: "kernel \<Rightarrow> ata_family \<Rightarrow> ifnet \<Rightarrow> kev_event \<Rightarrow> driver \<Rightarrow> driver option" where
  "aoefilter_event_func k af ifn ev d =
     (let n = filter_index ifn (dr_filters d) in
      case ev of
        KEV_DL_LINK_OFF \<Rightarrow> if g_pController d then interface_disconnected k af n d else Some d
      | KEV_DL_LINK_ON \<Rightarrow> if g_pController d then interface_reconnected k n ifn d else Some d
      | KEV_OTHER _ \<Rightarrow> Some d)"

definition aoefilter_ioctl_func :: "int \<Rightarrow> int" where
  "aoefilter_ioctl_func ioctl_cmd = EOPNOTSUPP"

end
