(* ===== verification/UserInterface.thy ===== *)
theory UserInterface
  imports Driver
begin

unbundle bit_operations_syntax

text \<open>
  The control socket of the kernel extension, \<open>AoE/AoEUserInterface.c\<close>, and the \<open>c_\<close> functions of
  \<open>AoE/AoEService.cpp\<close> that it calls: reading and setting options, and the lock that a connected client holds.
\<close>

section \<open>Data passed over the socket\<close>

record preferences =
  nNumberOfPorts :: u32
  pf_nMaxTransferSize :: u32
  nUserBlockCountWindow :: u32
  anEnabledPorts :: "u32 list"
  aszComputerConfigString :: "u8 list"

record ConfigString =
  cs_nTargetNumber :: u32
  cs_Length :: u32
  cs_pszConfig :: "u8 list"

text \<open>The sizes of the structures, with 4-byte pointers.\<close>

abbreviation (input) size_preferences :: nat where "size_preferences \<equiv> 1060"
abbreviation (input) size_target_info :: nat where "size_target_info \<equiv> 144"
abbreviation (input) size_error_info :: nat where "size_error_info \<equiv> 8"
abbreviation (input) size_config_string :: nat where "size_config_string \<equiv> 1032"
abbreviation (input) size_force_packet :: nat where "size_force_packet \<equiv> 48"
abbreviation (input) EIO :: int where "EIO \<equiv> 5"
abbreviation (input) EFAULT :: int where "EFAULT \<equiv> 14"
abbreviation (input) ENOTSUP :: int where "ENOTSUP \<equiv> 45"
abbreviation (input) ENOMEM :: int where "ENOMEM \<equiv> 12"

section \<open>The functions called from C\<close>

text \<open>Without a controller they return \<open>KERN_FAILURE\<close> and do nothing.\<close>

definition c_enable_interface :: "kernel \<Rightarrow> int \<Rightarrow> driver \<Rightarrow> driver option" where
  "c_enable_interface k nEthernetNumber d =
     (if g_pController d then enable_interface k nEthernetNumber d else Some d)"

definition c_disable_interface :: "kernel \<Rightarrow> ata_family \<Rightarrow> int \<Rightarrow> driver \<Rightarrow> (int \<times> driver) option" where
  "c_disable_interface k af nEthernetNumber d =
     (if g_pController d then disable_interface k af nEthernetNumber d else Some (KERN_FAILURE, d))"

text \<open>The result is paired with what is stored for the caller, \<open>None\<close> when nothing is.\<close>

definition c_update_target :: "kernel \<Rightarrow> ata_family \<Rightarrow> driver \<Rightarrow> (int \<times> int option \<times> driver) option" where
  "c_update_target k af d =
     (if g_pController d
      then map_option (\<lambda>(ret, n, w). (ret, Some n, d\<lparr>dr_world := w\<rparr>)) (find_targets k af (dr_world d))
      else Some (KERN_FAILURE, None, d))"

definition c_get_target_info :: "int \<Rightarrow> driver \<Rightarrow> int \<times> TargetInfo option" where
  "c_get_target_info nDevice d =
     (if g_pController d then get_target_info nDevice (dr_world d) else (KERN_FAILURE, None))"

definition c_get_error_info :: "driver \<Rightarrow> int \<times> (int \<times> int) option" where
  "c_get_error_info d =
     (if g_pController d then (0, Some (get_error_info (dr_world d))) else (KERN_FAILURE, None))"

definition c_get_payload_size :: "driver \<Rightarrow> int \<times> u32 option" where
  "c_get_payload_size d =
     (if g_pController d then (0, Some (get_payload_size (service_of (dr_world d)))) else (KERN_FAILURE, None))"

definition c_get_logging :: "driver \<Rightarrow> int" where
  "c_get_logging d = (if g_pController d then m_nLoggingLevel (service_of (dr_world d)) else 0)"

definition c_set_logging :: "int \<Rightarrow> driver \<Rightarrow> driver" where
  "c_set_logging n d =
     (if g_pController d then d\<lparr>dr_world := on_service (\<lambda>s. s\<lparr>m_nLoggingLevel := n\<rparr>) (dr_world d)\<rparr> else d)"

definition c_force_packet :: "kernel \<Rightarrow> ata_family \<Rightarrow> ForcePacketInfo \<Rightarrow> driver \<Rightarrow> driver option" where
  "c_force_packet k af f d =
     (if \<not> g_pController d then Some d
      else if \<not> m_pCmdGate d then None
      else map_option (\<lambda>(_, w). d\<lparr>dr_world := w\<rparr>) (interface_force_packet_send k af f (dr_world d)))"

definition c_set_targets_cstring :: "kernel \<Rightarrow> ata_family \<Rightarrow> ConfigString \<Rightarrow> driver \<Rightarrow> driver option" where
  "c_set_targets_cstring k af s d =
     (if \<not> g_pController d then Some d
      else if \<not> m_pCmdGate d then None
      else map_option (\<lambda>(_, w). d\<lparr>dr_world := w\<rparr>)
             (interface_set_targets_cstring k af (sint (cs_nTargetNumber s)) (cs_pszConfig s) (sint (cs_Length s))
               (dr_world d)))"

definition c_set_ourcstring :: "bool \<Rightarrow> u8 list \<Rightarrow> driver \<Rightarrow> (int \<times> driver) option" where
  "c_set_ourcstring fString s d =
     (if g_pController d
      then map_option (\<lambda>(r, w). (r, d\<lparr>dr_world := w\<rparr>)) (set_our_cstring fString s (dr_world d))
      else Some (KERN_FAILURE, d))"

definition c_set_max_transfer_size :: "int \<Rightarrow> driver \<Rightarrow> int \<times> driver" where
  "c_set_max_transfer_size n d =
     (if g_pController d then (0, d\<lparr>dr_world := interface_set_max_transfer_size n (dr_world d)\<rparr>)
      else (KERN_FAILURE, d))"

definition c_set_user_window :: "int \<Rightarrow> driver \<Rightarrow> int \<times> driver" where
  "c_set_user_window n d =
     (if g_pController d then (0, d\<lparr>dr_world := set_user_window n (dr_world d)\<rparr>) else (KERN_FAILURE, d))"

section \<open>Reading an option\<close>

datatype get_option = GET_PREFERENCES | GET_VERBOSE_LOGGING | GET_COUNT_TARGETS | GET_TARGET_INFO
  | GET_ERROR_INFO | GET_PAYLOAD_SIZE | GET_OTHER

datatype ui_value = UV_preferences preferences | UV_int int | UV_u32 u32 | UV_target TargetInfo
  | UV_error "int \<times> int" | UV_garbage

text \<open>
  \<open>data\<close> is the caller's buffer: null, or one that holds a target number where \<open>TargetInfo\<close> has it. The
  result is the error and, without one, the value and how many of its bytes are copied to the
  caller. A local variable that was not written has garbage.
\<close>

definition reply_value :: "nat \<Rightarrow> nat \<Rightarrow> ui_value \<Rightarrow> driver \<Rightarrow> int \<times> (nat \<times> ui_value) option \<times> driver" where
  "reply_value size_of len v d = (0, Some (min size_of len, v), d)"

definition aoeinterface_get :: "kernel \<Rightarrow> ata_family \<Rightarrow> get_option \<Rightarrow> u32 option \<Rightarrow> nat \<Rightarrow> preferences \<times> driver
    \<Rightarrow> (int \<times> (nat \<times> ui_value) option \<times> driver) option" where
  "aoeinterface_get k af opt data len pd = (case pd of (prefs, d) \<Rightarrow>
     (case opt of
        GET_PREFERENCES \<Rightarrow> Some (reply_value size_preferences len (UV_preferences prefs) d)
      | GET_VERBOSE_LOGGING \<Rightarrow> Some (reply_value 4 len (UV_int (c_get_logging d)) d)
      | GET_COUNT_TARGETS \<Rightarrow> do {
          (_, n, d) \<leftarrow> c_update_target k af d;
          Some (reply_value 4 len (UV_int (case n of Some n \<Rightarrow> n | None \<Rightarrow> 0)) d) }
      | GET_TARGET_INFO \<Rightarrow> do {
          (_, _, d) \<leftarrow> c_update_target k af d;
          number \<leftarrow> data;
          let (ret, t) = c_get_target_info (sint number) d;
          Some (if ret \<noteq> 0 then (EIO, None, d)
                else reply_value size_target_info len
                  (case t of Some t \<Rightarrow> UV_target (t\<lparr>nTargetNumber := number\<rparr>) | None \<Rightarrow> UV_garbage) d) }
      | GET_ERROR_INFO \<Rightarrow> Some (reply_value size_error_info len
          (case snd (c_get_error_info d) of Some e \<Rightarrow> UV_error e | None \<Rightarrow> UV_garbage) d)
      | GET_PAYLOAD_SIZE \<Rightarrow> Some (reply_value 4 len
          (case snd (c_get_payload_size d) of Some n \<Rightarrow> UV_u32 n | None \<Rightarrow> UV_garbage) d)
      | GET_OTHER \<Rightarrow> Some (ENOTSUP, None, d)))"

section \<open>Setting an option\<close>

datatype set_option = SET_PREFERENCES preferences | SET_VERBOSE_LOGGING int
  | SET_FORCE_PACKET ForcePacketInfo | SET_CONFIG_STRING ConfigString | SET_OTHER

definition ports :: "preferences \<Rightarrow> u32 list" where
  "ports p = take (unat (nNumberOfPorts p)) (anEnabledPorts p)"

definition clamp_ports :: "preferences \<Rightarrow> preferences" where
  "clamp_ports p = (if of_nat MAX_PORTS < nNumberOfPorts p then p\<lparr>nNumberOfPorts := of_nat MAX_PORTS\<rparr> else p)"

fun enable_added :: "kernel \<Rightarrow> u32 list \<Rightarrow> u32 list \<Rightarrow> driver \<Rightarrow> driver option" where
  "enable_added k prev [] d = Some d"
| "enable_added k prev (n # new) d = do {
     d \<leftarrow> (if n \<in> set prev then Some d else c_enable_interface k (sint n) d);
     enable_added k prev new d }"

fun disable_removed :: "kernel \<Rightarrow> ata_family \<Rightarrow> u32 list \<Rightarrow> u32 list \<Rightarrow> driver \<Rightarrow> driver option" where
  "disable_removed k af new [] d = Some d"
| "disable_removed k af new (n # prev) d = do {
     d \<leftarrow> (if n \<in> set new then Some d else map_option snd (c_disable_interface k af (sint n) d));
     disable_removed k af new prev d }"

definition set_preferences :: "kernel \<Rightarrow> ata_family \<Rightarrow> bool \<Rightarrow> preferences \<Rightarrow> preferences \<times> driver
    \<Rightarrow> (preferences \<times> driver) option" where
  "set_preferences k af fString given pd = do {
     let (previous, d) = pd;
     let prefs = clamp_ports given;
     d \<leftarrow> enable_added k (ports previous) (ports prefs) d;
     d \<leftarrow> disable_removed k af (ports prefs) (ports previous) d;
     let d = snd (c_set_max_transfer_size (sint (pf_nMaxTransferSize prefs)) d);
     let d = snd (c_set_user_window (sint (nUserBlockCountWindow prefs)) d);
     (_, d) \<leftarrow> c_set_ourcstring fString (aszComputerConfigString prefs) d;
     (_, _, d) \<leftarrow> c_update_target k af d;
     Some (prefs, d) }"

text \<open>\<open>pData\<close> is null, or the data of an option with its length.\<close>

definition aoeinterface_set :: "kernel \<Rightarrow> ata_family \<Rightarrow> bool \<Rightarrow> (set_option \<times> nat) option \<Rightarrow> preferences \<times> driver
    \<Rightarrow> (int \<times> preferences \<times> driver) option" where
  "aoeinterface_set k af fString pData pd = (case pData of None \<Rightarrow> Some (EFAULT, pd)
     | Some (opt, len) \<Rightarrow>
        (case opt of
           SET_PREFERENCES given \<Rightarrow>
             if len < size_preferences then Some (EINVAL, pd)
             else map_option (\<lambda>pd. (0, pd)) (set_preferences k af fString given pd)
         | SET_VERBOSE_LOGGING n \<Rightarrow>
             if len < 4 then Some (EINVAL, pd) else Some (0, fst pd, c_set_logging n (snd pd))
         | SET_FORCE_PACKET f \<Rightarrow>
             if len < size_force_packet then Some (EINVAL, pd)
             else map_option (\<lambda>d. (0, fst pd, d)) (c_force_packet k af f (snd pd))
         | SET_CONFIG_STRING s \<Rightarrow>
             if len < size_config_string then Some (EINVAL, pd)
             else map_option (\<lambda>d. (0, fst pd, d)) (c_set_targets_cstring k af s (snd pd))
         | SET_OTHER \<Rightarrow> Some (ENOTSUP, pd)))"

section \<open>The lock of the socket\<close>

record ui_lock =
  g_mutex :: bool
  g_mutex_grp :: bool
  mutex_held :: bool

text \<open>A client that connects takes the mutex and keeps it until it disconnects; a second one waits, which
  is the result \<open>None\<close>.\<close>

definition aoeinterface_connect :: "ui_lock \<Rightarrow> (int \<times> ui_lock) option" where
  "aoeinterface_connect l =
     (if g_mutex l then if mutex_held l then None else Some (0, l\<lparr>mutex_held := True\<rparr>) else Some (0, l))"

definition aoeinterface_disconnect :: "ui_lock \<Rightarrow> int \<times> ui_lock" where
  "aoeinterface_disconnect l = (0, if g_mutex l then l\<lparr>mutex_held := False\<rparr> else l)"

text \<open>The outcomes of the four allocations.\<close>

definition alloc_locks :: "bool \<Rightarrow> bool \<Rightarrow> bool \<Rightarrow> bool \<Rightarrow> ui_lock \<Rightarrow> int \<times> ui_lock" where
  "alloc_locks grp_attributes grp lck_attributes mtx l =
     (if \<not> grp_attributes then (ENOMEM, l)
      else let l = l\<lparr>g_mutex_grp := grp\<rparr> in
        if \<not> grp then (ENOMEM, l)
        else if \<not> lck_attributes then (ENOMEM, l)
        else (if mtx then 0 else ENOMEM, l\<lparr>g_mutex := mtx, mutex_held := False\<rparr>))"

definition free_locks :: "ui_lock \<Rightarrow> ui_lock" where
  "free_locks l = l\<lparr>g_mutex := False, g_mutex_grp := False, mutex_held := False\<rparr>"

text \<open>The service sets the controller at its start and clears it at its stop; the outcome of the allocation is ignored.\<close>

definition set_ui_controller :: "bool \<Rightarrow> bool \<Rightarrow> bool \<Rightarrow> bool \<Rightarrow> bool \<Rightarrow> ui_lock \<Rightarrow> ui_lock" where
  "set_ui_controller pController grp_attributes grp lck_attributes mtx l =
     (if pController then snd (alloc_locks grp_attributes grp lck_attributes mtx l) else free_locks l)"

end
