(* ===== verification/FlowProps.thy ===== *)
theory FlowProps
  imports Accounting
begin

text \<open>
  What one run of a timer does: a packet is sent only inside the window, a run of the retransmit
  timer backs off at most once and drops the packets that are too old, and the round trip estimate
  stays within bounds as long as the measured times do.
\<close>

section \<open>The send window\<close>

text \<open>Two interface tables that flow control cannot tell apart.\<close>

definition same_flow :: "EInterfaces \<Rightarrow> EInterfaces \<Rightarrow> bool" where
  "same_flow I I' \<longleftrightarrow>
     (\<forall>r. EInterfaces_get_cwnd I r = EInterfaces_get_cwnd I' r
        \<and> EInterfaces_get_outstanding I r = EInterfaces_get_outstanding I' r
        \<and> (\<forall>n. EInterfaces_get_max_outstanding I r n = EInterfaces_get_max_outstanding I' r n))
     \<and> m_nMaxUserWindow I = m_nMaxUserWindow I'"

lemma same_flow_refl [simp]: "same_flow I I"
  by (simp add: same_flow_def)

lemma same_flow_trans: "same_flow I I' \<Longrightarrow> same_flow I' I'' \<Longrightarrow> same_flow I I''"
  by (simp add: same_flow_def)

lemma m_nMaxUserWindow_update_if [simp]: "m_nMaxUserWindow (snd (update_if r f I)) = m_nMaxUserWindow I"
  by (simp add: update_if_def split: option.split)

lemma same_flow_time: "same_flow I (snd (EInterfaces_update_time_since_last_send k r I))"
  by (simp add: same_flow_def EInterfaces_update_time_since_last_send_def EInterfaces_get_cwnd_def
      EInterfaces_get_outstanding_def EInterfaces_get_max_outstanding_def read_if_update_field
      EInterface_get_max_oustanding_def EInterface_get_max_outstanding_all_shelves_def)

lemma max_outstanding_same:
  "same_flow (m_pInterfaces s) (m_pInterfaces s') \<Longrightarrow> max_outstanding s i = max_outstanding s' i"
  by (simp add: max_outstanding_def same_flow_def)

lemma send_packet_from_queue_output:
  assumes "send_packet_from_queue k i s = Some s'"
  shows "ifnet_output s' = ifnet_output s \<or> ifnet_output s' = ifnet_output s @ [(ts_if_sent i, ts_mbuf i)]"
    and "m_to_send_queue s' = remove1 i (m_to_send_queue s)"
    and "fSendImmediately i \<Longrightarrow> same_flow (m_pInterfaces s) (m_pInterfaces s')"
proof -
  show "ifnet_output s' = ifnet_output s \<or> ifnet_output s' = ifnet_output s @ [(ts_if_sent i, ts_mbuf i)]"
    using assms by (auto simp: send_packet_from_queue_def Let_def split: if_splits bind_splits
        dest: add_outstanding_frames)
  show "m_to_send_queue s' = remove1 i (m_to_send_queue s)"
    using assms by (auto simp: send_packet_from_queue_def Let_def remove_to_send_def
        split: if_splits bind_splits dest: add_outstanding_frames)
  show "fSendImmediately i \<Longrightarrow> same_flow (m_pInterfaces s) (m_pInterfaces s')"
    using assms by (auto simp: send_packet_from_queue_def Let_def same_flow_time split: if_splits)
qed

lemma send_immediate_loop_output:
  assumes "send_immediate_loop k is s = Some s'"
  shows "\<exists>out. ifnet_output s' = ifnet_output s @ out \<and>
      (\<forall>x \<in> set out. \<exists>i \<in> set is. fSendImmediately i \<and> x = (ts_if_sent i, ts_mbuf i)) \<and>
      set (m_to_send_queue s') \<subseteq> set (m_to_send_queue s) \<and>
      same_flow (m_pInterfaces s) (m_pInterfaces s')"
  using assms
proof (induction "is" arbitrary: s)
  case Nil
  then show ?case by simp
next
  case (Cons i "is")
  show ?case
  proof (cases "fSendImmediately i")
    case True
    with Cons.prems obtain s1 where
      s1: "send_packet_from_queue k i s = Some s1" "send_immediate_loop k is s1 = Some s'"
      by (auto split: bind_splits)
    note out = send_packet_from_queue_output [OF s1(1)]
    from Cons.IH [OF s1(2)] obtain out' where
      out': "ifnet_output s' = ifnet_output s1 @ out'"
        "\<forall>x \<in> set out'. \<exists>i \<in> set is. fSendImmediately i \<and> x = (ts_if_sent i, ts_mbuf i)"
        "set (m_to_send_queue s') \<subseteq> set (m_to_send_queue s1)"
        "same_flow (m_pInterfaces s1) (m_pInterfaces s')" by blast
    have "set (m_to_send_queue s') \<subseteq> set (m_to_send_queue s)"
      using out'(3) out(2) set_remove1_subset [of i "m_to_send_queue s"] by simp
    moreover have "same_flow (m_pInterfaces s) (m_pInterfaces s')"
      using out(3) True out'(4) same_flow_trans by blast
    moreover from out(1) show ?thesis
    proof
      assume "ifnet_output s1 = ifnet_output s"
      with calculation out'(1,2) show ?thesis by (intro exI [of _ out']) auto
    next
      assume "ifnet_output s1 = ifnet_output s @ [(ts_if_sent i, ts_mbuf i)]"
      with calculation out'(1,2) True show ?thesis
        by (intro exI [of _ "(ts_if_sent i, ts_mbuf i) # out'"]) auto
    qed
  next
    case False
    with Cons show ?thesis by fastforce
  qed
qed

text \<open>What the second loop of the transmit timer hands out: nothing, or one packet inside the window.\<close>

definition within_window :: "service \<Rightarrow> ToSendPkt \<Rightarrow> bool" where
  "within_window s i \<longleftrightarrow> (\<exists>limit. max_outstanding s i = Some limit \<and>
     EInterfaces_get_outstanding (m_pInterfaces s) (ts_if_sent i) < limit)"

lemma within_window_same:
  assumes "same_flow (m_pInterfaces s) (m_pInterfaces s1)"
  shows "within_window s1 i = within_window s i"
proof -
  have "EInterfaces_get_outstanding (m_pInterfaces s) (ts_if_sent i) = EInterfaces_get_outstanding (m_pInterfaces s1) (ts_if_sent i)"
    using assms by (simp add: same_flow_def)
  then show ?thesis unfolding within_window_def max_outstanding_same [OF assms] by simp
qed

lemma transmit_loop_output:
  assumes "transmit_loop k (m_to_send_queue s) s = Some (sent, s')"
  shows "ifnet_output s' = ifnet_output s \<or>
    (\<exists>i \<in> set (m_to_send_queue s). within_window s i \<and> ifnet_output s' = ifnet_output s @ [(ts_if_sent i, ts_mbuf i)])"
  using transmit_loop_cases [OF assms] send_packet_from_queue_output(1)
  by (cases sent) (auto simp: within_window_def, blast)

text \<open>C11: the window is respected: besides retransmissions, a run of the transmit timer puts at
  most one packet on the wire, and only when the number of outstanding commands on its interface is
  below the limit for it, the smallest of congestion window, shelf limit and user window.\<close>

theorem transmit_within_window:
  assumes "TransmitTimer k s = Some s'"
  shows "\<exists>resends rest. ifnet_output s' = ifnet_output s @ resends @ rest \<and>
    (\<forall>x \<in> set resends. \<exists>i \<in> set (m_to_send_queue s).
        fSendImmediately i \<and> x = (ts_if_sent i, ts_mbuf i)) \<and>
    (rest = [] \<or> (\<exists>i \<in> set (m_to_send_queue s). \<exists>limit. rest = [(ts_if_sent i, ts_mbuf i)] \<and>
        max_outstanding s i = Some limit \<and>
        EInterfaces_get_outstanding (m_pInterfaces s) (ts_if_sent i) < limit))"
proof -
  let ?s = "s\<lparr>m_pTransmitTimer := (m_pTransmitTimer s)\<lparr>tm_enabled := False\<rparr>\<rparr>"
  from assms obtain s1 sent s2 where
    s1: "send_immediate_loop k (m_to_send_queue s) ?s = Some s1" and
    s2: "transmit_loop k (m_to_send_queue s1) s1 = Some (sent, s2)" and
    s': "s' = (if sent \<and> m_to_send_queue s2 \<noteq> [] then enable_transmit_timer 3 s2 else s2)"
    by (rule TransmitTimer_steps)
  from send_immediate_loop_output [OF s1] obtain out where
    out: "ifnet_output s1 = ifnet_output s @ out"
      "\<forall>x \<in> set out. \<exists>i \<in> set (m_to_send_queue s). fSendImmediately i \<and> x = (ts_if_sent i, ts_mbuf i)"
      "set (m_to_send_queue s1) \<subseteq> set (m_to_send_queue s)"
    and same: "same_flow (m_pInterfaces s) (m_pInterfaces s1)" by auto
  have "ifnet_output s' = ifnet_output s2" by (simp add: s')
  then consider "ifnet_output s' = ifnet_output s @ out"
    | i where "i \<in> set (m_to_send_queue s)" "within_window s i" "ifnet_output s' = ifnet_output s @ out @ [(ts_if_sent i, ts_mbuf i)]"
    using transmit_loop_output [OF s2] out(1,3) within_window_same [OF same] by auto
  then show ?thesis
  proof cases
    case 1
    with out(2) show ?thesis by (intro exI [of _ out] exI [of _ "[]"]) simp
  next
    case (2 i)
    with out(2) show ?thesis
      by (intro exI [of _ out] exI [of _ "[(ts_if_sent i, ts_mbuf i)]"]) (auto simp: within_window_def)
  qed
qed

lemma transmit_within_window_witness:
  "\<exists>s s'. TransmitTimer example_kernel s = Some s' \<and> length (ifnet_output s') = 1 \<and>
    (\<exists>resends rest. ifnet_output s' = ifnet_output s @ resends @ rest \<and>
    (\<forall>x \<in> set resends. \<exists>i \<in> set (m_to_send_queue s).
        fSendImmediately i \<and> x = (ts_if_sent i, ts_mbuf i)) \<and>
    (rest = [] \<or> (\<exists>i \<in> set (m_to_send_queue s). \<exists>limit. rest = [(ts_if_sent i, ts_mbuf i)] \<and>
        max_outstanding s i = Some limit \<and>
        EInterfaces_get_outstanding (m_pInterfaces s) (ts_if_sent i) < limit)))"
proof -
  from example_service_run obtain s1 s2 where
    "TransmitTimer example_kernel s1 = Some s2" "length (ifnet_output s2) = 1"
    by (auto split: option.splits bind_splits)
  with transmit_within_window [OF this(1)] show ?thesis by blast
qed

section \<open>Round trip estimate\<close>

definition rtt_within :: "int \<Rightarrow> service \<Rightarrow> bool" where
  "rtt_within M s \<longleftrightarrow> 0 \<le> m_nScaledRTTavg s \<and> m_nScaledRTTavg s \<le> M \<and>
     0 \<le> m_nScaledRTTvar s \<and> m_nScaledRTTvar s \<le> M"

lemma estimate_step:
  fixes a r v M :: int
  assumes "0 \<le> a" "a \<le> M" "0 \<le> r" "r \<le> M" "0 \<le> v" "v \<le> M"
  shows "0 \<le> a + (r - a) div 8" "a + (r - a) div 8 \<le> M"
    "0 \<le> v + (\<bar>r - a\<bar> - v) div 4" "v + (\<bar>r - a\<bar> - v) div 4 \<le> M"
proof -
  define q where "q = (r - a) div 8"
  have q: "8 * q \<le> r - a" "r - a < 8 * q + 8" unfolding q_def by linarith+
  show "0 \<le> a + (r - a) div 8" "a + (r - a) div 8 \<le> M"
    using assms q unfolding q_def [symmetric] by linarith+
  define p where "p = (\<bar>r - a\<bar> - v) div 4"
  have p: "4 * p \<le> \<bar>r - a\<bar> - v" "\<bar>r - a\<bar> - v < 4 * p + 4" unfolding p_def by linarith+
  have "\<bar>r - a\<bar> \<le> M" using assms by linarith
  then show "0 \<le> v + (\<bar>r - a\<bar> - v) div 4" "v + (\<bar>r - a\<bar> - v) div 4 \<le> M"
    using assms p unfolding p_def [symmetric] by linarith+
qed

lemma update_rto_within:
  assumes s: "rtt_within M s" and rtt: "uint rtt \<le> M" and M: "M \<le> 429496729"
  shows "rtt_within M (update_rto rtt s) \<and>
    uint (m_nRTO_ns (update_rto rtt s)) =
      m_nScaledRTTavg (update_rto rtt s) + 4 * m_nScaledRTTvar (update_rto rtt s)"
proof -
  let ?a = "m_nScaledRTTavg s" and ?v = "m_nScaledRTTvar s" and ?r = "uint rtt"
  have r0: "0 \<le> ?r" by simp
  have b: "0 \<le> ?a" "?a \<le> M" "0 \<le> ?v" "?v \<le> M" using s by (simp_all add: rtt_within_def)
  define a where "a = ?a + (?r - ?a) div 8"
  define v where "v = ?v + (\<bar>?r - ?a\<bar> - ?v) div 4"
  have av: "0 \<le> a" "a \<le> M" "0 \<le> v" "v \<le> M"
    unfolding a_def v_def using estimate_step [of ?a M ?r ?v] b r0 rtt by simp_all
  have e1: "s32 (?r - ?a) = ?r - ?a" by (rule s32_in_range) (use b r0 rtt M in linarith)+
  have e2: "s32 (- (?r - ?a)) = - (?r - ?a)" by (rule s32_in_range) (use b r0 rtt M in linarith)+
  have e3: "(if ?r - ?a < 0 then - (?r - ?a) else ?r - ?a) = \<bar>?r - ?a\<bar>" by simp
  have e4: "s32 (\<bar>?r - ?a\<bar> - ?v) = \<bar>?r - ?a\<bar> - ?v" by (rule s32_in_range) (use b r0 rtt M in linarith)+
  have ea: "s32 a = a" and ev: "s32 v = v" and ev4: "s32 (v * 4) = v * 4"
    and eav: "s32 (a + v * 4) = a + v * 4"
    using av M by (auto intro!: s32_id)
  have "update_rto rtt s = s\<lparr>m_nScaledRTTavg := a, m_nScaledRTTvar := v,
      m_nRTO_ns := word_of_int (a + v * 4)\<rparr>"
    unfolding update_rto_def Let_def e1 e2 e3 e4
    unfolding a_def [symmetric] v_def [symmetric] ea ev ev4 eav ..
  moreover have "uint (word_of_int (a + v * 4) :: u64) = a + v * 4"
    unfolding uint_word_of_int_eq by (rule take_bit_int_eq_self) (use av M in simp_all)
  ultimately show ?thesis using av by (simp add: rtt_within_def)
qed

lemma fold_update_rto_within:
  "rtt_within M s \<Longrightarrow> \<forall>r \<in> set rtts. uint r \<le> M \<Longrightarrow> M \<le> 429496729 \<Longrightarrow>
   rtt_within M (fold update_rto rtts s)"
  by (induction rtts arbitrary: s) (simp_all add: update_rto_within)

text \<open>C33: the round trip estimate does not overflow below 429 ms: as long as every measured round trip
  time is at most \<open>M\<close> ns, average and variance stay between 0 and \<open>M\<close> and the retransmit timeout is
  average plus four times variance, at most \<open>5 M\<close>, with no wrap-around in the 32-bit arithmetic.\<close>

theorem rto_bounded:
  assumes "\<forall>r \<in> set rtts. uint r \<le> M" "0 \<le> M" "M \<le> 429496729" "rtts \<noteq> []"
  shows "let s = fold update_rto rtts service_start in
    0 \<le> m_nScaledRTTavg s \<and> m_nScaledRTTavg s \<le> M \<and>
    0 \<le> m_nScaledRTTvar s \<and> m_nScaledRTTvar s \<le> M \<and>
    uint (m_nRTO_ns s) = m_nScaledRTTavg s + 4 * m_nScaledRTTvar s \<and> uint (m_nRTO_ns s) \<le> 5 * M"
proof -
  obtain rs r where rs: "rtts = rs @ [r]" using assms(4) by (cases rtts rule: rev_cases) auto
  have "rtt_within M service_start" using assms(2) by (simp add: rtt_within_def service_start_def)
  then have "rtt_within M (fold update_rto rs service_start)"
    using assms rs by (intro fold_update_rto_within) auto
  from update_rto_within [OF this, of r] assms rs show ?thesis
    by (auto simp: rtt_within_def Let_def)
qed

lemma rto_bounded_witness:
  "let s = fold update_rto [2000000, 3000000] service_start in
    0 \<le> m_nScaledRTTavg s \<and> m_nScaledRTTavg s \<le> 3000000 \<and>
    0 \<le> m_nScaledRTTvar s \<and> m_nScaledRTTvar s \<le> 3000000 \<and>
    uint (m_nRTO_ns s) = m_nScaledRTTavg s + 4 * m_nScaledRTTvar s \<and> uint (m_nRTO_ns s) \<le> 5 * 3000000"
  by (rule rto_bounded) simp_all

text \<open>Beyond that the estimate breaks: a first round trip of two seconds makes the 32-bit sum
  negative, and the timeout that is then used exceeds \<open>10 ^ 15\<close> microseconds, thirty years.\<close>

theorem rto_wraps:
  "10 ^ 15 < get_rto_us (update_rto 2000000000 service_start)"
  by code_simp

section \<open>What the retransmit timer does\<close>

definition was_sent :: "SentPkt \<Rightarrow> bool" where
  "was_sent p \<longleftrightarrow> TimeFirstSent p \<noteq> 0 \<and> TimeSent p \<noteq> 0"

definition too_old :: "kernel \<Rightarrow> service \<Rightarrow> SentPkt \<Rightarrow> bool" where
  "too_old k s p \<longleftrightarrow> was_sent p \<and> m_MaxTimeOutBeforeDrop s < time_since_now_us k (TimeFirstSent p)"

definition timed_out :: "kernel \<Rightarrow> service \<Rightarrow> SentPkt \<Rightarrow> bool" where
  "timed_out k s p \<longleftrightarrow> RetransmitTime_us p \<noteq> 0 \<and> was_sent p \<and> \<not> too_old k s p \<and>
     RetransmitTime_us p < time_since_now_us k (TimeSent p)"

text \<open>What becomes of a sent packet, and how it is queued again.\<close>

definition after_timer :: "kernel \<Rightarrow> service \<Rightarrow> SentPkt \<Rightarrow> SentPkt list" where
  "after_timer k s p = (if RetransmitTime_us p = 0 \<or> too_old k s p then []
     else if timed_out k s p then [resent p] else [p])"

definition queued_again :: "SentPkt \<Rightarrow> ToSendPkt" where
  "queued_again p = \<lparr>ts_mbuf = first_mbuf p, ts_if_sent = sq_if_sent p, ts_Tag = sq_Tag p,
     ts_nShelf = sq_nShelf p, fSendImmediately = True, ts_pOutstandingCount = sq_pOutstandingCount p\<rparr>"

lemma resend_packet_effect:
  assumes "resend_packet k nT p s = (p', s')"
  shows "p' = resent p" "m_MaxTimeOutBeforeDrop s' = m_MaxTimeOutBeforeDrop s"
    "m_to_send_queue s' = m_to_send_queue s @ (if IOMalloc_to_send_ok k then [queued_again p] else [])"
    "m_pInterfaces s' = m_pInterfaces s"
  using assms by (auto simp: resend_packet_def Let_def add_to_send_queue_def queued_again_def resent_def
      split: option.splits if_splits)

lemma retransmit_item_effect:
  assumes "retransmit_item k freed nT p adj s = Some (r, adj', s')"
  shows "(case r of Some p \<Rightarrow> [p] | None \<Rightarrow> []) = after_timer k s p \<and>
    m_MaxTimeOutBeforeDrop s' = m_MaxTimeOutBeforeDrop s \<and>
    m_to_send_queue s' = m_to_send_queue s @
      (if timed_out k s p \<and> IOMalloc_to_send_ok k then [queued_again p] else []) \<and>
    adj' = (adj \<or> timed_out k s p)"
proof (cases "RetransmitTime_us p = 0 \<or> too_old k s p \<or> \<not> timed_out k s p")
  case True
  then show ?thesis
    using assms by (auto simp: retransmit_item_def after_timer_def timed_out_def too_old_def was_sent_def
        dest: add_outstanding_frames split: if_splits bind_splits)
next
  case False
  let ?s = "if adj then s else back_off (sq_if_sent p) s"
  from False assms obtain s1 where
    s1: "(if \<not> fPacketHasBeenRetransmit p then add_outstanding (sq_pOutstandingCount p) (- 1) ?s
          else Some ?s) = Some s1" and
    s': "resend_packet k nT p s1 = (the r, s')" "r \<noteq> None" "adj'"
    by (auto simp: retransmit_item_def Let_def timed_out_def too_old_def was_sent_def
        split: bind_splits prod.splits)
  have "m_MaxTimeOutBeforeDrop s1 = m_MaxTimeOutBeforeDrop s" "m_to_send_queue s1 = m_to_send_queue s"
    using s1 by (auto dest: add_outstanding_frames split: if_splits)
  with resend_packet_effect [OF s'(1)] s'(2,3) False show ?thesis
    by (auto simp: after_timer_def)
qed

lemma state_predicates_cong:
  "m_MaxTimeOutBeforeDrop s' = m_MaxTimeOutBeforeDrop s \<Longrightarrow>
   timed_out k s' = timed_out k s \<and> after_timer k s' = after_timer k s"
  by (auto simp: timed_out_def after_timer_def too_old_def fun_eq_iff)

lemma retransmit_loop_effect:
  assumes "retransmit_loop k freed nT kept is adj s = Some s'"
  shows "m_sent_queue s' = kept @ concat (map (after_timer k s) is) \<and>
    m_to_send_queue s' = m_to_send_queue s @
      (if IOMalloc_to_send_ok k then map queued_again (filter (timed_out k s) is) else [])"
  using assms
proof (induction "is" arbitrary: kept adj s)
  case Nil
  then show ?case by auto
next
  case (Cons p "is")
  from Cons.prems obtain r adj1 s1 where
    item: "retransmit_item k freed nT p adj s = Some (r, adj1, s1)" and
    rest: "retransmit_loop k freed nT (kept @ (case r of Some i \<Rightarrow> [i] | None \<Rightarrow> [])) is adj1 s1 = Some s'"
    by (auto split: bind_splits prod.splits)
  note eff = retransmit_item_effect [OF item]
  then have cong: "timed_out k s1 = timed_out k s" "after_timer k s1 = after_timer k s"
    using state_predicates_cong [of s1 s k] by auto
  show ?case using Cons.IH [OF rest] eff unfolding cong by auto
qed

text \<open>C17: a run of the retransmit timer, item by item: a packet that is not to be retransmitted is
  dropped, sent or not; one first sent longer ago than the limit is dropped; one that timed out
  stays, marked, with its timeout doubled but cut to 5 ms, and is queued to be sent at once, in the
  order of the sent queue; every other packet is left alone.\<close>

theorem retransmit_timer_queues:
  assumes "RetransmitTimer k freed nT s = Some s'"
  shows "m_sent_queue s' = concat (map (after_timer k s) (m_sent_queue s)) \<and>
    m_to_send_queue s' = m_to_send_queue s @
      (if IOMalloc_to_send_ok k then map queued_again (filter (timed_out k s) (m_sent_queue s)) else [])"
proof -
  let ?s = "s\<lparr>m_pRetransmitTimer := (m_pRetransmitTimer s)\<lparr>tm_enabled := False\<rparr>\<rparr>"
  have cong: "timed_out k ?s = timed_out k s" "after_timer k ?s = after_timer k s"
    using state_predicates_cong [of ?s s k] by auto
  from assms obtain s1 where
    s1: "retransmit_loop k freed nT [] (m_sent_queue s) False ?s = Some s1" and
    s': "s' = (if m_sent_queue s1 \<noteq> [] then enable_retransmit_timer s1 else s1)"
    by (auto simp: RetransmitTimer_def Let_def split: bind_splits)
  from retransmit_loop_effect [OF s1] show ?thesis unfolding cong by (simp add: s')
qed

text \<open>A sent packet, first sent 20 ms ago and never answered.\<close>

definition example_sent :: SentPkt where
  "example_sent = \<lparr>first_mbuf = example_packet, sq_if_sent = 2, TimeSent = 980000000,
     TimeFirstSent = 980000000, RetransmitTime_us = 10000, sq_Tag = 7, sq_nShelf = 0,
     fPacketHasBeenRetransmit = False, sq_pOutstandingCount = Some 1\<rparr>"

definition example_late :: service where
  "example_late = example_service\<lparr>m_sent_queue := [example_sent],
     m_pInterfaces := (m_pInterfaces example_service)\<lparr>m_aInterfaces :=
       (m_aInterfaces (m_pInterfaces example_service))[1 := EInterface_init\<lparr>m_fEnabled := True,
          m_ifnet := 2, m_nOutstandingCount := 1, m_nCwd := 9\<rparr>]\<rparr>\<rparr>"

lemma example_late_run:
  "case RetransmitTimer example_kernel (\<lambda>p. p) None example_late of
     Some s' \<Rightarrow> map RetransmitTime_us (m_sent_queue s') = [5000] \<and> length (m_to_send_queue s') = 1
       \<and> EInterfaces_get_cwnd (m_pInterfaces s') 2 = 1 \<and> EInterfaces_get_ssthresh (m_pInterfaces s') 2 = 4
       \<and> EInterfaces_get_outstanding (m_pInterfaces s') 2 = 0
   | None \<Rightarrow> False"
  by code_simp

lemma retransmit_timer_queues_witness:
  "\<exists>s'. RetransmitTimer example_kernel (\<lambda>p. p) None example_late = Some s' \<and>
    length (m_to_send_queue s') = 1 \<and>
    m_sent_queue s' = concat (map (after_timer example_kernel example_late) (m_sent_queue example_late)) \<and>
    m_to_send_queue s' = m_to_send_queue example_late @
      (if IOMalloc_to_send_ok example_kernel
       then map queued_again (filter (timed_out example_kernel example_late) (m_sent_queue example_late))
       else [])"
proof -
  from example_late_run obtain s' where
    "RetransmitTimer example_kernel (\<lambda>p. p) None example_late = Some s'"
    "length (m_to_send_queue s') = 1" by (auto split: option.splits)
  with retransmit_timer_queues [OF this(1)] show ?thesis by blast
qed

section \<open>Back-off\<close>

text \<open>The congestion state of an interface: whether it is in the table, window and threshold.\<close>

definition congestion_of :: "EInterfaces \<Rightarrow> ifnet \<Rightarrow> bool \<times> int \<times> int" where
  "congestion_of I r = (known I r, EInterfaces_get_cwnd I r, EInterfaces_get_ssthresh I r)"

lemma read_if_entry:
  assumes "m_ifnet e = m_ifnet (m_aInterfaces I ! n)" "g e = g (m_aInterfaces I ! n)"
  shows "read_if (I\<lparr>m_aInterfaces := (m_aInterfaces I)[n := e]\<rparr>) r d g = read_if I r d g"
proof (cases "n < length (m_aInterfaces I)")
  case True
  have "find_if (I\<lparr>m_aInterfaces := (m_aInterfaces I)[n := e]\<rparr>) r = find_if I r"
    using True assms(1) by (simp add: find_if_def first_index_update_iff)
  with True assms(2) show ?thesis
    by (auto simp: read_if_def nth_list_update dest: find_if_less split: option.split)
next
  case False
  then show ?thesis by (simp add: list_update_beyond)
qed

lemma known_entry:
  assumes "m_ifnet e = m_ifnet (m_aInterfaces I ! n)"
  shows "known (I\<lparr>m_aInterfaces := (m_aInterfaces I)[n := e]\<rparr>) r = known I r"
  using assms
  by (cases "n < length (m_aInterfaces I)")
    (simp_all add: known_def find_if_def first_index_update_iff list_update_beyond)

lemma congestion_add_outstanding:
  assumes "add_outstanding p d s = Some s'"
  shows "congestion_of (m_pInterfaces s') r = congestion_of (m_pInterfaces s) r"
  using assms by (auto simp: add_outstanding_def add_outstanding_at_def set_outstanding_at_def
      congestion_of_def EInterfaces_get_cwnd_def EInterfaces_get_ssthresh_def read_if_entry
      known_entry split: option.splits if_splits)

lemma c_div_2_bounds: "0 \<le> c \<Longrightarrow> c_div c 2 \<le> c" "c \<le> 0 \<Longrightarrow> c_div c 2 \<le> 0"
  by (simp_all add: c_div_nonneg) (simp add: c_div_def sgn_if)

text \<open>The window and the threshold after \<open>back_off\<close>.\<close>

definition backed_off :: "EInterfaces \<Rightarrow> ifnet \<Rightarrow> ifnet \<Rightarrow> bool \<times> int \<times> int" where
  "backed_off I r r' = (if r' = r \<and> known I r then (True, 1, max (c_div (EInterfaces_get_cwnd I r) 2) 1)
                        else congestion_of I r')"

lemma get_cwnd_less: "EInterfaces_get_cwnd I r < 2 ^ 31"
  using sint_range_size [where 'a = 32]
  by (auto simp: EInterfaces_get_cwnd_def read_if_def word_size split: option.split)

lemma setter_unknown:
  "\<not> known I r \<Longrightarrow> snd (EInterfaces_set_cwnd r v I) = I"
  "\<not> known I r \<Longrightarrow> snd (EInterfaces_set_ssthresh r v I) = I"
  by (simp_all add: setting_defs update_if_def known_def)

lemma congestion_back_off:
  "congestion_of (m_pInterfaces (back_off r s)) r' = backed_off (m_pInterfaces s) r r'"
proof (cases "known (m_pInterfaces s) r")
  case False
  then show ?thesis by (simp add: back_off_def Let_def setter_unknown backed_off_def)
next
  case True
  let ?w = "max (c_div (EInterfaces_get_cwnd (m_pInterfaces s) r) 2) 1"
  show ?thesis
  proof (cases "r' = r")
    case True
    with congestion.back_off [OF \<open>known (m_pInterfaces s) r\<close> refl get_cwnd_less]
      \<open>known (m_pInterfaces s) r\<close> show ?thesis
      by (simp add: back_off_def Let_def backed_off_def congestion_of_def cwnd.known_set
          ssthresh.known_set)
  next
    case False
    then have "r \<noteq> r'" by simp
    then show ?thesis
      by (simp add: back_off_def Let_def backed_off_def congestion_of_def cwnd.get_set_other
          ssthresh.get_set_other congestion.cw_set_th congestion.th_set_cw cwnd.known_set
          ssthresh.known_set)
  qed
qed

lemma retransmit_item_congestion:
  assumes "retransmit_item k freed nT p adj s = Some (r, adj', s')"
  shows "congestion_of (m_pInterfaces s') r' =
    (if \<not> adj \<and> timed_out k s p then backed_off (m_pInterfaces s) (sq_if_sent p) r'
     else congestion_of (m_pInterfaces s) r')"
proof (cases "RetransmitTime_us p = 0 \<or> too_old k s p \<or> \<not> timed_out k s p")
  case True
  then show ?thesis
    using assms by (auto simp: retransmit_item_def timed_out_def too_old_def was_sent_def
        dest: congestion_add_outstanding split: if_splits bind_splits)
next
  case False
  let ?s = "if adj then s else back_off (sq_if_sent p) s"
  from False assms obtain s1 where
    s1: "(if \<not> fPacketHasBeenRetransmit p then add_outstanding (sq_pOutstandingCount p) (- 1) ?s
          else Some ?s) = Some s1" and
    s': "resend_packet k nT p s1 = (the r, s')"
    by (auto simp: retransmit_item_def Let_def timed_out_def too_old_def was_sent_def
        split: bind_splits prod.splits)
  have "congestion_of (m_pInterfaces s1) r' = congestion_of (m_pInterfaces ?s) r'"
    using s1 by (auto split: if_splits dest: congestion_add_outstanding)
  with resend_packet_effect [OF s'] False show ?thesis
    by (simp add: congestion_back_off)
qed

lemma retransmit_loop_congestion:
  assumes "retransmit_loop k freed nT kept is adj s = Some s'"
  shows "congestion_of (m_pInterfaces s') r =
    (case find (timed_out k s) is of
       Some p \<Rightarrow> if adj then congestion_of (m_pInterfaces s) r
                 else backed_off (m_pInterfaces s) (sq_if_sent p) r
     | None \<Rightarrow> congestion_of (m_pInterfaces s) r)"
  using assms
proof (induction "is" arbitrary: kept adj s)
  case Nil
  then show ?case by auto
next
  case (Cons p "is")
  from Cons.prems obtain q adj1 s1 where
    item: "retransmit_item k freed nT p adj s = Some (q, adj1, s1)" and
    rest: "retransmit_loop k freed nT (kept @ (case q of Some i \<Rightarrow> [i] | None \<Rightarrow> [])) is adj1 s1 = Some s'"
    by (auto split: bind_splits prod.splits)
  note eff = retransmit_item_effect [OF item] and cong = retransmit_item_congestion [OF item]
  from eff have to: "timed_out k s1 = timed_out k s"
    using state_predicates_cong [of s1 s k] by auto
  show ?case
  proof (cases "adj \<or> timed_out k s p")
    case True
    with Cons.IH [OF rest] eff cong show ?thesis
      unfolding to by (auto split: option.splits)
  next
    case False
    have same: "congestion_of (m_pInterfaces s1) r' = congestion_of (m_pInterfaces s) r'" for r'
      using cong [of r'] False by simp
    then have "backed_off (m_pInterfaces s1) q r = backed_off (m_pInterfaces s) q r" for q
      by (simp add: backed_off_def congestion_of_def)
    with same show ?thesis
      using Cons.IH [OF rest] eff False unfolding to by (auto split: option.splits)
  qed
qed

text \<open>C25: a timeout restarts the window, once per timer run: if packets timed out, the window of the interface of the
  first of them becomes 1, and its threshold half of the window it had (at least 1); every
  other interface keeps its window and its threshold, also when packets on it timed out too, and without
  timeouts nothing changes.\<close>

theorem retransmit_backs_off_once:
  assumes "RetransmitTimer k freed nT s = Some s'"
  shows "congestion_of (m_pInterfaces s') r =
    (case find (timed_out k s) (m_sent_queue s) of
       None \<Rightarrow> congestion_of (m_pInterfaces s) r
     | Some p \<Rightarrow> if r = sq_if_sent p \<and> known (m_pInterfaces s) r
         then (True, 1, max (c_div (EInterfaces_get_cwnd (m_pInterfaces s) r) 2) 1)
         else congestion_of (m_pInterfaces s) r)"
proof -
  let ?s = "s\<lparr>m_pRetransmitTimer := (m_pRetransmitTimer s)\<lparr>tm_enabled := False\<rparr>\<rparr>"
  have to: "timed_out k ?s = timed_out k s"
    using state_predicates_cong [of ?s s k] by auto
  from assms obtain s1 where
    s1: "retransmit_loop k freed nT [] (m_sent_queue s) False ?s = Some s1" and
    s': "s' = (if m_sent_queue s1 \<noteq> [] then enable_retransmit_timer s1 else s1)"
    by (auto simp: RetransmitTimer_def Let_def split: bind_splits)
  from retransmit_loop_congestion [OF s1, of r] s' show ?thesis
    unfolding to by (auto simp: backed_off_def split: option.splits)
qed

lemma retransmit_backs_off_once_witness:
  "\<exists>s'. RetransmitTimer example_kernel (\<lambda>p. p) None example_late = Some s' \<and>
    EInterfaces_get_cwnd (m_pInterfaces s') 2 = 1 \<and>
    congestion_of (m_pInterfaces s') 2 =
    (case find (timed_out example_kernel example_late) (m_sent_queue example_late) of
       None \<Rightarrow> congestion_of (m_pInterfaces example_late) 2
     | Some p \<Rightarrow> if 2 = sq_if_sent p \<and> known (m_pInterfaces example_late) 2
         then (True, 1, max (c_div (EInterfaces_get_cwnd (m_pInterfaces example_late) 2) 2) 1)
         else congestion_of (m_pInterfaces example_late) 2)"
proof -
  from example_late_run obtain s' where
    "RetransmitTimer example_kernel (\<lambda>p. p) None example_late = Some s'"
    "EInterfaces_get_cwnd (m_pInterfaces s') 2 = 1" by (auto split: option.splits)
  with retransmit_backs_off_once [OF this(1), of 2] show ?thesis by blast
qed

end
