(* ===== verification/DriverProps.thy ===== *)
theory DriverProps
  imports UserInterface FlowProps
begin

unbundle bit_operations_syntax

text \<open>
  What holds of the driver as a whole: when a search for targets returns, which received packets have an
  effect, and what becomes of the queues when a port goes down.
\<close>

section \<open>The send path leaves the interfaces alone\<close>

abbreviation (input) interfaces :: "provider \<Rightarrow> EInterfaces" where
  "interfaces p \<equiv> m_pInterfaces (m_pAoEService p)"

lemma send_packet_on_interface_interfaces:
  "send_packet_on_interface k ifp tag m sh f s = Some (r, s') \<Longrightarrow> m_pInterfaces s' = m_pInterfaces s"
  by (auto simp: send_packet_on_interface_def Let_def purge_to_send_def split: if_split_asm prod.splits
      dest!: arg_cong [of "add_to_send_queue _ _ _ _ _ _ _ _" _ "\<lambda>x. m_pInterfaces (snd x)"])

lemma send_packet_interfaces:
  "send_packet k m Tag t p = Some (r, t', p') \<Longrightarrow> interfaces p' = interfaces p"
  by (auto simp: send_packet_def Let_def dest!: send_packet_on_interface_interfaces
      split: if_split_asm Option.bind_splits prod.splits)

lemma send_aoe_packet_interfaces:
  "send_aoe_packet k m Tag (c, p) = Some (r, c', p') \<Longrightarrow> interfaces p' = interfaces p"
  by (auto simp: send_aoe_packet_def dest: send_packet_interfaces split: Option.bind_splits)

lemma next_tag_interfaces: "next_tag p = (t, q) \<Longrightarrow> interfaces q = interfaces p"
  by (auto simp: next_tag_def Let_def)

section \<open>When a search returns\<close>

text \<open>The target has interfaces, but none of them is enabled.\<close>

definition cut_off :: "EInterfaces \<Rightarrow> controller \<Rightarrow> bool" where
  "cut_off I c \<longleftrightarrow> nNumberOfInterfaces (m_target c) \<noteq> 0 \<and>
     (\<forall>r \<in> set (interfaces_of (m_target c)). EInterfaces_is_used I r \<noteq> 1)"

lemma cut_off_active:
  "cut_off (interfaces p) c \<longleftrightarrow>
     nNumberOfInterfaces (m_target c) \<noteq> 0 \<and> \<not> interfaces_active (m_pAoEService p) (m_target c)"
  by (auto simp: cut_off_def interfaces_active_def)

lemma send_packet_None:
  assumes "kernel_ok k" "target_ok (m_target c)"
  shows "send_packet k m Tag (m_target c) p = None \<longleftrightarrow> cut_off (interfaces p) c"
proof (cases "nNumberOfInterfaces (m_target c) = 0 \<or> interfaces_active (m_pAoEService p) (m_target c)")
  case True
  then show ?thesis
  proof
    assume "nNumberOfInterfaces (m_target c) = 0"
    then show ?thesis using assms(1) by (simp add: send_packet_def cut_off_def kernel_ok_def)
  next
    assume active: "interfaces_active (m_pAoEService p) (m_target c)"
    then have "send_packet k m Tag (m_target c) p \<noteq> None"
      using send_packet_queues [OF assms active] by force
    then show ?thesis using active by (simp add: cut_off_active)
  qed
next
  case False
  then have "balance (interface_active (m_pAoEService p) (m_target c)) (nNumberOfInterfaces (m_target c))
      (nLastSentInterface (m_target c)) = None"
    using interface_active_in_range [OF assms(2)] interfaces_active_iff [OF assms(2)]
    by (intro balance_None) auto
  then show ?thesis using False assms(1) by (simp add: send_packet_def cut_off_active kernel_ok_def)
qed

lemma identify_not_faked: "\<not> faked_command (AOE_ATAHEADER_GETSTAT ((AOE_ATAHEADER_CLEAR clear_atahdr)
    \<lparr>aa_scnt_cmdstat := AOE_ATAHEADER_SET2 0 (ucast kATAcmdDriveIdentify)\<rparr>))"
  by code_simp

lemma send_identify_None:
  assumes "kernel_ok k" "target_ok (m_target c)"
  shows "send_identify k af (c, p) = None \<longleftrightarrow> cut_off (interfaces p) c"
proof -
  obtain Tag q where tag: "next_tag p = (Tag, q)" by (cases "next_tag p")
  then have q: "m_pAoEService q = m_pAoEService p" by (auto simp: next_tag_def Let_def)
  obtain m where m: "create_mbuf_for_transfer k Tag True (m_target c) = Some m"
    using assms(1) by (simp add: create_mbuf_for_transfer_def kernel_ok_def)
  show ?thesis
    using send_packet_None [OF assms, of _ Tag q] identify_not_faked
    by (auto simp: send_identify_def tag m Let_def send_ata_packet_def send_aoe_packet_def q bind_eq_None_conv
        split: prod.splits)
qed

lemma send_identify_interfaces:
  assumes "send_identify k af (c, p) = Some (r, c', p')"
  shows "interfaces p' = interfaces p"
proof -
  obtain Tag q where tag: "next_tag p = (Tag, q)" by (cases "next_tag p")
  show ?thesis
    using assms next_tag_interfaces [OF tag] identify_not_faked
    by (auto simp: send_identify_def tag Let_def send_ata_packet_def dest!: send_aoe_packet_interfaces
        split: Option.bind_splits option.splits)
qed

lemma identify_all_None:
  assumes "kernel_ok k" "\<forall>c \<in> set cs. target_ok (m_target c)" "removed_targets p = []"
  shows "identify_all_targets k af (cs, p) = None \<longleftrightarrow> (\<exists>c \<in> set cs. cut_off (interfaces p) c)"
  using assms(2,3)
proof (induction cs arbitrary: p)
  case Nil
  then show ?case by (simp add: identify_all_targets_def)
next
  case (Cons c cs)
  note none = send_identify_None [OF assms(1), of c af p]
  show ?case
  proof (cases "send_identify k af (c, p)")
    case None
    then show ?thesis using none Cons.prems by (simp add: identify_all_targets_def)
  next
    case (Some x)
    obtain r c' p' where x: "x = (r, c', p')" by (cases x)
    have "interfaces p' = interfaces p" "removed_targets p' = []"
      using send_identify_interfaces send_identify_keeps Some x Cons.prems(2) by (auto simp: keeps_def)
    then have "identify_all_targets k af (cs, p') = None \<longleftrightarrow> (\<exists>c \<in> set cs. cut_off (interfaces p) c)"
      using Cons.IH [of p'] Cons.prems(1) by simp
    then show ?thesis
      using Some x none Cons.prems \<open>removed_targets p' = []\<close>
      by (auto simp: identify_all_targets_def bind_eq_None_conv split: Option.bind_splits)
  qed
qed

lemma aoe_search_interfaces: "aoe_search k ifn p = Some (r, p') \<Longrightarrow> interfaces p' = interfaces p"
  by (auto simp: aoe_search_def Let_def dest!: send_packet_on_interface_interfaces next_tag_interfaces
      split: if_split_asm Option.bind_splits prod.splits)

lemma search_from_interfaces: "search_from k ns p = Some (r, p') \<Longrightarrow> interfaces p' = interfaces p"
  by (induction ns arbitrary: p) (auto simp: Let_def dest: aoe_search_interfaces
      split: if_split_asm Option.bind_splits)

text \<open>Enabled entries are found by their own pointer, which is not null.\<close>

definition ports_ok :: "EInterfaces \<Rightarrow> bool" where
  "ports_ok I \<longleftrightarrow> length (m_aInterfaces I) = MAX_PORTS \<and> table_ok I \<and>
     (\<forall>e \<in> set (m_aInterfaces I). m_fEnabled e \<longrightarrow> m_ifnet e \<noteq> 0)"

lemma search_returns_iff:
  assumes "kernel_ok k" "registry_ok (cs, p)" "ports_ok (interfaces p)"
  shows "aoe_search_all k af (cs, p) = None \<longleftrightarrow> (\<exists>c \<in> set cs. cut_off (interfaces p) c)"
proof -
  let ?I = "interfaces p"
  obtain p' where p': "search_from k [0..<length (m_aInterfaces ?I)] p = Some (0, p')"
    using search_from_queues [OF assms(1) refl le0 searched_entries_bound] nth_interface_enabled assms(3)
    unfolding ports_ok_def by blast
  have "interfaces p' = ?I" "removed_targets p' = []"
    using search_from_interfaces [OF p'] search_from_removed [OF p'] assms(2) by (simp_all add: registry_ok_def)
  then show ?thesis
    using identify_all_None [OF assms(1), of cs p' af] p' assms(2)
    by (auto simp: aoe_search_all_def registry_ok_def ids_ok_def bind_eq_None_conv)
qed

text \<open>C10: a search for targets, which the driver runs every minute, at every change of the preferences and at
  every query of the user interface, returns if and only if every target that has interfaces has
  an enabled one. When the last port of a target is disabled it loops forever: the kernel hangs.\<close>

theorem search_returns:
  assumes "kernel_ok k" "registry_ok (cs, p)" "ports_ok (interfaces p)"
  shows "aoe_search_all k af (cs, p) = None \<longleftrightarrow> (\<exists>c \<in> set cs. cut_off (interfaces p) c)"
  using assms by (rule search_returns_iff)

lemma port_lost_run:
  "case cg_disable_interface example_kernel example_family 1 ([example_controller], example_provider) of
     Some (cs, p) \<Rightarrow> map identity cs = [identity example_controller] \<and> removed_targets p = [] \<and>
       target_ok (m_target (cs ! 0)) \<and> cut_off (interfaces p) (cs ! 0) \<and>
       list_all (\<lambda>e. \<not> m_fEnabled e) (m_aInterfaces (interfaces p)) \<and> length (m_aInterfaces (interfaces p)) = 6
   | None \<Rightarrow> False"
  by code_simp

theorem search_returns_witness:
  "\<exists>w. cg_disable_interface example_kernel example_family 1 ([example_controller], example_provider) = Some w \<and>
     aoe_search_all example_kernel example_family w = None"
proof -
  obtain cs p where run: "cg_disable_interface example_kernel example_family 1 ([example_controller], example_provider) = Some (cs, p)"
      "map identity cs = [identity example_controller]" "removed_targets p = []" "target_ok (m_target (cs ! 0))"
      "cut_off (interfaces p) (cs ! 0)" "list_all (\<lambda>e. \<not> m_fEnabled e) (m_aInterfaces (interfaces p))"
      "length (m_aInterfaces (interfaces p)) = 6"
    using port_lost_run by (auto split: option.splits)
  then obtain c where cs: "cs = [c]" "identity c = identity example_controller" by auto
  have "registry_ok (cs, p)"
    using run(3,4) cs by (simp add: registry_ok_def ids_ok_def target_number_def identity_def
        example_controller_target target_init_def)
  moreover have "ports_ok (interfaces p)"
    using run(6,7) by (auto simp: ports_ok_def table_ok_def list_all_length in_set_conv_nth)
  ultimately have "aoe_search_all example_kernel example_family (cs, p) = None"
    using search_returns [OF kernel_ok_example] run(5) cs(1) by simp
  then show ?thesis using run(1) by blast
qed

section \<open>Received packets\<close>

lemma on_service_parts [simp]:
  "fst (on_service f w) = fst w" "m_pAoEService (snd (on_service f w)) = f (m_pAoEService (snd w))"
  "removed_targets (snd (on_service f w)) = removed_targets (snd w)"
  by (simp_all add: on_service_def)

lemma on_service_same: "f (m_pAoEService (snd w)) = m_pAoEService (snd w) \<Longrightarrow> on_service f w = w"
  by (cases w) (simp add: on_service_def)

text \<open>A packet that is not a response has no effect. A response nobody waits for (its tag is on no
  packet sent, it is not 0 and has no broadcast bit) has no effect but on the counter of
  unexpected responses, whatever its command, flags and contents.\<close>

theorem stray_packets_counted:
  assumes "aoe_header_at (rx_mem mb) = Some h" "tag = AOE_HEADER_GETTAG h" "tag \<noteq> DEVICE_ONLINE_TAG"
    "tag AND TAG_BROADCAST_MASK = 0" "tag \<notin> sq_Tag ` set (m_sent_queue (m_pAoEService (snd w)))"
  shows "cg_aoe_incoming k freed af this ifp shost mb w =
    Some (if AOE_HEADER_GETFLAG h AND AOE_FLAG_RESPONSE = 0 then w else count_unexpected w)"
proof -
  let ?s = "m_pAoEService (snd w)"
  have "take_first (\<lambda>i. sq_Tag i = tag) (m_sent_queue ?s) = None"
    using assms(5) by (auto simp: take_first_None)
  then have "response_found k freed tag ?s = Some (False, ?s)" by (simp add: response_found_def)
  moreover have "\<not> expected False tag" using assms(3,4) by (simp add: expected_def ac_simps)
  moreover have "on_service (\<lambda>_. ?s) w = w" by (rule on_service_same) simp
  ultimately show ?thesis using assms(1,2) by (simp add: cg_aoe_incoming_def)
qed

definition header_mbuf :: "u32 \<Rightarrow> u32 \<Rightarrow> rx_mbuf" where
  "header_mbuf flags tag = \<lparr>rx_mem = aoe_header_mem ((aoe_header_to 0 1 AOE_ATA_COMMAND tag)
     \<lparr>ah_verflagserr := AOE_HEADER_SETVERFLAGERR 1 flags 0\<rparr>) @ replicate 12 0, rx_chain = []\<rparr>"

theorem stray_packets_counted_witness:
  "cg_aoe_incoming example_kernel (\<lambda>i. i) example_family None 2 17 (header_mbuf 8 77) ([], example_provider) =
     Some (count_unexpected ([], example_provider))"
proof -
  have h: "aoe_header_at (rx_mem (header_mbuf 8 77)) = Some ((aoe_header_to 0 1 AOE_ATA_COMMAND 77)
     \<lparr>ah_verflagserr := AOE_HEADER_SETVERFLAGERR 1 8 0\<rparr>)"
    by (simp add: header_mbuf_def aoe_header_at_mem)
  have "77 = AOE_HEADER_GETTAG ((aoe_header_to 0 1 AOE_ATA_COMMAND 77)
     \<lparr>ah_verflagserr := AOE_HEADER_SETVERFLAGERR 1 8 0\<rparr>)" by code_simp
  moreover have "(77 :: u32) AND TAG_BROADCAST_MASK = 0" by code_simp
  moreover have "AOE_HEADER_GETFLAG ((aoe_header_to 0 1 AOE_ATA_COMMAND 77)
     \<lparr>ah_verflagserr := AOE_HEADER_SETVERFLAGERR 1 8 0\<rparr>) AND AOE_FLAG_RESPONSE \<noteq> 0" by code_simp
  moreover have "77 \<notin> sq_Tag ` set (m_sent_queue (m_pAoEService (snd ([] :: controller list, example_provider))))"
    by code_simp
  ultimately show ?thesis using stray_packets_counted [OF h, of 77 "([], example_provider)"] by simp
qed

lemma response_found_queue:
  assumes "response_found k freed tag s = Some (found, s')"
  shows "m_sent_queue s' = (case take_first (\<lambda>i. sq_Tag i = tag) (m_sent_queue s) of
           None \<Rightarrow> m_sent_queue s | Some (i, rest) \<Rightarrow> rest) \<and>
         found = (tag \<in> sq_Tag ` set (m_sent_queue s))"
proof (cases "take_first (\<lambda>i. sq_Tag i = tag) (m_sent_queue s)")
  case None
  then have "tag \<notin> sq_Tag ` set (m_sent_queue s)" by (auto simp: take_first_None)
  then show ?thesis using assms None by (auto simp: response_found_def)
next
  case (Some x)
  obtain i rest where x: "x = (i, rest)" by (cases x)
  have "tag \<in> sq_Tag ` set (m_sent_queue s)"
    using take_first_Some [OF Some [unfolded x]] by force
  then show ?thesis
    using assms Some x by (auto simp: response_found_def response_window_def Let_def split: Option.bind_splits)
qed

lemma take_first_distinct:
  assumes "take_first (\<lambda>i. g i = t) xs = Some (y, ys)" "distinct (map g xs)"
  shows "ys = filter (\<lambda>i. g i \<noteq> t) xs"
proof -
  obtain us vs where p: "xs = us @ y # vs" "ys = us @ vs" "g y = t" "\<forall>u \<in> set us. g u \<noteq> t"
    using take_first_Some [OF assms(1)] by blast
  then have "filter (\<lambda>i. g i \<noteq> t) us = us" "filter (\<lambda>i. g i \<noteq> t) vs = vs"
    using assms(2) by (auto simp: filter_id_conv) (metis image_eqI)
  then show ?thesis by (simp add: p)
qed

text \<open>An error reply takes the packet it answers off the sent queue, so that it is never sent again,
  and counts as an unexpected response; no target is told, so the command it belongs to stays
  pending.\<close>

theorem error_reply_dropped:
  assumes "aoe_header_at (rx_mem mb) = Some h" "AOE_HEADER_GETFLAG h AND AOE_FLAG_RESPONSE \<noteq> 0"
    "AOE_HEADER_GETFLAG h AND AOE_FLAG_ERROR \<noteq> 0" "distinct (map sq_Tag (m_sent_queue (m_pAoEService (snd w))))"
    "cg_aoe_incoming k freed af this ifp shost mb w = Some w'"
  shows "fst w' = fst w \<and> m_sent_queue (m_pAoEService (snd w')) =
    filter (\<lambda>i. sq_Tag i \<noteq> AOE_HEADER_GETTAG h) (m_sent_queue (m_pAoEService (snd w)))"
proof -
  let ?s = "m_pAoEService (snd w)" and ?tag = "AOE_HEADER_GETTAG h"
  obtain found s' where r: "response_found k freed ?tag ?s = Some (found, s')"
      "w' = count_unexpected (on_service (\<lambda>_. s') w)"
    using assms(1-3,5) by (auto simp: cg_aoe_incoming_def split: Option.bind_split_asm)
  have "m_sent_queue s' = filter (\<lambda>i. sq_Tag i \<noteq> ?tag) (m_sent_queue ?s)"
    using response_found_queue [OF r(1)] take_first_distinct [OF _ assms(4)]
    by (auto simp: take_first_None filter_id_conv split: option.splits)
  then show ?thesis by (simp add: r(2) count_unexpected_def)
qed

definition waiting_provider :: provider where
  "waiting_provider = example_provider\<lparr>m_pAoEService := example_service
     \<lparr>m_sent_queue := [example_sent\<lparr>sq_Tag := 4\<rparr>, example_sent\<lparr>sq_Tag := 5\<rparr>]\<rparr>\<rparr>"

lemma error_reply_run:
  "cg_aoe_incoming example_kernel (\<lambda>i. i) example_family None 2 17 (header_mbuf 12 5)
     ([example_controller], waiting_provider) \<noteq> None"
  by code_simp

theorem error_reply_dropped_witness:
  "\<exists>w'. cg_aoe_incoming example_kernel (\<lambda>i. i) example_family None 2 17 (header_mbuf 12 5)
       ([example_controller], waiting_provider) = Some w' \<and>
     fst w' = [example_controller] \<and> map sq_Tag (m_sent_queue (m_pAoEService (snd w'))) = [4]"
proof -
  obtain w' where w': "cg_aoe_incoming example_kernel (\<lambda>i. i) example_family None 2 17 (header_mbuf 12 5)
      ([example_controller], waiting_provider) = Some w'" using error_reply_run by auto
  let ?h = "(aoe_header_to 0 1 AOE_ATA_COMMAND 5)\<lparr>ah_verflagserr := AOE_HEADER_SETVERFLAGERR 1 12 0\<rparr>"
  have h: "aoe_header_at (rx_mem (header_mbuf 12 5)) = Some ?h"
    by (simp add: header_mbuf_def aoe_header_at_mem)
  have flags: "AOE_HEADER_GETFLAG ?h AND AOE_FLAG_RESPONSE \<noteq> 0" "AOE_HEADER_GETFLAG ?h AND AOE_FLAG_ERROR \<noteq> 0"
      "AOE_HEADER_GETTAG ?h = 5" by code_simp+
  have q: "m_sent_queue (m_pAoEService waiting_provider) =
      [example_sent\<lparr>sq_Tag := 4\<rparr>, example_sent\<lparr>sq_Tag := 5\<rparr>]" by (simp add: waiting_provider_def)
  show ?thesis
    using error_reply_dropped [OF h flags(1,2) _ w'] flags(3) w' by (intro exI [of _ w']) (simp add: q)
qed

section \<open>The packet filter\<close>

text \<open>C32: the filter hands a received packet to the driver once: shown the same packet again it lets it pass
  and nothing changes. But the mark for packets that go out replaces the one for packets that came in:
  after it has passed the output filter, the packet would be processed as a new one.\<close>

theorem packet_processed_once:
  assumes "aoefilter_input_func k freed af this alloc ifn protocol (m, d) = Some (0, m', d')"
    "fr_mark m \<in> {None, Some (4, INBOUND_DONE), Some (4, OUTBOUND_DONE)}"
  shows "aoefilter_input_func k2 freed af this alloc2 ifn2 protocol2 (m', d') = Some (0, m', d') \<and>
    (\<exists>m''. aoefilter_output_func alloc2 m' = (0, m'') \<and> \<not> CheckTag m'' INBOUND_DONE)"
proof -
  have bits: "(1 :: u32) AND 1 = 1" "(1 :: u32) AND 2 = 0" "(2 :: u32) AND 1 = 0" by code_simp+
  have "fr_mark m' = Some (4, INBOUND_DONE)"
    using assms by (auto simp: aoefilter_input_func_def CheckTag_def SetTag_def bits Let_def
        split: if_split_asm Option.bind_split_asm)
  then show ?thesis
    by (simp add: aoefilter_input_func_def aoefilter_output_func_def CheckTag_def SetTag_def bits)
qed

definition stray_frame :: frame where
  "stray_frame = \<lparr>fr_mark = None, fr_ether_type = htons 0x800, fr_ether_shost = 17, fr_mbuf = header_mbuf 8 5\<rparr>"

definition example_driver :: driver where
  "example_driver = \<lparr>dr_world = ([example_controller], example_provider), dr_filters = example_filters,
     m_pCmdGate = True, g_pController = True, ctl_registered = True\<rparr>"

theorem packet_processed_once_witness:
  "\<exists>m'. aoefilter_input_func example_kernel (\<lambda>i. i) example_family None 0 2 0 (stray_frame, example_driver) =
       Some (0, m', example_driver) \<and>
     aoefilter_input_func example_kernel (\<lambda>i. i) example_family None 0 3 0 (m', example_driver) =
       Some (0, m', example_driver)"
proof -
  have ty: "htons 0x800 \<noteq> htons ETHERTYPE_AOE" by (simp add: htons_inject)
  have run: "aoefilter_input_func example_kernel (\<lambda>i. i) example_family None 0 2 0 (stray_frame, example_driver) =
      Some (0, stray_frame\<lparr>fr_mark := Some (4, INBOUND_DONE)\<rparr>, example_driver)"
    using ty by (simp add: aoefilter_input_func_def CheckTag_def SetTag_def stray_frame_def)
  show ?thesis
    using packet_processed_once [OF run, of example_kernel 0 3 0] run by (auto simp: stray_frame_def)
qed

section \<open>A port goes down\<close>

lemma first_index_iff:
  "first_index p xs = Some i \<longleftrightarrow> i < length xs \<and> p (xs ! i) \<and> (\<forall>j < i. \<not> p (xs ! j))"
proof
  assume i: "i < length xs \<and> p (xs ! i) \<and> (\<forall>j < i. \<not> p (xs ! j))"
  then obtain j where j: "first_index p xs = Some j"
    by (cases "first_index p xs") (auto simp: first_index_None)
  then have "i = j" using first_index_Some [OF j] i by (meson linorder_neqE_nat)
  then show "first_index p xs = Some i" using j by simp
qed (rule first_index_Some)

lemma first_index_update_other:
  assumes "first_index p xs = Some j" "n \<noteq> j" "\<not> p y"
  shows "first_index p (xs[n := y]) = Some j"
  using assms by (auto simp: first_index_iff) (metis nth_list_update less_trans nth_list_update_neq)

lemma used_after_disconnect:
  assumes "ports_ok I" "n < MAX_PORTS"
    "EInterfaces_interface_disconnected k (int n) I = Some (r, I')"
  shows "EInterfaces_is_used I' ifn = 1 \<longleftrightarrow>
    (\<exists>j < MAX_PORTS. j \<noteq> n \<and> m_fEnabled (m_aInterfaces I ! j) \<and> m_ifnet (m_aInterfaces I ! j) = ifn)"
proof -
  let ?es = "(m_aInterfaces I)[n := (m_aInterfaces I ! n)\<lparr>m_ifnet := 0, m_fEnabled := False\<rparr>]"
  have I': "m_aInterfaces I' = ?es"
    using assms by (auto simp: ports_ok_def EInterfaces_interface_disconnected_def Let_def
        EInterfaces_update_interface_property_def)
  have len: "length (m_aInterfaces I) = MAX_PORTS" using assms(1) by (simp add: ports_ok_def)
  have used: "EInterfaces_is_used I' ifn = 1 \<longleftrightarrow>
      (\<exists>j. first_index (\<lambda>e. ifn = m_ifnet e) ?es = Some j \<and> m_fEnabled (?es ! j))"
    by (auto simp: EInterfaces_is_used_def read_if_def find_if_def I' split: option.split)
  show ?thesis unfolding used
  proof
    assume "\<exists>j. first_index (\<lambda>e. ifn = m_ifnet e) ?es = Some j \<and> m_fEnabled (?es ! j)"
    then obtain j where j: "first_index (\<lambda>e. ifn = m_ifnet e) ?es = Some j" "m_fEnabled (?es ! j)" by blast
    have "j < MAX_PORTS" "ifn = m_ifnet (?es ! j)"
      using first_index_less [OF j(1)] first_index_nth [OF j(1)] len by simp_all
    moreover have "j \<noteq> n" using j(2) assms(2) len by auto
    ultimately show "\<exists>j < MAX_PORTS. j \<noteq> n \<and> m_fEnabled (m_aInterfaces I ! j) \<and> m_ifnet (m_aInterfaces I ! j) = ifn"
      using j(2) by auto
  next
    assume "\<exists>j < MAX_PORTS. j \<noteq> n \<and> m_fEnabled (m_aInterfaces I ! j) \<and> m_ifnet (m_aInterfaces I ! j) = ifn"
    then obtain j where j: "j < MAX_PORTS" "j \<noteq> n" "m_fEnabled (m_aInterfaces I ! j)" "m_ifnet (m_aInterfaces I ! j) = ifn"
      by blast
    then have "first_index (\<lambda>e. ifn = m_ifnet e) (m_aInterfaces I) = Some j" "ifn \<noteq> 0"
      using assms(1) len by (auto simp: ports_ok_def table_ok_def find_if_def)
    then have "first_index (\<lambda>e. ifn = m_ifnet e) ?es = Some j"
      using j(2) by (intro first_index_update_other) auto
    then show "\<exists>j. first_index (\<lambda>e. ifn = m_ifnet e) ?es = Some j \<and> m_fEnabled (?es ! j)"
      using j(2,3) by auto
  qed
qed

lemma disconnected_table:
  assumes "length (m_aInterfaces I) = MAX_PORTS" "n < MAX_PORTS"
  shows "\<exists>I'. EInterfaces_interface_disconnected k (int n) I = Some (0, I') \<and>
    m_aInterfaces I' = (m_aInterfaces I)[n := (m_aInterfaces I ! n)\<lparr>m_ifnet := 0, m_fEnabled := False\<rparr>]"
  using assms by (simp add: EInterfaces_interface_disconnected_def EInterfaces_update_interface_property_def Let_def)

text \<open>The state between the purge of the queues and the cancelling of commands.\<close>

lemma cg_disable_purged:
  assumes "length (m_aInterfaces (m_pInterfaces (m_pAoEService (snd w)))) = MAX_PORTS" "n < MAX_PORTS"
  shows "\<exists>w1 I1. EInterfaces_interface_disconnected k (int n) (m_pInterfaces (m_pAoEService (snd w))) = Some (0, I1) \<and>
    cg_disable_interface k af (int n) w = Some (snd (cancel_commands_on_interface af
      (EInterfaces_get_nth_interface (m_pInterfaces (m_pAoEService (snd w))) n) w1)) \<and> fst w1 = fst w \<and>
    m_pInterfaces (m_pAoEService (snd w1)) = I1 \<and> removed_targets (snd w1) = removed_targets (snd w) \<and>
    m_sent_queue (m_pAoEService (snd w1)) =
      filter (\<lambda>i. EInterfaces_is_used I1 (sq_if_sent i) = 1) (m_sent_queue (m_pAoEService (snd w))) \<and>
    m_to_send_queue (m_pAoEService (snd w1)) =
      filter (\<lambda>i. EInterfaces_is_used I1 (ts_if_sent i) = 1) (m_to_send_queue (m_pAoEService (snd w)))"
proof -
  obtain I1 where I1: "EInterfaces_interface_disconnected k (int n) (m_pInterfaces (m_pAoEService (snd w))) = Some (0, I1)"
    using disconnected_table [OF assms] by blast
  let ?w1 = "on_service (enable_retransmit_timer \<circ> enable_transmit_timer 3)
      (on_service (purge_sent \<circ> purge_to_send) (set_interfaces I1 (on_service stop_timers w)))"
  have "cg_disable_interface k af (int n) w = Some (snd (cancel_commands_on_interface af
      (EInterfaces_get_nth_interface (m_pInterfaces (m_pAoEService (snd w))) n) ?w1))"
    using I1 by (simp add: cg_disable_interface_def stop_timers_def)
  with I1 show ?thesis
    by (intro exI [of _ ?w1] exI [of _ I1]) (simp add: set_interfaces_def purge_sent_def purge_to_send_def stop_timers_def)
qed

text \<open>C16: when a port goes down exactly the packets of the other enabled ports stay on the two queues. The
  counters of outstanding packets all keep their values, also that of the port that went down, although
  none of its packets is in flight any more.\<close>

theorem disconnect_purges:
  assumes "ports_ok I" "m_pInterfaces (m_pAoEService (snd w)) = I" "n < MAX_PORTS"
    "stays = (\<lambda>r. \<exists>j < MAX_PORTS. j \<noteq> n \<and> m_fEnabled (m_aInterfaces I ! j) \<and> m_ifnet (m_aInterfaces I ! j) = r)"
  shows "\<exists>w1. cg_disable_interface k af (int n) w =
      Some (snd (cancel_commands_on_interface af (EInterfaces_get_nth_interface I n) w1)) \<and> fst w1 = fst w \<and>
    m_sent_queue (m_pAoEService (snd w1)) = filter (\<lambda>i. stays (sq_if_sent i)) (m_sent_queue (m_pAoEService (snd w))) \<and>
    m_to_send_queue (m_pAoEService (snd w1)) = filter (\<lambda>i. stays (ts_if_sent i)) (m_to_send_queue (m_pAoEService (snd w))) \<and>
    counts (m_pInterfaces (m_pAoEService (snd w1))) = counts I"
proof -
  have len: "length (m_aInterfaces I) = MAX_PORTS" using assms(1) by (simp add: ports_ok_def)
  obtain w1 I1 where w1: "EInterfaces_interface_disconnected k (int n) I = Some (0, I1)"
      "cg_disable_interface k af (int n) w =
        Some (snd (cancel_commands_on_interface af (EInterfaces_get_nth_interface I n) w1))" "fst w1 = fst w"
      "m_pInterfaces (m_pAoEService (snd w1)) = I1"
      "m_sent_queue (m_pAoEService (snd w1)) =
        filter (\<lambda>i. EInterfaces_is_used I1 (sq_if_sent i) = 1) (m_sent_queue (m_pAoEService (snd w)))"
      "m_to_send_queue (m_pAoEService (snd w1)) =
        filter (\<lambda>i. EInterfaces_is_used I1 (ts_if_sent i) = 1) (m_to_send_queue (m_pAoEService (snd w)))"
    using cg_disable_purged [of w n k af] len assms(2,3) by auto
  have used: "EInterfaces_is_used I1 r = 1 \<longleftrightarrow> stays r" for r
    using used_after_disconnect [OF assms(1,3) w1(1)] assms(4) by simp
  have "counts I1 = counts I"
    using disconnected_table [OF len assms(3), of k] w1(1) len assms(3)
    by (auto simp: counts_def map_update intro!: list_update_same_conv [THEN iffD2])
  then show ?thesis using w1(2-) by (intro exI [of _ w1] conjI) (simp_all add: used)
qed

definition two_ports :: EInterfaces where
  "two_ports = EInterfaces_init\<lparr>m_aInterfaces := (m_aInterfaces EInterfaces_init)
     [1 := EInterface_init\<lparr>m_fEnabled := True, m_ifnet := 2, m_nOutstandingCount := 3\<rparr>,
      3 := EInterface_init\<lparr>m_fEnabled := True, m_ifnet := 4\<rparr>], m_nInterfacesInUse := 2\<rparr>"

definition two_ports_provider :: provider where
  "two_ports_provider = example_provider\<lparr>m_pAoEService := example_service\<lparr>m_pInterfaces := two_ports,
     m_sent_queue := [example_sent, example_sent\<lparr>sq_if_sent := 4\<rparr>]\<rparr>\<rparr>"

lemma two_ports_ok: "ports_ok two_ports"
  unfolding ports_ok_def table_ok_def by code_simp

theorem disconnect_purges_witness:
  "\<exists>w1. cg_disable_interface example_kernel example_family (int 1) ([], two_ports_provider) =
      Some (snd (cancel_commands_on_interface example_family 2 w1)) \<and>
    m_sent_queue (m_pAoEService (snd w1)) = [example_sent\<lparr>sq_if_sent := 4\<rparr>] \<and>
    counts (m_pInterfaces (m_pAoEService (snd w1))) = [0, 3, 0, 0, 0, 0]"
proof -
  have I: "m_pInterfaces (m_pAoEService (snd ([] :: controller list, two_ports_provider))) = two_ports"
      "m_sent_queue (m_pAoEService two_ports_provider) = [example_sent, example_sent\<lparr>sq_if_sent := 4\<rparr>]"
      "sq_if_sent example_sent = 2"
    by (simp_all add: two_ports_provider_def example_sent_def)
  have evals: "EInterfaces_get_nth_interface two_ports 1 = 2" "counts two_ports = [0, 3, 0, 0, 0, 0]" by code_simp+
  have stays: "\<not> (\<exists>j < MAX_PORTS. j \<noteq> 1 \<and> m_fEnabled (m_aInterfaces two_ports ! j) \<and> m_ifnet (m_aInterfaces two_ports ! j) = 2)"
      "\<exists>j < MAX_PORTS. j \<noteq> 1 \<and> m_fEnabled (m_aInterfaces two_ports ! j) \<and> m_ifnet (m_aInterfaces two_ports ! j) = 4"
    by code_simp+
  obtain w1 where "cg_disable_interface example_kernel example_family (int 1) ([], two_ports_provider) =
      Some (snd (cancel_commands_on_interface example_family (EInterfaces_get_nth_interface two_ports 1) w1))"
      "m_sent_queue (m_pAoEService (snd w1)) =
        filter (\<lambda>i. \<exists>j < MAX_PORTS. j \<noteq> 1 \<and> m_fEnabled (m_aInterfaces two_ports ! j) \<and>
          m_ifnet (m_aInterfaces two_ports ! j) = sq_if_sent i) (m_sent_queue (m_pAoEService two_ports_provider))"
      "counts (m_pInterfaces (m_pAoEService (snd w1))) = counts two_ports"
    using disconnect_purges [OF two_ports_ok I(1) _ refl, of 1 example_kernel example_family] by auto
  then show ?thesis using stays by (intro exI [of _ w1]) (simp only: evals I filter.simps, simp add: I(3))
qed

text \<open>Disconnecting a port that is not enabled (a second loss of link, or a port disabled in the preferences
  after its link was lost) cancels the command of the first target connected to the next enabled port.\<close>

theorem disconnect_cancels_other:
  assumes "length (m_aInterfaces (interfaces p)) = MAX_PORTS" "n < m" "m < MAX_PORTS"
    "\<forall>j. n \<le> j \<and> j < m \<longrightarrow> \<not> m_fEnabled (m_aInterfaces (interfaces p) ! j)"
    "m_fEnabled (m_aInterfaces (interfaces p) ! m)"
    "first_index (\<lambda>c. connected_to_interface (m_ifnet (m_aInterfaces (interfaces p) ! m)) (m_target c) = 0) cs = Some i"
  shows "\<exists>p1 p'. cg_disable_interface k af (int n) (cs, p) = Some (cs[i := fst (cancel_command af False (cs ! i, p1))], p')"
proof -
  have "first_index m_fEnabled (drop n (m_aInterfaces (interfaces p))) = Some (m - n)"
    using assms(1-5) by (auto simp: first_index_iff)
  then have nth: "EInterfaces_get_nth_interface (interfaces p) n = m_ifnet (m_aInterfaces (interfaces p) ! m)"
    using assms(2) by (simp add: EInterfaces_get_nth_interface_def)
  have "n < MAX_PORTS" using assms(2,3) by simp
  then obtain w1 where w1: "cg_disable_interface k af (int n) (cs, p) = Some (snd (cancel_commands_on_interface af
      (m_ifnet (m_aInterfaces (interfaces p) ! m)) w1))" "fst w1 = cs"
    using cg_disable_purged [of "(cs, p)" n k af] assms(1) nth by auto
  then show ?thesis
    using assms(6) by (cases w1; cases "cancel_command af False (cs ! i, snd w1)")
      (auto simp: cancel_commands_on_interface_def intro!: exI [of _ "snd w1"])
qed

theorem disconnect_cancels_other_witness:
  "\<exists>p1 p'. cg_disable_interface example_kernel example_family (int 0) ([example_controller], two_ports_provider) =
     Some ([fst (cancel_command example_family False (example_controller, p1))], p')"
proof -
  have I: "interfaces two_ports_provider = two_ports" by (simp add: two_ports_provider_def)
  have "length (m_aInterfaces two_ports) = MAX_PORTS" "\<not> m_fEnabled (m_aInterfaces two_ports ! 0)"
      "m_fEnabled (m_aInterfaces two_ports ! 1)" "m_ifnet (m_aInterfaces two_ports ! 1) = 2" by code_simp+
  moreover have "connected_to_interface 2 (m_target example_controller) = 0"
    unfolding example_controller_target by code_simp
  ultimately show ?thesis
    using disconnect_cancels_other [of two_ports_provider 0 1 "[example_controller]" 0 example_kernel example_family] I
    by simp
qed

end
