(* ===== verification/Progress.thy ===== *)
theory Progress
  imports DriverProps
begin

unbundle bit_operations_syntax

text \<open>
  Packets that wait are sent: while any packet waits in the queue of \<open>AoEService.cpp\<close>, the transmit timer is
  running, or a packet is in flight and the retransmit timer is (\<open>alive\<close>), so a timer or a reply will look at the
  queue again. And the replies after which this fails. Targets that are silent go away.
\<close>

section \<open>The queue is alive\<close>

definition waiting :: "service \<Rightarrow> bool" where
  "waiting s \<longleftrightarrow> m_to_send_queue s \<noteq> []"

definition watched :: "service \<Rightarrow> bool" where
  "watched s \<longleftrightarrow> tm_enabled (m_pTransmitTimer s) \<or> (\<exists>p \<in> set (m_sent_queue s). in_flight p)"

text \<open>A packet that has been sent is looked after by the retransmit timer.\<close>

definition armed :: "service \<Rightarrow> bool" where
  "armed s \<longleftrightarrow> (\<exists>p \<in> set (m_sent_queue s). TimeFirstSent p \<noteq> 0) \<longrightarrow> tm_enabled (m_pRetransmitTimer s)"

definition alive :: "service \<Rightarrow> bool" where
  "alive s \<longleftrightarrow> flow_inv 0 s \<and> armed s \<and> (waiting s \<longrightarrow> watched s)"

lemma enabled_timers [simp]:
  "tm_enabled (m_pTransmitTimer (enable_transmit_timer d s))"
  "m_pRetransmitTimer (enable_transmit_timer d s) = m_pRetransmitTimer s"
  "tm_enabled (m_pRetransmitTimer (enable_retransmit_timer s))"
  "m_pTransmitTimer (enable_retransmit_timer s) = m_pTransmitTimer s"
  "m_pTransmitTimer (enable_idle_timer s) = m_pTransmitTimer s"
  "m_pRetransmitTimer (enable_idle_timer s) = m_pRetransmitTimer s"
  "m_pTransmitTimer (update_rto rtt s) = m_pTransmitTimer s"
  "m_pRetransmitTimer (update_rto rtt s) = m_pRetransmitTimer s"
  "m_pTransmitTimer (back_off r s) = m_pTransmitTimer s"
  "m_pTransmitTimer (remove_to_send i s) = m_pTransmitTimer s"
  "m_pRetransmitTimer (remove_to_send i s) = m_pRetransmitTimer s"
  "m_pTransmitTimer (purge_to_send s) = m_pTransmitTimer s"
  "m_pRetransmitTimer (purge_to_send s) = m_pRetransmitTimer s"
  "m_sent_queue (purge_to_send s) = m_sent_queue s"
  by (simp_all add: enable_transmit_timer_def enable_retransmit_timer_def enable_idle_timer_def update_rto_def
      back_off_def remove_to_send_def purge_to_send_def Let_def)

lemma add_outstanding_timers:
  "add_outstanding p d s = Some s' \<Longrightarrow> m_pTransmitTimer s' = m_pTransmitTimer s \<and> m_pRetransmitTimer s' = m_pRetransmitTimer s
    \<and> m_to_send_queue s' = m_to_send_queue s"
  by (auto simp: add_outstanding_def split: option.splits)

section \<open>Sending\<close>

inductive send_step :: "service \<Rightarrow> service \<Rightarrow> bool" where
  "\<lbrakk> \<forall>p \<in> set (m_sent_queue s). sq_Tag p \<noteq> tag; \<forall>i \<in> set (m_to_send_queue s). ts_Tag i \<noteq> tag;
     int (length (m_sent_queue s)) + 1 < 2 ^ 30; send_packet_on_interface k ifp tag m sh rt s = Some (r, s') \<rbrakk>
   \<Longrightarrow> send_step s s'"

inductive_cases send_stepE: "send_step s s'"

lemma send_step_armed: "send_step s s' \<Longrightarrow> armed s \<Longrightarrow> armed s'"
  by (erule send_stepE) (auto simp: send_packet_on_interface_def armed_def new_sent_item_def Let_def add_to_send_queue_def
      split: if_split_asm)

lemma send_step_flow: "send_step s s' \<Longrightarrow> flow_inv d s \<Longrightarrow> flow_inv d s'"
  by (induction rule: send_step.induct) (rule flow_inv_send)

lemma send_step_alive:
  assumes "send_step s s'" "alive s"
  shows "alive s'"
proof -
  have "waiting s' \<longrightarrow> watched s'"
    using assms by (elim send_stepE) (auto simp: send_packet_on_interface_def alive_def waiting_def watched_def
        purge_to_send_def add_to_send_queue_def Let_def split: if_split_asm)
  then show ?thesis using assms send_step_armed send_step_flow by (simp add: alive_def)
qed

text \<open>After a reply packets may wait unwatched; it is the caller who starts the timer.\<close>

lemma send_steps_flow: "send_step\<^sup>*\<^sup>* s s' \<Longrightarrow> flow_inv d s \<Longrightarrow> armed s \<Longrightarrow> flow_inv d s' \<and> armed s'"
  by (induction rule: rtranclp_induct) (auto intro: send_step_armed send_step_flow)

section \<open>The transmit timer\<close>

text \<open>No window is closed by its settings: a buffer count of 0 of a target, or a user window of 0.\<close>

definition open_windows :: "service \<Rightarrow> bool" where
  "open_windows s \<longleftrightarrow> (\<forall>i \<in> set (m_to_send_queue s). \<forall>limit. max_outstanding s i = Some limit \<longrightarrow> 0 < limit)"

lemma send_from_queue_timers:
  assumes "send_packet_from_queue k i s = Some s'"
  shows "armed s \<longrightarrow> armed s'" "m_pTransmitTimer s' = m_pTransmitTimer s"
proof -
  show "armed s \<longrightarrow> armed s'"
    using assms
    by (auto simp: send_packet_from_queue_def armed_def Let_def split: if_split_asm Option.bind_split_asm)
  show "m_pTransmitTimer s' = m_pTransmitTimer s"
    using assms
    by (auto simp: send_packet_from_queue_def Let_def split: if_split_asm Option.bind_split_asm dest: add_outstanding_timers)
qed

lemma send_immediate_armed: "send_immediate_loop k is s = Some s' \<Longrightarrow> armed s \<Longrightarrow> armed s'"
  by (induction "is" arbitrary: s) (auto split: if_split_asm Option.bind_split_asm dest: send_from_queue_timers)

text \<open>When no packet is sent, the first one found its window full, so a packet is in flight.\<close>

lemma full_in_flight:
  assumes "flow_inv 0 s" "0 < EInterfaces_get_outstanding (m_pInterfaces s) ifp"
  shows "\<exists>p \<in> set (m_sent_queue s). in_flight p"
proof -
  obtain n where n: "n < length (m_aInterfaces (m_pInterfaces s))" "0 < m_nOutstandingCount (m_aInterfaces (m_pInterfaces s) ! n)"
    using assms(2) by (auto simp: EInterfaces_get_outstanding_def read_if_def find_if_def split: option.splits dest: first_index_less)
  then have "0 < in_flight_count (m_sent_queue s) n"
    using assms(1) by (auto simp: flow_inv_def Let_def counts_def accounts_def)
  then have "filter (in_flight_on n) (m_sent_queue s) \<noteq> []" by (simp add: in_flight_count_def)
  then show ?thesis by (auto simp: filter_empty_conv in_flight_on_def)
qed

lemma blocked_in_flight:
  assumes "transmit_loop k (m_to_send_queue s) s = Some (False, s')" "flow_inv 0 s" "open_windows s" "waiting s"
  shows "\<exists>p \<in> set (m_sent_queue s). in_flight p"
proof -
  obtain i rest where q: "m_to_send_queue s = i # rest" using assms(4) by (auto simp: waiting_def neq_Nil_conv)
  then obtain limit where "max_outstanding s i = Some limit" "limit \<le> EInterfaces_get_outstanding (m_pInterfaces s) (ts_if_sent i)"
    using assms(1) by (auto simp: Let_def split: Option.bind_split_asm if_split_asm)
  moreover from this(1) have "0 < limit" using assms(3) q by (simp add: open_windows_def)
  ultimately show ?thesis using full_in_flight [OF assms(2), of "ts_if_sent i"] by auto
qed

lemma open_windows_sub:
  "open_windows s \<Longrightarrow> same_flow (m_pInterfaces s) (m_pInterfaces s') \<Longrightarrow> set (m_to_send_queue s') \<subseteq> set (m_to_send_queue s)
    \<Longrightarrow> open_windows s'"
  unfolding open_windows_def using max_outstanding_same by (metis subsetD)

lemma transmit_alive:
  assumes run: "TransmitTimer k s = Some s'" and inv: "alive s" and now: "uptime k \<noteq> 0" and windows: "open_windows s"
  shows "alive s'"
proof -
  let ?s = "s\<lparr>m_pTransmitTimer := (m_pTransmitTimer s)\<lparr>tm_enabled := False\<rparr>\<rparr>"
  from run obtain s1 sent s2 where
    s1: "send_immediate_loop k (m_to_send_queue s) ?s = Some s1" and
    s2: "transmit_loop k (m_to_send_queue s1) s1 = Some (sent, s2)" and
    s': "s' = (if sent \<and> m_to_send_queue s2 \<noteq> [] then enable_transmit_timer 3 s2 else s2)"
    by (rule TransmitTimer_steps)
  have "flow_inv 0 ?s" "armed ?s" using inv by (simp_all add: alive_def flow_inv_def armed_def)
  then have flow1: "flow_inv 0 s1" and armed1: "armed s1"
    using send_immediate_loop_inv [OF s1] now send_immediate_armed [OF s1] by simp_all
  have "armed s2"
    using transmit_loop_cases [OF s2] armed1 send_from_queue_timers(1) by (auto split: if_splits)
  then have "armed s'" by (simp add: s' armed_def)
  moreover have "flow_inv 0 s'" using flow_inv_transmit [OF run _ now] inv by (simp add: alive_def)
  moreover have "watched s'" if "waiting s'"
  proof (cases sent)
    case True
    then show ?thesis using that by (auto simp: s' waiting_def watched_def)
  next
    case False
    then have same: "s' = s1" using transmit_loop_cases [OF s2] s' by simp
    have "same_flow (m_pInterfaces s) (m_pInterfaces s1)" "set (m_to_send_queue s1) \<subseteq> set (m_to_send_queue s)"
      using send_immediate_loop_output [OF s1] by auto
    with windows have open1: "open_windows s1" by (rule open_windows_sub)
    have blocked: "transmit_loop k (m_to_send_queue s1) s1 = Some (False, s2)" using s2 False by simp
    have "waiting s1" using that by (simp only: same)
    from blocked_in_flight [OF blocked flow1 open1 this] show ?thesis by (simp add: same watched_def)
  qed
  ultimately show ?thesis by (simp add: alive_def)
qed

section \<open>The retransmit timer\<close>

lemma resend_packet_timer: "resend_packet k nT p s = (p', s') \<Longrightarrow> tm_enabled (m_pTransmitTimer s')"
  by (auto simp: resend_packet_def Let_def add_to_send_queue_def split: option.splits)

text \<open>A packet sent again starts the transmit timer; nothing stops it.\<close>

lemma retransmit_item_timer:
  assumes "retransmit_item k freed nT p adj s = Some (r, adj', s')"
  shows "tm_enabled (m_pTransmitTimer s') \<longleftrightarrow> tm_enabled (m_pTransmitTimer s) \<or> timed_out k s p"
proof (cases "timed_out k s p")
  case True
  then obtain s1 where "resend_packet k nT p s1 = (the r, s')"
    using assms by (auto simp: retransmit_item_def Let_def timed_out_def too_old_def was_sent_def split: bind_splits prod.splits)
  then show ?thesis using resend_packet_timer True by blast
next
  case False
  then show ?thesis
    using assms by (auto simp: retransmit_item_def timed_out_def too_old_def was_sent_def
        dest: add_outstanding_timers split: if_splits bind_splits)
qed

lemma retransmit_loop_timer:
  "retransmit_loop k freed nT kept is adj s = Some s' \<Longrightarrow>
    tm_enabled (m_pTransmitTimer s') \<longleftrightarrow> tm_enabled (m_pTransmitTimer s) \<or> (\<exists>p \<in> set is. timed_out k s p)"
proof (induction "is" arbitrary: kept adj s)
  case (Cons p "is")
  then obtain r adj1 s1 where
    item: "retransmit_item k freed nT p adj s = Some (r, adj1, s1)" and
    rest: "retransmit_loop k freed nT (kept @ (case r of Some i \<Rightarrow> [i] | None \<Rightarrow> [])) is adj1 s1 = Some s'"
    by (auto split: bind_splits prod.splits)
  have "timed_out k s1 = timed_out k s"
    using retransmit_item_effect [OF item] state_predicates_cong [of s1 s k] by auto
  then show ?case using Cons.IH [OF rest] retransmit_item_timer [OF item] by auto
qed auto

lemma retransmit_timer_timer:
  assumes "RetransmitTimer k freed nT s = Some s'"
  shows "tm_enabled (m_pTransmitTimer s') \<longleftrightarrow> tm_enabled (m_pTransmitTimer s) \<or> (\<exists>p \<in> set (m_sent_queue s). timed_out k s p)"
    "m_sent_queue s' \<noteq> [] \<longrightarrow> tm_enabled (m_pRetransmitTimer s')"
    "m_sent_queue s' = concat (map (after_timer k s) (m_sent_queue s))"
    "m_to_send_queue s' = m_to_send_queue s @
      (if IOMalloc_to_send_ok k then map queued_again (filter (timed_out k s) (m_sent_queue s)) else [])"
proof -
  let ?s = "s\<lparr>m_pRetransmitTimer := (m_pRetransmitTimer s)\<lparr>tm_enabled := False\<rparr>\<rparr>"
  have cong: "timed_out k ?s = timed_out k s" "after_timer k ?s = after_timer k s"
    using state_predicates_cong [of ?s s k] by auto
  from assms obtain s1 where
    s1: "retransmit_loop k freed nT [] (m_sent_queue s) False ?s = Some s1" and
    s': "s' = (if m_sent_queue s1 \<noteq> [] then enable_retransmit_timer s1 else s1)"
    by (auto simp: RetransmitTimer_def Let_def split: bind_splits)
  show "tm_enabled (m_pTransmitTimer s') \<longleftrightarrow> tm_enabled (m_pTransmitTimer s) \<or> (\<exists>p \<in> set (m_sent_queue s). timed_out k s p)"
    using retransmit_loop_timer [OF s1] unfolding cong by (simp add: s')
  show "m_sent_queue s' \<noteq> [] \<longrightarrow> tm_enabled (m_pRetransmitTimer s')" by (simp add: s')
  show "m_sent_queue s' = concat (map (after_timer k s) (m_sent_queue s))"
    "m_to_send_queue s' = m_to_send_queue s @
      (if IOMalloc_to_send_ok k then map queued_again (filter (timed_out k s) (m_sent_queue s)) else [])"
    using retransmit_loop_effect [OF s1] unfolding cong by (simp_all add: s')
qed

text \<open>The packets that a run of the timer drops.\<close>

definition drops :: "kernel \<Rightarrow> service \<Rightarrow> nat" where
  "drops k s = length (filter (dropped k (m_MaxTimeOutBeforeDrop s)) (m_sent_queue s))"

lemma dropped_after_timer: "dropped k (m_MaxTimeOutBeforeDrop s) p \<longleftrightarrow> RetransmitTime_us p = 0 \<or> too_old k s p"
  by (simp add: dropped_def too_old_def was_sent_def)

lemma retransmit_alive:
  assumes run: "RetransmitTimer k freed nT s = Some s'" and inv: "alive s" and none: "drops k s = 0"
  shows "alive s'"
proof -
  note timer = retransmit_timer_timer [OF run]
  have kept: "\<not> dropped k (m_MaxTimeOutBeforeDrop s) p" if "p \<in> set (m_sent_queue s)" for p
    using none that by (auto simp: drops_def filter_empty_conv)
  then have "mislaid k freed (m_MaxTimeOutBeforeDrop s) (m_sent_queue s) = 0"
    by (auto simp: mislaid_def filter_empty_conv)
  then have "flow_inv 0 s'" using flow_inv_retransmit [OF run, of 0 0] inv by (simp add: alive_def)
  moreover have "armed s'" using timer(2) by (auto simp: armed_def)
  moreover have "watched s'" if w: "waiting s'"
  proof (cases "tm_enabled (m_pTransmitTimer s')")
    case False
    then have none: "\<not> tm_enabled (m_pTransmitTimer s)" "\<forall>p \<in> set (m_sent_queue s). \<not> timed_out k s p"
      using timer(1) by auto
    then have "m_to_send_queue s' = m_to_send_queue s" using timer(4) by (simp add: filter_False)
    then obtain p where p: "p \<in> set (m_sent_queue s)" "in_flight p"
      using inv w none(1) by (auto simp: alive_def waiting_def watched_def)
    then have "p \<in> set (after_timer k s p)" using none(2) kept [OF p(1)] by (simp add: after_timer_def dropped_after_timer)
    then have "p \<in> set (m_sent_queue s')" using p(1) by (auto simp: timer(3))
    then show ?thesis using p(2) by (auto simp: watched_def)
  qed (simp add: watched_def)
  ultimately show ?thesis by (simp add: alive_def)
qed

lemma idle_alive:
  assumes "alive s" "forgotten k s = 0"
  shows "alive (IdleTimer k s)"
proof -
  have "flow_inv 0 (IdleTimer k s)" using flow_inv_idle [of 0 s 0 k] assms by (simp add: alive_def)
  then show ?thesis using assms(1) by (simp add: alive_def armed_def waiting_def watched_def IdleTimer_def)
qed

section \<open>Replies\<close>

lemma response_found_timers:
  assumes "response_found k freed tag s = Some (found, s')"
  shows "m_pTransmitTimer s' = m_pTransmitTimer s" "m_pRetransmitTimer s' = m_pRetransmitTimer s"
    "m_to_send_queue s' = m_to_send_queue s" "set (m_sent_queue s') \<subseteq> set (m_sent_queue s)" "\<not> found \<longrightarrow> s' = s"
proof -
  have o: "m_pTransmitTimer t' = m_pTransmitTimer t \<and> m_pRetransmitTimer t' = m_pRetransmitTimer t \<and>
      m_to_send_queue t' = m_to_send_queue t" if "response_outstanding p t = Some t'" for p t t'
    using that by (auto simp: response_outstanding_def split: option.splits if_split_asm Option.bind_split_asm
        dest!: add_outstanding_timers)
  have w: "m_pTransmitTimer t' = m_pTransmitTimer t \<and> m_pRetransmitTimer t' = m_pRetransmitTimer t \<and>
      m_to_send_queue t' = m_to_send_queue t \<and> m_sent_queue t' = m_sent_queue t" if "response_window r t = Some t'" for r t t'
    using that by (auto simp: response_window_def Let_def)
  have "m_pTransmitTimer s' = m_pTransmitTimer s \<and> m_pRetransmitTimer s' = m_pRetransmitTimer s \<and>
      m_to_send_queue s' = m_to_send_queue s \<and> set (m_sent_queue s') \<subseteq> set (m_sent_queue s) \<and> (\<not> found \<longrightarrow> s' = s)"
  proof (cases "take_first (\<lambda>i. sq_Tag i = tag) (m_sent_queue s)")
    case None
    then show ?thesis using assms by (simp add: response_found_def)
  next
    case (Some a)
    obtain p rest where a: "a = (p, rest)" by (cases a)
    obtain s1 where s1: "response_outstanding p s = Some s1"
      "response_window (sq_if_sent (freed p)) ((if \<not> fPacketHasBeenRetransmit p
        then update_rto (time_since_now_ns k (TimeSent p)) s1 else s1)\<lparr>m_sent_queue := rest\<rparr>) = Some s'" "found"
      using assms Some a by (auto simp: response_found_def Let_def split: Option.bind_split_asm)
    have "set rest \<subseteq> set (m_sent_queue s)" using take_first_Some [OF Some [unfolded a]] by auto
    then show ?thesis using o [OF s1(1)] w [OF s1(2)] s1(3) by (auto split: if_splits)
  qed
  then show "m_pTransmitTimer s' = m_pTransmitTimer s" "m_pRetransmitTimer s' = m_pRetransmitTimer s"
    "m_to_send_queue s' = m_to_send_queue s" "set (m_sent_queue s') \<subseteq> set (m_sent_queue s)" "\<not> found \<longrightarrow> s' = s" by simp_all
qed

text \<open>A reply that is not an error: its packet is taken off, the target may send more, and then the timer is started.\<close>

lemma reply_alive:
  assumes run: "response_found k freed tag s = Some (found, s1)" and inv: "alive s"
    and sent: "\<not> (\<exists>p \<in> set (m_sent_queue s). sq_Tag p = tag \<and> TimeFirstSent p = 0)"
    and more: "send_step\<^sup>*\<^sup>* s1 s2"
  shows "alive (if found \<and> m_to_send_queue s2 \<noteq> [] then enable_transmit_timer 3 s2 else s2)"
proof (cases found)
  case True
  note timers = response_found_timers [OF run]
  have "flow_inv 0 s1" using flow_inv_response [OF run, of 0 0] sent inv by (simp add: alive_def)
  moreover have "armed s1" using inv timers by (auto simp: alive_def armed_def)
  ultimately have "flow_inv 0 s2" "armed s2" using send_steps_flow [OF more] by simp_all
  then show ?thesis using True by (auto simp: alive_def waiting_def watched_def armed_def)
next
  case False
  have "alive s1" using response_found_timers(5) [OF run] False inv by simp
  with more have "alive s2" by (induction rule: rtranclp_induct) (auto intro: send_step_alive)
  then show ?thesis using False by simp
qed

section \<open>No packet waits for ever\<close>

text \<open>
  The events of flow control, all runs of the timers and all replies included: a new packet under a tag that is not in
  use, the three timers, a reply with the packets sent because of it, and an AoE error reply, after which the timer is
  not started. The number counts what may leave the queue unwatched: a packet dropped by the retransmit timer, taken
  off by an error reply, answered before it was sent, or in flight on an interface that the idle timer found
  idle; and a run of the transmit timer while a window has size 0.
\<close>

inductive queue_step :: "service \<Rightarrow> nat \<Rightarrow> service \<Rightarrow> bool" where
  qs_send: "send_step s s' \<Longrightarrow> queue_step s 0 s'"
| qs_transmit: "uptime k \<noteq> 0 \<Longrightarrow> TransmitTimer k s = Some s' \<Longrightarrow> queue_step s (of_bool (\<not> open_windows s)) s'"
| qs_retransmit: "RetransmitTimer k freed nT s = Some s' \<Longrightarrow> queue_step s (drops k s) s'"
| qs_idle: "queue_step s (forgotten k s) (IdleTimer k s)"
| qs_reply: "response_found k freed tag s = Some (found, s1) \<Longrightarrow> send_step\<^sup>*\<^sup>* s1 s2 \<Longrightarrow>
    queue_step s (of_bool (\<exists>p \<in> set (m_sent_queue s). sq_Tag p = tag \<and> TimeFirstSent p = 0))
      (if found \<and> m_to_send_queue s2 \<noteq> [] then enable_transmit_timer 3 s2 else s2)"
| qs_error: "response_found k freed tag s = Some (found, s') \<Longrightarrow> queue_step s (of_bool found) s'"

definition queue_event :: "nat \<times> service \<Rightarrow> nat \<times> service \<Rightarrow> bool" where
  "queue_event x y \<longleftrightarrow> (\<exists>e. fst y = fst x + e \<and> queue_step (snd x) e (snd y))"

lemma queue_step_alive: "queue_step s e s' \<Longrightarrow> e = 0 \<Longrightarrow> alive s \<Longrightarrow> alive s'"
proof (induction rule: queue_step.induct)
  case (qs_reply k freed tag s found s1 s2)
  then show ?case by (intro reply_alive) auto
next
  case (qs_error k freed tag s found s')
  then have "response_found k freed tag s = Some (False, s')" by simp
  then show ?case using response_found_timers(5) [of k freed tag s False s'] qs_error(3) by simp
qed (auto intro: send_step_alive transmit_alive retransmit_alive idle_alive)

interpretation progress: state_machine queue_event "\<lambda>x. fst x = 0 \<longrightarrow> alive (snd x)"
proof
  show "fst y = 0 \<longrightarrow> alive (snd y)" if "queue_event x y" "fst x = 0 \<longrightarrow> alive (snd x)" for x y
    using that queue_step_alive by (auto simp: queue_event_def)
qed

text \<open>C12: a queue that waits for ever has lost a packet: after any sequence of sends, runs of the three timers and replies from an
  idle state, error replies included, while a packet waits to be sent, the transmit timer is running, or a
  packet is in flight and the retransmit timer is running, whose reply or timeout starts the transmit timer,
  or some packet went astray before: it was dropped by the retransmit timer, taken off by an error reply,
  answered before it was sent, or in flight on an interface that the idle timer found idle, or it met a
  window of size 0.\<close>

theorem waiting_packets_watched:
  assumes "queue_event\<^sup>*\<^sup>* (0, s0) (e, s)" "m_sent_queue s0 = []" "m_to_send_queue s0 = []"
    "\<forall>e \<in> set (m_aInterfaces (m_pInterfaces s0)). m_nOutstandingCount e = 0" "m_to_send_queue s \<noteq> []"
  shows "tm_enabled (m_pTransmitTimer s) \<or>
    tm_enabled (m_pRetransmitTimer s) \<and> (\<exists>p \<in> set (m_sent_queue s). in_flight p) \<or> 0 < e"
proof -
  have "flow_inv 0 s0" using assms(2-4) by (intro flow_inv_empty) (auto simp: counts_def)
  then have "fst (0 :: nat, s0) = 0 \<longrightarrow> alive (snd (0 :: nat, s0))" using assms(2,3) by (simp add: alive_def armed_def waiting_def)
  with assms(1) have "fst (e, s) = 0 \<longrightarrow> alive (snd (e, s))" by (rule progress.steps_inv)
  then show ?thesis using assms(5) by (auto simp: alive_def waiting_def watched_def armed_def in_flight_def)
qed

text \<open>Two packets while the window admits one: the first is in flight, the second waits.\<close>

definition narrow_service :: service where
  "narrow_service = example_service\<lparr>m_pInterfaces := (m_pInterfaces example_service)\<lparr>m_nMaxUserWindow := 1\<rparr>\<rparr>"

definition narrow_run :: "(service \<times> service \<times> service \<times> service) option" where
  "narrow_run = do {
     (_, s1) \<leftarrow> send_packet_on_interface example_kernel 2 7 example_packet 0 True narrow_service;
     (_, s2) \<leftarrow> send_packet_on_interface example_kernel 2 8 example_packet 0 True s1;
     s3 \<leftarrow> TransmitTimer example_kernel s2;
     s4 \<leftarrow> TransmitTimer example_kernel s3;
     Some (s1, s2, s3, s4) }"

lemma narrow_run_done:
  "case narrow_run of Some (s1, s2, s3, s4) \<Rightarrow>
     map sq_Tag (m_sent_queue s1) = [7] \<and> map ts_Tag (m_to_send_queue s1) = [7] \<and>
     map ts_Tag (m_to_send_queue s4) = [8] \<and> \<not> tm_enabled (m_pTransmitTimer s4) \<and>
     list_all (\<lambda>i. max_outstanding s2 i = Some 1) (m_to_send_queue s2) \<and>
     list_all (\<lambda>i. max_outstanding s3 i = Some 1) (m_to_send_queue s3)
   | None \<Rightarrow> False"
  by code_simp

theorem waiting_packets_watched_witness:
  "\<exists>s. queue_event\<^sup>*\<^sup>* (0, narrow_service) (0, s) \<and> m_to_send_queue s \<noteq> [] \<and> \<not> tm_enabled (m_pTransmitTimer s) \<and>
     tm_enabled (m_pRetransmitTimer s) \<and> (\<exists>p \<in> set (m_sent_queue s). in_flight p)"
proof -
  obtain s1 s2 s3 s4 where run: "narrow_run = Some (s1, s2, s3, s4)" using narrow_run_done by (cases narrow_run) auto
  note done' = narrow_run_done [unfolded run option.case prod.case]
  obtain r1 r2 where steps: "send_packet_on_interface example_kernel 2 7 example_packet 0 True narrow_service = Some (r1, s1)"
      "send_packet_on_interface example_kernel 2 8 example_packet 0 True s1 = Some (r2, s2)"
      "TransmitTimer example_kernel s2 = Some s3" "TransmitTimer example_kernel s3 = Some s4"
    using run by (auto simp: narrow_run_def split: Option.bind_split_asm)
  have empty: "m_sent_queue narrow_service = []" "m_to_send_queue narrow_service = []"
    by (simp_all add: narrow_service_def example_service_def service_start_def)
  have tags: "\<forall>p \<in> set (m_sent_queue s1). sq_Tag p = 7" "\<forall>i \<in> set (m_to_send_queue s1). ts_Tag i = 7"
      "length (m_sent_queue s1) = 1"
    using done' by (auto simp: map_eq_Cons_conv)
  have now: "uptime example_kernel \<noteq> 0" by (simp add: example_kernel_def)
  have open_w: "open_windows s2" "open_windows s3" using done' by (auto simp: open_windows_def list_all_iff)
  have "send_step narrow_service s1" by (rule send_step.intros [OF _ _ _ steps(1)]) (simp_all add: empty)
  moreover have "send_step s1 s2"
    by (rule send_step.intros [OF _ _ _ steps(2)]) (simp_all add: tags)
  ultimately have "queue_event (0, narrow_service) (0, s1)" "queue_event (0, s1) (0, s2)" "queue_event (0, s2) (0, s3)"
      "queue_event (0, s3) (0, s4)"
    using qs_transmit [OF now steps(3)] qs_transmit [OF now steps(4)] open_w
    by (auto simp: queue_event_def intro: qs_send)
  then have reach: "queue_event\<^sup>*\<^sup>* (0, narrow_service) (0, s4)"
    by (meson converse_rtranclp_into_rtranclp rtranclp.rtrancl_refl)
  have idle: "\<forall>e \<in> set (m_aInterfaces (m_pInterfaces narrow_service)). m_nOutstandingCount e = 0"
    by (simp add: narrow_service_def example_service_def service_start_def EInterfaces_init_def EInterface_init_def
        numeral_eq_Suc)
  have "m_to_send_queue s4 \<noteq> []" using done' by auto
  then show ?thesis
    using waiting_packets_watched [OF reach empty idle] reach done' by (intro exI [of _ s4]) simp
qed

section \<open>An error reply stops the queue\<close>

text \<open>Packets that wait for their first transmission: the retransmit timer leaves them alone.\<close>

definition unsent :: "SentPkt \<Rightarrow> bool" where
  "unsent p \<longleftrightarrow> RetransmitTime_us p \<noteq> 0 \<and> TimeFirstSent p = 0"

fun retransmit_runs :: "kernel list \<Rightarrow> (SentPkt \<Rightarrow> SentPkt) \<Rightarrow> int option \<Rightarrow> service \<Rightarrow> service option" where
  "retransmit_runs [] freed nT s = Some s"
| "retransmit_runs (k # ks) freed nT s = do { s \<leftarrow> RetransmitTimer k freed nT s; retransmit_runs ks freed nT s }"

lemma retransmit_loop_unsent:
  "\<forall>p \<in> set is. unsent p \<Longrightarrow> retransmit_loop k freed nT kept is adj s = Some (s\<lparr>m_sent_queue := kept @ is\<rparr>)"
  by (induction "is" arbitrary: kept) (simp_all add: retransmit_item_def unsent_def)

lemma retransmit_runs_unsent:
  "\<forall>p \<in> set (m_sent_queue s). unsent p \<Longrightarrow> \<exists>s'. retransmit_runs ks freed nT s = Some s' \<and>
     m_sent_queue s' = m_sent_queue s \<and> m_to_send_queue s' = m_to_send_queue s \<and> m_pTransmitTimer s' = m_pTransmitTimer s"
proof (induction ks arbitrary: s)
  case (Cons k ks)
  obtain s1 where s1: "RetransmitTimer k freed nT s = Some s1" "m_sent_queue s1 = m_sent_queue s"
      "m_to_send_queue s1 = m_to_send_queue s" "m_pTransmitTimer s1 = m_pTransmitTimer s"
    using Cons.prems by (simp add: RetransmitTimer_def retransmit_loop_unsent Let_def)
  then show ?case using Cons.IH [of s1] Cons.prems by auto
qed simp

text \<open>C38: an error reply to the only packet in flight stops the queue: the packets that wait stay in it, the transmit timer is
  not started, and however often the retransmit timer runs it sends nothing; only a new packet starts the queue
  again.\<close>

theorem error_reply_stalls:
  assumes "aoe_header_at (rx_mem mb) = Some h" "AOE_HEADER_GETFLAG h AND AOE_FLAG_RESPONSE \<noteq> 0"
    "AOE_HEADER_GETFLAG h AND AOE_FLAG_ERROR \<noteq> 0" "distinct (map sq_Tag (m_sent_queue (service_of w)))"
    "cg_aoe_incoming k freed af this ifp shost mb w = Some w'"
    "\<forall>p \<in> set (m_sent_queue (service_of w)). sq_Tag p = AOE_HEADER_GETTAG h \<or> unsent p"
    "\<not> tm_enabled (m_pTransmitTimer (service_of w))"
  shows "\<exists>s'. retransmit_runs ks freed2 nT (service_of w') = Some s' \<and>
    m_to_send_queue s' = m_to_send_queue (service_of w) \<and> \<not> tm_enabled (m_pTransmitTimer s')"
proof -
  obtain found s1 where r: "response_found k freed (AOE_HEADER_GETTAG h) (service_of w) = Some (found, s1)"
      "w' = count_unexpected (on_service (\<lambda>_. s1) w)"
    using assms(1-3,5) by (auto simp: cg_aoe_incoming_def split: Option.bind_split_asm)
  have s': "m_sent_queue (service_of w') = m_sent_queue s1" "m_to_send_queue (service_of w') = m_to_send_queue (service_of w)"
      "m_pTransmitTimer (service_of w') = m_pTransmitTimer (service_of w)"
    using response_found_timers [OF r(1)] by (simp_all add: r(2) count_unexpected_def)
  have "m_sent_queue s1 = filter (\<lambda>i. sq_Tag i \<noteq> AOE_HEADER_GETTAG h) (m_sent_queue (service_of w))"
    using response_found_queue [OF r(1)] take_first_distinct [OF _ assms(4)]
    by (auto simp: take_first_None filter_id_conv split: option.splits)
  then have "\<forall>p \<in> set (m_sent_queue (service_of w')). unsent p" using assms(6) s'(1) by auto
  from retransmit_runs_unsent [OF this, of ks freed2 nT] s' assms(7) show ?thesis by auto
qed

definition stalled_provider :: "service \<Rightarrow> provider" where
  "stalled_provider s = example_provider\<lparr>m_pAoEService := s\<rparr>"

lemma stalled_run:
  "case narrow_run of Some (_, _, _, s) \<Rightarrow>
     cg_aoe_incoming example_kernel (\<lambda>i. i) example_family None 2 17 (header_mbuf 12 7)
       ([example_controller], stalled_provider s) \<noteq> None \<and>
     map sq_Tag (m_sent_queue s) = [7, 8] \<and> list_all (\<lambda>p. sq_Tag p = 7 \<or> unsent p) (m_sent_queue s) \<and>
     map ts_Tag (m_to_send_queue s) = [8] \<and> \<not> tm_enabled (m_pTransmitTimer s)
   | None \<Rightarrow> False"
  by code_simp

theorem error_reply_stalls_witness:
  "\<exists>s w' s'. map ts_Tag (m_to_send_queue s) = [8] \<and>
     cg_aoe_incoming example_kernel (\<lambda>i. i) example_family None 2 17 (header_mbuf 12 7)
       ([example_controller], stalled_provider s) = Some w' \<and>
     retransmit_runs (replicate 100 example_kernel) (\<lambda>p. p) None (service_of w') = Some s' \<and>
     map ts_Tag (m_to_send_queue s') = [8] \<and> \<not> tm_enabled (m_pTransmitTimer s')"
proof -
  obtain s1 s2 s3 s where run: "narrow_run = Some (s1, s2, s3, s)" using narrow_run_done by (cases narrow_run) auto
  note state = stalled_run [unfolded run option.case prod.case]
  then obtain w' where w': "cg_aoe_incoming example_kernel (\<lambda>i. i) example_family None 2 17 (header_mbuf 12 7)
      ([example_controller], stalled_provider s) = Some w'" by auto
  let ?h = "(aoe_header_to 0 1 AOE_ATA_COMMAND 7)\<lparr>ah_verflagserr := AOE_HEADER_SETVERFLAGERR 1 12 0\<rparr>"
  have h: "aoe_header_at (rx_mem (header_mbuf 12 7)) = Some ?h"
    by (simp add: header_mbuf_def aoe_header_at_mem)
  have flags: "AOE_HEADER_GETFLAG ?h AND AOE_FLAG_RESPONSE \<noteq> 0" "AOE_HEADER_GETFLAG ?h AND AOE_FLAG_ERROR \<noteq> 0"
      "AOE_HEADER_GETTAG ?h = 7" by code_simp+
  have s: "service_of ([example_controller], stalled_provider s) = s" by (simp add: stalled_provider_def)
  have "distinct (map sq_Tag (m_sent_queue s))" "\<forall>p \<in> set (m_sent_queue s). sq_Tag p = AOE_HEADER_GETTAG ?h \<or> unsent p"
      "\<not> tm_enabled (m_pTransmitTimer s)"
    using state by (simp_all add: flags(3) list_all_iff)
  note stalls = error_reply_stalls [OF h flags(1,2) _ w', unfolded s, OF this]
  show ?thesis using stalls [of "replicate 100 example_kernel" "\<lambda>p. p" None] w' state by (elim exE conjE) (intro exI conjI, auto)
qed

end
