(* ===== verification/PortProps.thy ===== *)
theory PortProps
  imports DriverProps
begin

unbundle bit_operations_syntax

text \<open>
  How the preferences set the enabled ports.
\<close>

section \<open>The preferences and the enabled ports\<close>

definition port_flags :: "EInterfaces \<Rightarrow> bool list" where
  "port_flags I = map m_fEnabled (m_aInterfaces I)"

definition driver_ports :: "driver \<Rightarrow> nat set" where
  "driver_ports d = set (enabled_ports (interfaces (snd (dr_world d))))"

definition driver_ready :: "driver \<Rightarrow> bool" where
  "driver_ready d \<longleftrightarrow> g_pController d \<and> m_pCmdGate d \<and>
     length (m_aInterfaces (interfaces (snd (dr_world d)))) = MAX_PORTS \<and>
     length (g_aInterfaces (dr_filters d)) = MAX_PORTS"

text \<open>Completing a command may send packets, which leaves the table of interfaces alone.\<close>

definition family_ports :: "ata_family \<Rightarrow> bool" where
  "family_ports af \<longleftrightarrow> (\<forall>err cp. interfaces (snd (af_completeIO af err cp)) = interfaces (snd cp))"

lemma set_enabled_ports: "set (enabled_ports I) = {n. n < length (port_flags I) \<and> port_flags I ! n}"
  by (auto simp: enabled_ports_def port_flags_def)

lemma length_port_flags: "length (port_flags I) = length (m_aInterfaces I)"
  by (simp add: port_flags_def)

lemma flags_update_if:
  assumes "\<And>e. m_fEnabled (f e) = m_fEnabled e"
  shows "port_flags (snd (update_if r f I)) = port_flags I"
proof (cases "find_if I r")
  case (Some n)
  then have "n < length (m_aInterfaces I)" by (rule find_if_less)
  then have "(map m_fEnabled (m_aInterfaces I))[n := m_fEnabled (m_aInterfaces I ! n)] = map m_fEnabled (m_aInterfaces I)"
    by (simp add: list_update_same_conv)
  then show ?thesis using Some by (simp add: update_if_def port_flags_def map_update assms)
qed (simp add: update_if_def)

lemma flags_setters [simp]:
  "port_flags (snd (EInterfaces_set_cwnd r c I)) = port_flags I"
  "port_flags (snd (EInterfaces_set_ssthresh r c I)) = port_flags I"
  by (simp_all add: EInterfaces_set_ssthresh_def EInterfaces_set_cwnd_def flags_update_if)

lemma flags_reset_count:
  "port_flags (I\<lparr>m_aInterfaces := (m_aInterfaces I)[n := (m_aInterfaces I ! n)\<lparr>m_nOutstandingCount := 0\<rparr>]\<rparr>) = port_flags I"
  by (cases "n < length (m_aInterfaces I)") (simp_all add: port_flags_def map_update list_update_same_conv list_update_beyond)

lemma flags_reset_congestion: "port_flags (reset_congestion n I) = port_flags I"
  by (simp add: reset_congestion_def Let_def flags_reset_count)

lemma flags_mark_enabled: "port_flags (mark_enabled n r I) = (port_flags I)[n := True]"
  by (simp add: mark_enabled_def port_flags_def Let_def map_update)

lemma flags_recalculate [simp]:
  "port_flags (recalculate_mtu k I) = port_flags I"
  "port_flags (EInterfaces_update_interface_property k I) = port_flags I"
  by (simp_all add: recalculate_mtu_def EInterfaces_update_interface_property_def port_flags_def Let_def)

lemma enable_flags:
  assumes "n < MAX_PORTS" "length (m_aInterfaces I) = MAX_PORTS" "length (g_aInterfaces t) = MAX_PORTS"
  shows "\<exists>r I' t'. EInterfaces_enable_interface k (int n) I t = Some (r, I', t') \<and>
    port_flags I' = (port_flags I)[n := True] \<and> length (g_aInterfaces t') = MAX_PORTS"
proof -
  obtain retval ifn where lookup: "find_by_name k (int n) = (retval, ifn)" by (cases "find_by_name k (int n)")
  have "\<exists>r t'. enable_filtering k (int n) ifn t = Some (r, t') \<and> length (g_aInterfaces t') = MAX_PORTS"
    using assms by (cases "iflt_attach k ifn") (simp add: enable_filtering_def Let_def)
  then obtain t' where t': "(if retval = KERN_SUCCESS then map_option snd (enable_filtering k (int n) ifn t) else Some t) = Some t'"
      "length (g_aInterfaces t') = MAX_PORTS"
    using assms(3) by (cases "retval = KERN_SUCCESS") auto
  have "port_flags (reset_congestion n (mark_enabled n ifn I)) = (port_flags I)[n := True]"
    by (simp add: flags_reset_congestion flags_mark_enabled)
  then show ?thesis
    using assms t' by (simp add: EInterfaces_enable_interface_def lookup Let_def)
qed

lemma driver_ports_flags:
  assumes "port_flags (interfaces (snd (dr_world d'))) = (port_flags (interfaces (snd (dr_world d))))[n := b]"
    "n < MAX_PORTS" "driver_ready d"
  shows "driver_ports d' = (if b then insert n (driver_ports d) else driver_ports d - {n})"
  using assms
  by (auto simp: driver_ports_def set_enabled_ports driver_ready_def length_port_flags nth_list_update
      split: if_split_asm)

lemma interfaces_kept [simp]:
  "interfaces (snd (start_lun_search f w)) = interfaces (snd w)"
  "interfaces (snd (reenable_controllers w)) = interfaces (snd w)"
  "interfaces (snd (adjust_mtu_sizes m w)) = interfaces (snd w)"
  "interfaces (snd (set_interfaces I w)) = I"
  "interfaces (snd (interface_set_max_transfer_size m w)) = interfaces (snd w)"
  by (auto simp: start_lun_search_def reenable_controllers_def adjust_mtu_sizes_def set_interfaces_def
      interface_set_max_transfer_size_def Let_def split: prod.split)

lemma enable_port:
  assumes "driver_ready d" "n < MAX_PORTS" "c_enable_interface k (int n) d = Some d'"
  shows "driver_ready d' \<and> driver_ports d' = insert n (driver_ports d)"
proof -
  let ?I = "interfaces (snd (dr_world d))"
  obtain r I' t' where e: "EInterfaces_enable_interface k (int n) ?I (dr_filters d) = Some (r, I', t')"
      "port_flags I' = (port_flags ?I)[n := True]" "length (g_aInterfaces t') = MAX_PORTS"
    using enable_flags [of n ?I "dr_filters d" k] assms(1,2) by (auto simp: driver_ready_def)
  have d': "interfaces (snd (dr_world d')) = I'" "dr_filters d' = t'" "g_pController d'" "m_pCmdGate d'"
    using assms(1,3) e(1)
    by (auto simp: c_enable_interface_def enable_interface_def cg_enable_interface_def driver_ready_def Let_def)
  have "length (m_aInterfaces I') = MAX_PORTS"
    using e(2) assms(1) by (metis driver_ready_def length_list_update length_port_flags)
  then have "driver_ready d'" using d' e(3) by (simp add: driver_ready_def)
  then show ?thesis using driver_ports_flags [of d' d n True] d'(1) e(2) assms(1,2) by simp
qed

lemma cancel_commands_interfaces:
  assumes "family_ports af"
  shows "interfaces (snd (snd (cancel_commands_on_interface af r w))) = interfaces (snd w)"
proof -
  have "interfaces (snd (cancel_command af f cp)) = interfaces (snd cp)" for f cp
    using assms by (cases cp) (simp add: cancel_command_def family_ports_def Let_def split: prod.split, metis snd_conv)
  then show ?thesis
    by (cases w) (auto simp: cancel_commands_on_interface_def Let_def split: option.split prod.split, metis snd_conv)
qed

lemma disable_port:
  assumes "driver_ready d" "n < MAX_PORTS" "family_ports af" "c_disable_interface k af (int n) d = Some (r, d')"
  shows "driver_ready d' \<and> driver_ports d' = driver_ports d - {n}"
proof -
  let ?I = "interfaces (snd (dr_world d))"
  have len: "length (m_aInterfaces ?I) = MAX_PORTS" using assms(1) by (simp add: driver_ready_def)
  obtain w1 I1 where w1: "EInterfaces_interface_disconnected k (int n) ?I = Some (0, I1)"
      "cg_disable_interface k af (int n) (dr_world d) = Some (snd (cancel_commands_on_interface af
        (EInterfaces_get_nth_interface ?I n) w1))" "interfaces (snd w1) = I1"
    using cg_disable_purged [of "dr_world d" n k af] len assms(2) by auto
  have I1: "m_aInterfaces I1 = (m_aInterfaces ?I)[n := (m_aInterfaces ?I ! n)\<lparr>m_ifnet := 0, m_fEnabled := False\<rparr>]"
    using disconnected_table [OF len assms(2), of k] w1(1) by simp
  have i': "interfaces (snd (dr_world d')) = I1" "g_pController d'" "m_pCmdGate d'"
      "length (g_aInterfaces (dr_filters d')) = MAX_PORTS"
    using assms w1 cancel_commands_interfaces [OF assms(3), of "EInterfaces_get_nth_interface ?I n" w1]
    by (auto simp: c_disable_interface_def disable_interface_def interface_disconnected_def driver_ready_def
        disable_filtering_def Let_def split: Option.bind_splits if_split_asm)
  then have "driver_ready d'" using len by (simp add: driver_ready_def I1)
  moreover have "port_flags I1 = (port_flags ?I)[n := False]" by (simp add: port_flags_def I1 map_update)
  ultimately show ?thesis using driver_ports_flags [of d' d n False] i'(1) assms(1,2) by simp
qed

lemma sint_small_port: "p < 6 \<Longrightarrow> sint (p :: u32) = int (unat p)"
proof -
  assume "p < 6"
  then have "uint p < 6" by (simp add: word_less_def)
  then have "sint (word_of_int (uint p) :: u32) = uint p" by (intro sint_word_of_int_32) (auto intro: order_trans [of _ 0])
  then show ?thesis by simp
qed

lemma enable_added_ports:
  assumes "enable_added k prev new d = Some d'" "driver_ready d" "\<forall>p \<in> set new. p < 6"
  shows "driver_ready d' \<and> driver_ports d' = driver_ports d \<union> unat ` (set new - set prev)"
  using assms
proof (induction new arbitrary: d)
  case (Cons n new)
  show ?case
  proof (cases "n \<in> set prev")
    case True
    then show ?thesis using Cons by auto
  next
    case False
    then obtain d1 where d1: "c_enable_interface k (int (unat n)) d = Some d1" "enable_added k prev new d1 = Some d'"
      using Cons.prems by (auto simp: sint_small_port split: Option.bind_splits)
    have "unat n < MAX_PORTS" using Cons.prems(3) by (simp add: word_less_nat_alt)
    from enable_port [OF Cons.prems(2) this d1(1)] show ?thesis
      using Cons.IH [OF d1(2)] Cons.prems(3) False by auto
  qed
qed simp

lemma disable_removed_ports:
  assumes "disable_removed k af new prev d = Some d'" "driver_ready d" "\<forall>p \<in> set prev. p < 6" "family_ports af"
  shows "driver_ready d' \<and> driver_ports d' = driver_ports d - unat ` (set prev - set new)"
  using assms(1-3)
proof (induction prev arbitrary: d)
  case (Cons n prev)
  show ?case
  proof (cases "n \<in> set new")
    case True
    then show ?thesis using Cons by auto
  next
    case False
    then obtain r d1 where d1: "c_disable_interface k af (int (unat n)) d = Some (r, d1)" "disable_removed k af new prev d1 = Some d'"
      using Cons.prems by (auto simp: sint_small_port split: Option.bind_splits)
    have "unat n < MAX_PORTS" using Cons.prems(3) by (simp add: word_less_nat_alt)
    from disable_port [OF Cons.prems(2) this assms(4) d1(1)] show ?thesis
      using Cons.IH [OF d1(2)] Cons.prems(3) False by auto
  qed
qed simp

lemma each_interfaces:
  assumes "each sel f (cs, p) = Some (cs', p')" "\<And>c p c' p'. f (c, p) = Some (c', p') \<Longrightarrow> interfaces p' = interfaces p"
  shows "interfaces p' = interfaces p"
  using assms(1)
proof (induction cs arbitrary: p cs')
  case (Cons c cs)
  obtain c1 p1 where c1: "(if sel c then f (c, p) else Some (c, p)) = Some (c1, p1)"
    using Cons.prems by (auto split: Option.bind_split_asm)
  have "interfaces p1 = interfaces p" using c1 assms(2) by (auto split: if_split_asm)
  then show ?case using Cons c1 by (auto split: Option.bind_split_asm if_split_asm)
qed simp

lemma aoe_search_all_interfaces:
  assumes "aoe_search_all k af (cs, p) = Some (r, cs', p')"
  shows "interfaces p' = interfaces p"
proof -
  obtain e q where q: "search_from k [0..<length (m_aInterfaces (interfaces p))] p = Some (e, q)"
      "(if e \<noteq> 0 then Some (e, cs, q) else map_option (Pair 0) (identify_all_targets k af (cs, q))) = Some (r, cs', p')"
    using assms by (auto simp: aoe_search_all_def map_option_case split: Option.bind_split_asm if_split_asm option.splits)
  have "interfaces p' = interfaces q"
    using q(2) by (auto simp: identify_all_targets_def dest!: each_interfaces send_identify_interfaces split: if_split_asm)
  then show ?thesis using search_from_interfaces [OF q(1)] by simp
qed

text \<open>What the rest of the preferences leaves alone.\<close>

definition same_ports :: "driver \<Rightarrow> driver \<Rightarrow> bool" where
  "same_ports d d' \<longleftrightarrow>
     enabled_ports (interfaces (snd (dr_world d'))) = enabled_ports (interfaces (snd (dr_world d))) \<and>
     length (m_aInterfaces (interfaces (snd (dr_world d')))) = length (m_aInterfaces (interfaces (snd (dr_world d)))) \<and>
     dr_filters d' = dr_filters d \<and> g_pController d' = g_pController d \<and> m_pCmdGate d' = m_pCmdGate d"

lemma same_ports_trans: "same_ports a b \<Longrightarrow> same_ports b c \<Longrightarrow> same_ports a c"
  by (simp add: same_ports_def)

lemma same_ports_kept: "same_ports d d' \<Longrightarrow> driver_ports d' = driver_ports d \<and> driver_ready d' = driver_ready d"
  by (simp add: same_ports_def driver_ports_def driver_ready_def)

lemma same_ports_settings:
  "same_ports d (snd (c_set_max_transfer_size n d))" "same_ports d (snd (c_set_user_window n d))"
  by (simp_all add: same_ports_def c_set_user_window_def c_set_max_transfer_size_def set_user_window_def
      enabled_ports_def)

lemma same_ports_ourcstring: "c_set_ourcstring f s d = Some (r, d') \<Longrightarrow> same_ports d d'"
  by (auto simp: c_set_ourcstring_def set_our_cstring_def same_ports_def split: if_split_asm Option.bind_split_asm
      dest!: arg_cong [of "on_service _ _" _ "\<lambda>w. interfaces (snd w)"])

lemma same_ports_update: "c_update_target k af d = Some (r, n, d') \<Longrightarrow> same_ports d d'"
  using aoe_search_all_interfaces [of k af "fst (dr_world d)" "snd (dr_world d)"]
  by (auto simp: c_update_target_def find_targets_def same_ports_def split: if_split_asm Option.bind_split_asm)

lemma ports_switched:
  assumes "enable_added k prev new d = Some d1" "disable_removed k af new prev d1 = Some d2" "driver_ready d"
    "family_ports af" "driver_ports d = unat ` set prev" "\<forall>p \<in> set prev \<union> set new. p < 6"
  shows "driver_ready d2 \<and> driver_ports d2 = unat ` set new"
proof -
  have e: "driver_ready d1" "driver_ports d1 = driver_ports d \<union> unat ` (set new - set prev)"
    using enable_added_ports [OF assms(1,3)] assms(6) by auto
  have r: "driver_ready d2" "driver_ports d2 = driver_ports d1 - unat ` (set prev - set new)"
    using disable_removed_ports [OF assms(2) e(1) _ assms(4)] assms(6) by auto
  have inj: "inj_on unat A" for A :: "u32 set" by (rule inj_on_inverseI [of _ of_nat]) simp
  have "driver_ports d2 = unat ` ((set prev \<union> (set new - set prev)) - (set prev - set new))"
    using r(2) e(2) assms(5) by (simp only: image_Un image_set_diff [OF inj])
  also have "(set prev \<union> (set new - set prev)) - (set prev - set new) = set new" by blast
  finally show ?thesis using r(1) by blast
qed

lemma set_preferences_ports:
  assumes "set_preferences k af fString given (previous, d) = Some (prefs, d')" "driver_ready d" "family_ports af"
    "driver_ports d = unat ` set (ports previous)"
    "\<forall>p \<in> set (ports previous) \<union> set (ports (clamp_ports given)). p < 6"
  shows "prefs = clamp_ports given \<and> driver_ports d' = unat ` set (ports prefs) \<and> driver_ready d'"
proof -
  let ?new = "ports (clamp_ports given)"
  obtain d1 d2 r4 d4 r5 n where run: "enable_added k (ports previous) ?new d = Some d1"
      "disable_removed k af ?new (ports previous) d1 = Some d2"
      "c_set_ourcstring fString (aszComputerConfigString (clamp_ports given))
        (snd (c_set_user_window (sint (nUserBlockCountWindow (clamp_ports given)))
          (snd (c_set_max_transfer_size (sint (pf_nMaxTransferSize (clamp_ports given))) d2)))) = Some (r4, d4)"
      "c_update_target k af d4 = Some (r5, n, d')" "prefs = clamp_ports given"
    using assms(1) by (auto simp: set_preferences_def Let_def split: Option.bind_split_asm)
  have "same_ports d2 d'"
    by (rule same_ports_trans [OF same_ports_trans [OF same_ports_trans [OF
        same_ports_settings(1) same_ports_settings(2)] same_ports_ourcstring [OF run(3)]] same_ports_update [OF run(4)]])
  then show ?thesis
    using same_ports_kept ports_switched [OF run(1,2) assms(2-5)] run(5) by simp
qed

text \<open>C5: setting the preferences enables exactly the ports of the new list: when the enabled ports were those
  of the old list, the added ones are enabled, the removed ones disabled, all others left alone. The
  stored preferences are the given ones with at most six ports.\<close>

theorem preferences_set_ports:
  assumes "set_preferences k af fString given (previous, d) = Some (prefs, d')" "driver_ready d" "family_ports af"
    "driver_ports d = unat ` set (ports previous)"
    "\<forall>p \<in> set (ports previous) \<union> set (ports (clamp_ports given)). p < 6"
  shows "prefs = clamp_ports given \<and> driver_ports d' = unat ` set (ports prefs) \<and> driver_ready d'"
  using assms by (rule set_preferences_ports)

definition example_preferences :: "u32 list \<Rightarrow> preferences" where
  "example_preferences ns = \<lparr>nNumberOfPorts = of_nat (length ns), pf_nMaxTransferSize = 262144,
     nUserBlockCountWindow = 128, anEnabledPorts = take 6 (ns @ replicate 6 0),
     aszComputerConfigString = replicate 1024 0\<rparr>"

definition idle_driver :: driver where
  "idle_driver = example_driver\<lparr>dr_world := ([], example_provider)\<rparr>"

lemma preferences_run:
  "case set_preferences example_kernel example_family True (example_preferences [3, 2])
      (example_preferences [1], idle_driver) of Some _ \<Rightarrow> True | None \<Rightarrow> False"
  by code_simp

theorem preferences_set_ports_witness:
  "\<exists>prefs d'. set_preferences example_kernel example_family True (example_preferences [3, 2])
      (example_preferences [1], idle_driver) = Some (prefs, d') \<and> driver_ports d' = {3, 2}"
proof -
  obtain prefs d' where run: "set_preferences example_kernel example_family True (example_preferences [3, 2])
      (example_preferences [1], idle_driver) = Some (prefs, d')"
    using preferences_run by (auto split: option.splits)
  have ports: "ports (example_preferences [1]) = [1]" "ports (clamp_ports (example_preferences [3, 2])) = [3, 2]"
    by code_simp+
  have "driver_ready idle_driver" by code_simp
  moreover have "driver_ports idle_driver = {1}"
  proof -
    have "enabled_ports (interfaces (snd (dr_world idle_driver))) = [1]" by code_simp
    then show ?thesis by (simp add: driver_ports_def)
  qed
  moreover have "family_ports example_family" by (simp add: family_ports_def example_family_def)
  ultimately have "driver_ports d' = unat ` set (ports prefs) \<and> prefs = clamp_ports (example_preferences [3, 2])"
    using preferences_set_ports [OF run] ports by auto
  then show ?thesis using run ports(2) by (intro exI [of _ prefs] exI [of _ d']) simp
qed

end
