(* ===== verification/SilentTargets.thy ===== *)
theory SilentTargets
  imports Progress PortProps
begin

unbundle bit_operations_syntax

text \<open>
  Targets that no longer answer are removed by the timer of \<open>AoEControllerInterface.cpp\<close>, one at each of its runs,
  and no others are.
\<close>

section \<open>What the timer looks at\<close>

definition last_heard :: "controller \<Rightarrow> int \<times> u64" where
  "last_heard c = (target_number c, m_time_since_last_comm c)"

definition offline_time :: "world \<Rightarrow> u64" where
  "offline_time w = m_TimeUntilTargetOffline_us (snd w)"

text \<open>The base class does not know the time after which a target counts as offline.\<close>

definition family_quiet :: "ata_family \<Rightarrow> bool" where
  "family_quiet af \<longleftrightarrow> (\<forall>err cp. m_TimeUntilTargetOffline_us (snd (af_completeIO af err cp)) = m_TimeUntilTargetOffline_us (snd cp))"

text \<open>What a run of the timer looks at in a target: when it was heard of, and by which interfaces it is reached.\<close>

definition reached :: "controller \<Rightarrow> (int \<times> u64) \<times> nat \<times> ifnet list" where
  "reached c = (last_heard c, nNumberOfInterfaces (m_target c), interfaces_of (m_target c))"

definition unreachable :: "EInterfaces \<Rightarrow> (int \<times> u64) \<times> nat \<times> ifnet list \<Rightarrow> bool" where
  "unreachable I x \<longleftrightarrow> fst (snd x) \<noteq> 0 \<and> (\<forall>r \<in> set (snd (snd x)). EInterfaces_is_used I r \<noteq> 1)"

lemma unreachable_cut_off: "unreachable I (reached c) = cut_off I c"
  by (simp add: unreachable_def reached_def cut_off_def)

lemma map_reached: "map last_heard cs = map fst (map reached cs)"
  by (simp add: reached_def)

definition stays :: "controller \<times> provider \<Rightarrow> controller \<times> provider \<Rightarrow> bool" where
  "stays cp cp' \<longleftrightarrow> m_time_since_last_comm (fst cp') = m_time_since_last_comm (fst cp) \<and>
     nNumberOfInterfaces (m_target (fst cp')) = nNumberOfInterfaces (m_target (fst cp)) \<and>
     interfaces_of (m_target (fst cp')) = interfaces_of (m_target (fst cp)) \<and>
     interfaces (snd cp') = interfaces (snd cp) \<and>
     m_TimeUntilTargetOffline_us (snd cp') = m_TimeUntilTargetOffline_us (snd cp)"

lemma next_tag_offline: "next_tag p = (t, q) \<Longrightarrow> m_TimeUntilTargetOffline_us q = m_TimeUntilTargetOffline_us p"
  by (auto simp: next_tag_def Let_def)

lemma send_aoe_packet_stays: "send_aoe_packet k m Tag cp = Some (r, cp') \<Longrightarrow> stays cp cp'"
  by (cases cp) (auto simp: send_aoe_packet_def send_packet_def stays_def interfaces_of_def Let_def
    dest!: send_packet_on_interface_interfaces split: if_split_asm Option.bind_splits prod.splits)

lemma send_ata_packet_stays: "send_ata_packet k af m Tag cp = Some (r, cp') \<Longrightarrow> stays cp cp'"
  using send_aoe_packet_stays by (cases cp) (auto simp: send_ata_packet_def stays_def split: aoe_body.splits if_splits)

lemma send_identify_stays:
  assumes "send_identify k af (c, p) = Some (r, cp')"
  shows "stays (c, p) cp'"
proof -
  obtain Tag q where tag: "next_tag p = (Tag, q)" by (cases "next_tag p")
  note q = next_tag_offline [OF tag] next_tag_interfaces [OF tag]
  show ?thesis
  proof (cases "create_mbuf_for_transfer k Tag True (m_target c)")
    case None
    then show ?thesis using assms q by (auto simp: send_identify_def tag stays_def)
  next
    case (Some m)
    then obtain m' result c1 p1 where send: "send_ata_packet k af m' Tag (c\<lparr>m_nOutstandingIdentTag := 0\<rparr>, q) = Some (result, c1, p1)"
        "cp' = (if result = 0 then c1\<lparr>m_nOutstandingIdentTag := Tag\<rparr> else c1, p1)"
      using assms by (auto simp: send_identify_def tag Let_def split: Option.bind_splits prod.splits if_splits)
    from send_ata_packet_stays [OF send(1)] show ?thesis by (simp add: stays_def send(2) q)
  qed
qed

lemma each_stays:
  assumes "\<And>c p c' p'. f (c, p) = Some (c', p') \<Longrightarrow> keeps (c, p) (c', p') \<and> stays (c, p) (c', p')"
  shows "each sel f (cs, p) = Some w' \<Longrightarrow> removed_targets p = [] \<Longrightarrow>
    map reached (fst w') = map reached cs \<and> offline_time w' = m_TimeUntilTargetOffline_us p \<and>
    interfaces (snd w') = interfaces p"
proof (induction cs arbitrary: p w')
  case (Cons c cs)
  obtain c1 p1 where c1: "(if sel c then f (c, p) else Some (c, p)) = Some (c1, p1)"
    using Cons.prems(1) by (auto split: Option.bind_split_asm)
  have k: "keeps (c, p) (c1, p1)" "stays (c, p) (c1, p1)"
    using c1 assms by (auto split: if_split_asm simp: stays_def)
  then have c: "reached c1 = reached c" "removed_targets p1 = []"
    using Cons.prems(2) by (simp_all add: keeps_def stays_def reached_def last_heard_def target_number_def identity_def)
  then obtain cs1 p2 where "each sel f (cs, p1) = Some (cs1, p2)" "w' = (c1 # cs1, p2)"
    using Cons.prems(1) c1 by (auto split: Option.bind_split_asm)
  with Cons.IH c k(2) show ?case by (fastforce simp: offline_time_def stays_def)
qed (auto simp: offline_time_def)

lemma search_from_offline: "search_from k ns p = Some (r, p') \<Longrightarrow> m_TimeUntilTargetOffline_us p' = m_TimeUntilTargetOffline_us p"
proof (induction ns arbitrary: p)
  case (Cons n ns)
  have "m_TimeUntilTargetOffline_us q' = m_TimeUntilTargetOffline_us q" if "aoe_search k i q = Some (e, q')" for i e q q'
    using that by (auto simp: aoe_search_def Let_def dest: next_tag_offline split: if_split_asm Option.bind_split_asm prod.splits)
  then show ?case using Cons by (auto simp: Let_def split: if_split_asm Option.bind_split_asm)
qed simp

lemma search_all_heard:
  assumes "aoe_search_all k af w = Some (r, w')" "registry_ok w"
  shows "map reached (fst w') = map reached (fst w) \<and> offline_time w' = offline_time w \<and>
    interfaces (snd w') = interfaces (snd w)"
proof -
  obtain cs p e q where w: "w = (cs, p)" and s: "search_from k [0..<length (m_aInterfaces (m_pInterfaces (m_pAoEService p)))] p = Some (e, q)"
    using assms(1) by (cases w) (auto simp: aoe_search_all_def split: Option.bind_split_asm)
  have q: "removed_targets q = []" "m_TimeUntilTargetOffline_us q = m_TimeUntilTargetOffline_us p" "interfaces q = interfaces p"
    using assms(2) search_from_removed [OF s] search_from_offline [OF s] search_from_interfaces [OF s] by (simp_all add: w registry_ok_def)
  have "map reached (fst v) = map reached cs \<and> offline_time v = m_TimeUntilTargetOffline_us q \<and> interfaces (snd v) = interfaces q"
    if "identify_all_targets k af (cs, q) = Some v" for v
    using that q(1) unfolding identify_all_targets_def
    by (rule each_stays [rotated]) (auto dest: send_identify_keeps send_identify_stays)
  then show ?thesis
    using assms(1) s q by (auto simp: aoe_search_all_def w offline_time_def split: if_split_asm Option.bind_split_asm)
qed

section \<open>One run of the timer\<close>

fun drop_first :: "('a \<Rightarrow> bool) \<Rightarrow> 'a list \<Rightarrow> 'a list" where
  "drop_first P [] = []"
| "drop_first P (x # xs) = (if P x then xs else x # drop_first P xs)"

lemma drop_first_index:
  "drop_first P xs = (case first_index P xs of None \<Rightarrow> xs | Some i \<Rightarrow> take i xs @ drop (Suc i) xs)"
  by (induction xs) (auto split: option.split)

lemma drop_first_map: "drop_first P (map f xs) = map f (drop_first (P \<circ> f) xs)"
  by (induction xs) auto

lemma drop_first_filter:
  "filter (\<lambda>x. \<not> P x) (drop_first P xs) = filter (\<lambda>x. \<not> P x) xs"
  "length (filter P (drop_first P xs)) = length (filter P xs) - 1"
  by (induction xs) (auto simp: Suc_pred filter_empty_conv length_greater_0_conv)

lemma drop_first_subset: "set (drop_first P xs) \<subseteq> set xs"
  by (induction xs) auto

lemma drop_first_all: "\<forall>x \<in> set xs. R x \<Longrightarrow> \<forall>x \<in> set (drop_first P xs). R x"
  by (induction xs) auto

definition silent :: "kernel \<Rightarrow> u64 \<Rightarrow> int \<times> u64 \<Rightarrow> bool" where
  "silent k T h \<longleftrightarrow> T \<le> time_since_now_us k (snd h)"

lemma cancel_command_offline:
  "family_quiet af \<Longrightarrow> m_TimeUntilTargetOffline_us (snd (cancel_command af f (c, p))) = m_TimeUntilTargetOffline_us p"
  by (simp add: cancel_command_def family_quiet_def Let_def split: prod.split) (metis snd_conv)

lemma controller_uninit_offline:
  "family_quiet af \<Longrightarrow> m_TimeUntilTargetOffline_us (snd (controller_uninit af (c, p))) = m_TimeUntilTargetOffline_us p"
  using cancel_command_offline [of af True c p] by (cases "cancel_command af True (c, p)") (simp add: controller_uninit_def Let_def)

lemma find_target_distinct:
  assumes "distinct (map target_number cs)" "i < length cs"
  shows "find_target (target_number (cs ! i)) cs = Some i"
proof -
  have "target_number (cs ! i) \<noteq> target_number (cs ! j)" if "j < i" for j
    using assms that by (auto simp: distinct_conv_nth)
  then show ?thesis using assms(2) by (auto simp: find_target_def first_index_iff)
qed

lemma cancel_command_ports:
  "family_ports af \<Longrightarrow> interfaces (snd (cancel_command af f (c, p))) = interfaces p"
  by (simp add: cancel_command_def family_ports_def Let_def split: prod.split) (metis snd_conv)

lemma controller_uninit_ports:
  "family_ports af \<Longrightarrow> interfaces (snd (controller_uninit af (c, p))) = interfaces p"
  using cancel_command_ports [of af True c p] by (cases "cancel_command af True (c, p)") (simp add: controller_uninit_def Let_def)

abbreviation quiet_family :: "ata_family \<Rightarrow> bool" where
  "quiet_family af \<equiv> family_keeps af \<and> family_quiet af \<and> family_ports af"

lemma check_down_heard:
  assumes "check_down_targets k af w = Some w'" "quiet_family af" "distinct (map target_number (fst w))"
  shows "map reached (fst w') = drop_first (silent k (offline_time w) \<circ> fst) (map reached (fst w)) \<and>
    offline_time w' = offline_time w \<and> interfaces (snd w') = interfaces (snd w)"
proof -
  obtain cs p where w: "w = (cs, p)" by (cases w)
  let ?P = "silent k (m_TimeUntilTargetOffline_us p) \<circ> fst \<circ> reached"
  have P: "?P = (\<lambda>c. time_since_now_us k (m_time_since_last_comm c) \<ge> m_TimeUntilTargetOffline_us p)"
    by (auto simp: silent_def last_heard_def reached_def)
  have drop: "drop_first (silent k (offline_time w) \<circ> fst) (map reached (fst w)) =
      map reached (case first_index ?P cs of None \<Rightarrow> cs | Some i \<Rightarrow> take i cs @ drop (Suc i) cs)"
    unfolding w fst_conv drop_first_map drop_first_index [of "silent k (offline_time (cs, p)) \<circ> fst \<circ> reached"] by (simp add: offline_time_def)
  show ?thesis
  proof (cases "first_index ?P cs")
    case None
    then have "w' = w" using assms(1) unfolding P by (simp add: check_down_targets_def w)
    then show ?thesis unfolding drop using None by (simp add: w)
  next
    case (Some i)
    then have i: "i < length cs" by (rule first_index_less)
    obtain c1 p1 where a: "cancel_command af False (cs ! i, p) = (c1, p1)" by (cases "cancel_command af False (cs ! i, p)")
    obtain c2 where b: "remove_all_interfaces k c1 = Some c2"
      using assms(1,3) Some i a unfolding P
      by (auto simp: check_down_targets_def remove_target_def w find_target_distinct split: Option.bind_split_asm)
    obtain c3 p3 where u: "controller_uninit af (c2, p1) = (c3, p3)" by (cases "controller_uninit af (c2, p1)")
    have w': "w' = (take i cs @ drop (Suc i) cs, p3)"
      using assms(1,3) Some i a b u unfolding P
      by (simp add: check_down_targets_def remove_target_def w find_target_distinct)
    have "m_TimeUntilTargetOffline_us p3 = m_TimeUntilTargetOffline_us p" "interfaces p3 = interfaces p"
      using cancel_command_offline [of af False "cs ! i" p] controller_uninit_offline [of af c2 p1]
        cancel_command_ports [of af False "cs ! i" p] controller_uninit_ports [of af c2 p1] a u assms(2) by simp_all
    then show ?thesis unfolding drop using Some by (simp add: w w' offline_time_def)
  qed
qed

lemma check_down_ok:
  assumes "quiet_family af" "registry_ok w"
  shows "\<exists>v. check_down_targets k af w = Some v \<and> registry_ok v"
proof -
  obtain cs p where w: "w = (cs, p)" by (cases w)
  have "\<exists>r v. remove_target k af (target_number (cs ! i)) w = Some (r, v)" if "i < length cs" for i
  proof -
    have cs: "take i cs @ cs ! i # drop (Suc i) cs = cs" using that by (simp add: id_take_nth_drop [symmetric])
    have "ids_ok (take i cs @ cs ! i # drop (Suc i) cs)" using assms(2) unfolding cs by (simp add: w registry_ok_def)
    from remove_target_at [OF _ this, of af k p] assms(1) show ?thesis unfolding cs w by blast
  qed
  then obtain v where v: "check_down_targets k af w = Some v"
    by (cases "first_index (\<lambda>c. time_since_now_us k (m_time_since_last_comm c) \<ge> m_TimeUntilTargetOffline_us p) cs")
      (fastforce simp: check_down_targets_def w dest: first_index_less)+
  have "registry_ok v"
    using v assms remove_target_ok [of af] by (auto simp: check_down_targets_def split: prod.splits option.splits)
  with v show ?thesis by blast
qed

lemma timer_heard:
  assumes fam: "quiet_family af" and ok: "registry_ok w" "kernel_ok k" "ports_ok (interfaces (snd w))"
    and reach: "\<forall>x \<in> set (map reached (fst w)). \<not> unreachable (interfaces (snd w)) x"
  shows "\<exists>w'. StateUpdateTimer k af w = Some w' \<and>
    map reached (fst w') = drop_first (silent k (offline_time w) \<circ> fst) (map reached (fst w)) \<and>
    offline_time w' = offline_time w \<and> interfaces (snd w') = interfaces (snd w) \<and> registry_ok w'"
proof -
  have "distinct (map target_number (fst w))" using registry_ok_distinct [of "fst w" "snd w"] ok(1) by simp
  moreover obtain v where v: "check_down_targets k af w = Some v" "registry_ok v" using check_down_ok [OF fam ok(1)] by blast
  ultimately have down: "map reached (fst v) = drop_first (silent k (offline_time w) \<circ> fst) (map reached (fst w))"
      "offline_time v = offline_time w" "interfaces (snd v) = interfaces (snd w)"
    using check_down_heard [OF v(1) fam] by simp_all
  have "\<forall>x \<in> set (map reached (fst v)). \<not> unreachable (interfaces (snd v)) x"
    unfolding down using reach by (rule drop_first_all)
  then have "\<not> (\<exists>c \<in> set (fst v). cut_off (interfaces (snd v)) c)" by (auto simp: unreachable_cut_off)
  then have "aoe_search_all k af v \<noteq> None"
    using search_returns_iff [OF ok(2), of "fst v" "snd v" af] v(2) ok(3) down(3) by simp
  then obtain r u where u: "aoe_search_all k af v = Some (r, u)" by auto
  obtain cs p where cp: "u = (cs, p)" by (cases u)
  have run: "StateUpdateTimer k af w = Some (cs, p\<lparr>m_pStateUpdateTimer := Armed (60 * 1000)\<rparr>)"
    using v(1) u by (simp add: StateUpdateTimer_def cp)
  from search_all_heard [OF u v(2)] registry_step_ok [OF conjunct1 [OF fam] rs_timer [OF run] ok(1)] run down show ?thesis
    by (simp add: cp offline_time_def)
qed

section \<open>Silent targets go away\<close>

fun state_timers :: "kernel list \<Rightarrow> ata_family \<Rightarrow> world \<Rightarrow> world option" where
  "state_timers [] af w = Some w"
| "state_timers (k # ks) af w = do { w \<leftarrow> StateUpdateTimer k af w; state_timers ks af w }"

lemma state_timers_heard:
  assumes "quiet_family af"
  shows "registry_ok w \<Longrightarrow> \<forall>k \<in> set ks. kernel_ok k \<Longrightarrow> ports_ok (interfaces (snd w)) \<Longrightarrow>
    \<forall>x \<in> set (map reached (fst w)). \<not> unreachable (interfaces (snd w)) x \<Longrightarrow>
    \<exists>w'. state_timers ks af w = Some w' \<and>
      map last_heard (fst w') = fold (\<lambda>k. drop_first (silent k (offline_time w))) ks (map last_heard (fst w))"
proof (induction ks arbitrary: w)
  case (Cons k ks)
  obtain v where v: "StateUpdateTimer k af w = Some v" "registry_ok v" "offline_time v = offline_time w"
    "interfaces (snd v) = interfaces (snd w)"
    "map reached (fst v) = drop_first (silent k (offline_time w) \<circ> fst) (map reached (fst w))"
    using timer_heard [OF assms Cons.prems(1) _ Cons.prems(3,4), of k] Cons.prems(2) by auto
  have "\<forall>x \<in> set (map reached (fst v)). \<not> unreachable (interfaces (snd v)) x"
    unfolding v(4,5) using Cons.prems(4) by (rule drop_first_all)
  then obtain w' where "state_timers ks af v = Some w'"
      "map last_heard (fst w') = fold (\<lambda>k. drop_first (silent k (offline_time v))) ks (map last_heard (fst v))"
    using Cons.IH [of v] Cons.prems(2,3) v(2,4) by auto
  moreover have "map last_heard (fst v) = drop_first (silent k (offline_time w)) (map last_heard (fst w))"
    unfolding map_reached v(5) drop_first_map ..
  ultimately show ?case using v(1,3) by (intro exI [of _ w']) simp
qed simp

text \<open>After as many runs as there are targets silent at some of them, every target left was heard of at one of them.\<close>

lemma drop_first_shorter: "x \<in> set xs \<Longrightarrow> P x \<Longrightarrow> (\<And>y. P y \<Longrightarrow> Q y) \<Longrightarrow>
    length (filter Q xs) = Suc (length (filter Q (drop_first P xs)))"
  by (induction xs) auto

lemma drop_runs_subset: "set (fold (\<lambda>k. drop_first (S k)) ks ys) \<subseteq> set ys"
proof (induction ks arbitrary: ys)
  case (Cons k ks)
  from this [of "drop_first (S k) ys"] drop_first_subset [of "S k" ys] show ?case by simp
qed simp

lemma drop_runs_bound:
  "length (filter Q xs) \<le> length ks \<Longrightarrow> (\<And>k y. k \<in> set ks \<Longrightarrow> S k y \<Longrightarrow> Q y) \<Longrightarrow> x \<in> set (fold (\<lambda>k. drop_first (S k)) ks xs) \<Longrightarrow>
   (\<forall>k \<in> set ks. S k x) \<Longrightarrow> Q x \<Longrightarrow> False"
proof (induction ks arbitrary: xs)
  case Nil
  then show ?case by (auto simp: filter_empty_conv)
next
  case (Cons k ks)
  note sub = drop_runs_subset [of S ks]
  have "x \<in> set (drop_first (S k) xs)" using Cons.prems(3) sub by (simp only: fold_simps) (rule subsetD)
  then have "x \<in> set xs" using drop_first_subset by (rule subsetD [rotated])
  then have "length (filter Q xs) = Suc (length (filter Q (drop_first (S k) xs)))"
    using Cons.prems(2) [of k] Cons.prems(4) by (intro drop_first_shorter [of x]) simp_all
  then have "length (filter Q (drop_first (S k) xs)) \<le> length ks" using Cons.prems(1) by simp
  moreover have "x \<in> set (fold (\<lambda>k. drop_first (S k)) ks (drop_first (S k) xs))" "\<forall>k \<in> set ks. S k x"
    using Cons.prems(3,4) by simp_all
  moreover have "Q y" if "j \<in> set ks" "S j y" for j y using that Cons.prems(2) [of j y] by simp
  ultimately show ?case using Cons.prems(5) by (intro Cons.IH [of "drop_first (S k) xs"])
qed

lemma drop_runs_keep: "x \<in> set xs \<Longrightarrow> \<forall>k \<in> set ks. \<not> S k x \<Longrightarrow> x \<in> set (fold (\<lambda>k. drop_first (S k)) ks xs)"
proof (induction ks arbitrary: xs)
  case (Cons k ks)
  have "x \<in> set (drop_first (S k) ys)" if "x \<in> set ys" for ys using that Cons.prems(2) by (induction ys) auto
  then show ?case using Cons by simp
qed simp

text \<open>C18: a target that stays silent goes away, and only silent ones do: when every target has an enabled interface, every
  run of the timer returns and removes one target, the first of the list that has not been heard of for
  the time limit at that moment, and leaves all others with their numbers and in their order. So a target that is
  at no run silent stays, and after as many runs as there are targets that are silent at some of them, no
  target is left that was silent at all of them.\<close>

theorem silent_targets_removed:
  assumes "family_keeps af" "family_quiet af" "family_ports af" "registry_ok w" "ports_ok (interfaces (snd w))"
    "\<forall>k \<in> set ks. kernel_ok k" "\<forall>c \<in> set (fst w). \<not> cut_off (interfaces (snd w)) c"
  shows "\<exists>w'. state_timers ks af w = Some w' \<and>
    map last_heard (fst w') =
      fold (\<lambda>k. drop_first (\<lambda>(n, t). offline_time w \<le> time_since_now_us k t)) ks (map last_heard (fst w)) \<and>
    (\<forall>(n, t) \<in> set (map last_heard (fst w)). (\<forall>k \<in> set ks. time_since_now_us k t < offline_time w) \<longrightarrow>
      (n, t) \<in> set (map last_heard (fst w'))) \<and>
    (length (filter (\<lambda>(n, t). \<exists>k \<in> set ks. offline_time w \<le> time_since_now_us k t) (map last_heard (fst w))) \<le> length ks \<longrightarrow>
      (\<forall>(n, t) \<in> set (map last_heard (fst w')). ks = [] \<or> (\<exists>k \<in> set ks. time_since_now_us k t < offline_time w)))"
proof -
  define S where "S = (\<lambda>k. silent k (offline_time w))"
  have S: "(\<lambda>(n, t). offline_time w \<le> time_since_now_us k t) = S k" for k by (auto simp: S_def silent_def)
  have "\<forall>x \<in> set (map reached (fst w)). \<not> unreachable (interfaces (snd w)) x"
    using assms(7) by (auto simp: unreachable_cut_off)
  with state_timers_heard [of af w ks] assms(1-6) obtain w' where
    w': "state_timers ks af w = Some w'" "map last_heard (fst w') = fold (\<lambda>k. drop_first (S k)) ks (map last_heard (fst w))"
    unfolding S_def by blast
  let ?Q = "\<lambda>(n, t). \<exists>k \<in> set ks. offline_time w \<le> time_since_now_us k t"
  have "ks = [] \<or> (\<exists>k \<in> set ks. time_since_now_us k t < offline_time w)"
    if "length (filter ?Q (map last_heard (fst w))) \<le> length ks" "(n, t) \<in> set (map last_heard (fst w'))" for n t
    using drop_runs_bound [OF that(1), of S "(n, t)"] that(2) w'(2)
    by (cases ks) (fastforce simp: S_def silent_def not_less)+
  moreover have "(n, t) \<in> set (map last_heard (fst w'))"
    if "(n, t) \<in> set (map last_heard (fst w))" "\<forall>k \<in> set ks. time_since_now_us k t < offline_time w" for n t
    unfolding w'(2) using that by (intro drop_runs_keep) (auto simp: S_def silent_def)
  ultimately show ?thesis unfolding S using w' by blast
qed

text \<open>A target found at the start and another one two minutes later; then the timer runs twice.\<close>

definition late_kernel :: kernel where
  "late_kernel = example_kernel\<lparr>uptime := 120 * 1000000000\<rparr>"

definition two_found :: "world option" where
  "two_found = do {
     (_, w) \<leftarrow> aoe_config_receive example_kernel example_family (Some 1) 2 17 (example_from 1 0) example_cfg []
                 (snd (interface_init example_setup example_service));
     (_, w) \<leftarrow> aoe_config_receive late_kernel example_family (Some 2) 2 18 (example_from 2 0) example_cfg [] w;
     Some w }"

lemma two_found_run:
  "case two_found of Some w \<Rightarrow> map target_number (fst w) = [1, 2] \<and>
     list_all (\<lambda>c. (offline_time w \<le> time_since_now_us late_kernel (m_time_since_last_comm c)) = (target_number c = 1)) (fst w) \<and>
     list_all (\<lambda>c. \<not> cut_off (interfaces (snd w)) c) (fst w) \<and> length (m_aInterfaces (interfaces (snd w))) = 6 \<and>
     table_ok (interfaces (snd w)) \<and> list_all (\<lambda>e. m_fEnabled e \<longrightarrow> m_ifnet e \<noteq> 0) (m_aInterfaces (interfaces (snd w)))
   | None \<Rightarrow> False"
  by code_simp

theorem silent_targets_removed_witness:
  "\<exists>w w'. registry_ok w \<and> map target_number (fst w) = [1, 2] \<and>
     state_timers [late_kernel, late_kernel] example_family w = Some w' \<and> map target_number (fst w') = [2]"
proof -
  obtain w where w: "two_found = Some w" using two_found_run by (cases two_found) auto
  note state = two_found_run [unfolded w option.case]
  obtain r1 w1 r2 where steps: "aoe_config_receive example_kernel example_family (Some 1) 2 17 (example_from 1 0) example_cfg []
        (snd (interface_init example_setup example_service)) = Some (r1, w1)"
      "aoe_config_receive late_kernel example_family (Some 2) 2 18 (example_from 2 0) example_cfg [] w1 = Some (r2, w)"
    using w by (auto simp: two_found_def split: Option.bind_split_asm)
  have "registry_ok (snd (interface_init example_setup example_service))"
    by (simp add: registry_ok_def ids_ok_def interface_init_def Let_def)
  then have ok: "registry_ok w"
    using registry_step_ok [OF example_family_keeps] rs_config [OF steps(1)] rs_config [OF steps(2)] by blast
  have quiet: "family_quiet example_family" "family_ports example_family"
    by (auto simp: family_quiet_def family_ports_def example_family_def)
  have ports: "ports_ok (interfaces (snd w))" using state by (simp add: ports_ok_def list_all_iff)
  have kernels: "\<forall>k \<in> set [late_kernel, late_kernel]. kernel_ok k" using kernel_ok_example by (simp add: late_kernel_def kernel_ok_def)
  have reach: "\<forall>c \<in> set (fst w). \<not> cut_off (interfaces (snd w)) c" using state by (simp add: list_all_iff)
  obtain w' where w': "state_timers [late_kernel, late_kernel] example_family w = Some w'"
      "map last_heard (fst w') = fold (\<lambda>k. drop_first (\<lambda>(n, t). offline_time w \<le> time_since_now_us k t)) [late_kernel, late_kernel]
         (map last_heard (fst w))"
    using silent_targets_removed [OF example_family_keeps quiet ok ports kernels reach] by blast
  have two: "map (fst \<circ> last_heard) (fst w) = [1, 2]" using state by (simp add: last_heard_def comp_def)
  then obtain a b where ab: "map last_heard (fst w) = [(1, a), (2, b)]"
    by (cases "fst w" rule: list.exhaust) (auto simp: map_eq_Cons_conv last_heard_def)
  have silence: "(offline_time w \<le> time_since_now_us late_kernel t) = (n = 1)" if "(n, t) \<in> set (map last_heard (fst w))" for n t
    using state that by (auto simp: list_all_iff last_heard_def)
  have "offline_time w \<le> time_since_now_us late_kernel a" "\<not> offline_time w \<le> time_since_now_us late_kernel b"
    using silence [of 1 a] silence [of 2 b] unfolding ab by simp_all
  then have "map last_heard (fst w') = [(2, b)]" using w'(2) unfolding ab by simp
  then have "map fst (map last_heard (fst w')) = [2]" by simp
  then have "map target_number (fst w') = [2]" by (simp add: last_heard_def comp_def)
  with ok state w'(1) show ?thesis by (intro exI [of _ w] exI [of _ w'] conjI) simp_all
qed

end
