(* ===== verification/Settings.thy ===== *)
theory Settings
  imports UserInterface
begin

unbundle bit_operations_syntax

text \<open>
  User space: the file of settings (\<open>Shared/PreferenceLoadSave.cpp\<close>, \<open>Shared/EthernetDetect.cpp\<close>), the
  configuration string of this computer (\<open>Shared/ConfigString.c\<close>), the client side of the control
  socket (\<open>Shared/AoEDriverInterface.cpp\<close>) and the preferences (\<open>Shared/Preferences.cpp\<close>).

  Core Foundation is given as a record of what the code relies on. \<open>None\<close> is an access outside of an
  array, the use of an object of the wrong type or of an uninitialised pointer.
\<close>

section \<open>Core Foundation\<close>

datatype cf = CFNumber int | CFArray "cf list" | CFDictionary "(string \<times> cf) list" | CFOther

text \<open>
  \<open>cf_url\<close>: the URL of the file can be made. \<open>cf_xml\<close>, \<open>cf_plist\<close>: a property list to and from the contents of a file.
  \<open>cf_released\<close>: the numbers that an array which retains nothing was given and that have been released, and the place in the
  array: what is found there when the array is written.
  \<open>cf_approx\<close>: what is read from a number that does not fit an \<open>int\<close>. \<open>cf_write\<close>, \<open>cf_remove\<close>: the file after
  an attempt to write and to remove it. \<open>cf_cut\<close>: a buffer after a string that does not fit it.
\<close>

record 'b core_foundation =
  cf_url :: bool
  cf_xml :: "cf \<Rightarrow> 'b option"
  cf_plist :: "'b \<Rightarrow> cf option"
  cf_released :: "int list \<Rightarrow> nat \<Rightarrow> cf"
  cf_approx :: "int \<Rightarrow> u32"
  cf_write :: "'b \<Rightarrow> 'b option \<Rightarrow> 'b option"
  cf_remove :: "'b option \<Rightarrow> 'b option"
  cf_cut :: "u8 list \<Rightarrow> u8 list \<Rightarrow> u8 list"

definition number_value :: "'b core_foundation \<Rightarrow> int \<Rightarrow> u32" where
  "number_value F n = (if - (2 ^ 31) \<le> n \<and> n < 2 ^ 31 then word_of_int n else cf_approx F n)"

section \<open>Ethernet interfaces of the computer\<close>

text \<open>\<open>services\<close>: the names of the interfaces, \<open>None\<close> without an iterator; then a variable that was never set is returned.\<close>

definition GetNumberOfInterfaces :: "int \<Rightarrow> string option list option \<Rightarrow> int" where
  "GetNumberOfInterfaces uninit services = (case services of None \<Rightarrow> uninit | Some l \<Rightarrow> int (length l))"

definition GetInterfaceName :: "int \<Rightarrow> string option list \<Rightarrow> string \<Rightarrow> string" where
  "GetInterfaceName nNumber services pszBSDName =
     (if 0 \<le> nNumber \<and> nNumber < int (length services)
      then (case services ! nat nNumber of Some s \<Rightarrow> s | None \<Rightarrow> pszBSDName) else pszBSDName)"

section \<open>The file of settings\<close>

abbreviation (input) DEFAULT_MAX_TRANSFER_SIZE :: u32 where "DEFAULT_MAX_TRANSFER_SIZE \<equiv> 262144"
abbreviation (input) DEFAULT_CONGESTION_WINDOW :: u32 where "DEFAULT_CONGESTION_WINDOW \<equiv> 128"

definition settings_dictionary :: "'b core_foundation \<Rightarrow> preferences \<Rightarrow> cf option" where
  "settings_dictionary F p =
     (if length (anEnabledPorts p) < unat (nNumberOfPorts p) then None
      else Some (CFDictionary
        [(''Version'', CFNumber 1),
         (''NumberOfPorts'', CFNumber (sint (nNumberOfPorts p))),
         (''AvailablePorts'', CFArray (map (cf_released F (map sint (ports p))) [0..<length (ports p)])),
         (''TransferSize'', CFNumber (sint (pf_nMaxTransferSize p))),
         (''MaxUserBlockCount'', CFNumber (sint (nUserBlockCountWindow p)))]))"

text \<open>The result and the file. An error of the write is printed only.\<close>

definition store_settings :: "'b core_foundation \<Rightarrow> preferences \<Rightarrow> 'b option \<Rightarrow> (int \<times> 'b option) option" where
  "store_settings F p file = do {
     dict \<leftarrow> settings_dictionary F p;
     Some (if \<not> cf_url F then (- 1, file)
           else (case cf_xml F dict of None \<Rightarrow> (- 1, file) | Some xml \<Rightarrow> (0, cf_write F xml file))) }"

definition default_settings :: "int \<Rightarrow> preferences \<Rightarrow> preferences option" where
  "default_settings nInterfaces p =
     (let n = word_of_int nInterfaces;
          p = p\<lparr>pf_nMaxTransferSize := DEFAULT_MAX_TRANSFER_SIZE,
                nUserBlockCountWindow := DEFAULT_CONGESTION_WINDOW, nNumberOfPorts := n\<rparr>
      in if length (anEnabledPorts p) < unat n then None
         else Some (p\<lparr>anEnabledPorts := map of_nat [0..<unat n] @ drop (unat n) (anEnabledPorts p)\<rparr>))"

text \<open>A number of the dictionary, with what stands for it when it is absent.\<close>

definition read_number_or :: "'b core_foundation \<Rightarrow> string \<Rightarrow> u32 \<Rightarrow> (string \<times> cf) list \<Rightarrow> u32 option" where
  "read_number_or F key absent dict =
     (case map_of dict key of None \<Rightarrow> Some absent | Some (CFNumber n) \<Rightarrow> Some (number_value F n) | _ \<Rightarrow> None)"

text \<open>The loop over the ports, from number \<open>n\<close> on, \<open>count\<close> of them.\<close>

fun read_ports :: "'b core_foundation \<Rightarrow> cf list \<Rightarrow> nat \<Rightarrow> nat \<Rightarrow> u32 list \<Rightarrow> u32 list option" where
  "read_ports F a n 0 dest = Some dest"
| "read_ports F a n (Suc count) dest =
     (if length a \<le> n \<or> length dest \<le> n then None
      else (case a ! n of CFNumber v \<Rightarrow> read_ports F a (Suc n) count (dest[n := number_value F v]) | _ \<Rightarrow> None))"

definition read_dictionary :: "'b core_foundation \<Rightarrow> (string \<times> cf) list \<Rightarrow> preferences \<Rightarrow> preferences option" where
  "read_dictionary F dict p = do {
     n \<leftarrow> read_number_or F ''NumberOfPorts'' 0 dict;
     size \<leftarrow> read_number_or F ''TransferSize'' DEFAULT_MAX_TRANSFER_SIZE dict;
     window \<leftarrow> read_number_or F ''MaxUserBlockCount'' DEFAULT_CONGESTION_WINDOW dict;
     let p = p\<lparr>nNumberOfPorts := n, pf_nMaxTransferSize := size, nUserBlockCountWindow := window\<rparr>;
     (case map_of dict ''AvailablePorts'' of
        None \<Rightarrow> Some p
      | Some (CFArray a) \<Rightarrow> map_option (\<lambda>l. p\<lparr>anEnabledPorts := l\<rparr>) (read_ports F a 0 (unat n) (anEnabledPorts p))
      | _ \<Rightarrow> None) }"

text \<open>The result, the preferences and the file: one of an older version is removed. The pointer to the version
  is not initialised, and stays so when the key is absent.\<close>

definition recall_settings :: "'b core_foundation \<Rightarrow> int \<Rightarrow> preferences \<times> 'b option
    \<Rightarrow> (int \<times> preferences \<times> 'b option) option" where
  "recall_settings F nInterfaces pf = do {
     let (p, file) = pf;
     p \<leftarrow> default_settings nInterfaces p;
     (if \<not> cf_url F then Some (- 1, p, file)
      else (case Option.bind file (cf_plist F) of
          None \<Rightarrow> Some (- 1, p, file)
        | Some (CFDictionary dict) \<Rightarrow> (case map_of dict ''Version'' of
              Some (CFNumber v) \<Rightarrow>
                if sint (number_value F v) < 1 then Some (- 1, p, cf_remove F file)
                else if sint (number_value F v) > 1 then Some (- 1, p, file)
                else map_option (\<lambda>p. (0, p, file)) (read_dictionary F dict p)
            | _ \<Rightarrow> None)
        | Some _ \<Rightarrow> Some (0, p, file))) }"

section \<open>The configuration string\<close>

text \<open>Strings are their bytes without the final zero.\<close>

definition APPLE_DRIVER_PREFIX :: "u8 list" where
  "APPLE_DRIVER_PREFIX = map of_char ''net.corvus.apple''"

text \<open>The loop that skips one phrase; at the end of the string it would go on behind it.\<close>

fun skip_phrase :: "u8 list \<Rightarrow> u8 list option" where
  "skip_phrase [] = None"
| "skip_phrase (x # xs) = (if x = 32 then Some xs else if xs = [] then Some [] else skip_phrase xs)"

definition prefixed :: "u8 list \<Rightarrow> bool" where
  "prefixed s \<longleftrightarrow> strncmp_eq (length APPLE_DRIVER_PREFIX) (s @ [0]) (APPLE_DRIVER_PREFIX @ [0])"

definition get_owner_from_cstr :: "u8 list \<Rightarrow> u8 list option" where
  "get_owner_from_cstr s =
     (if \<not> prefixed s then Some (map of_char ''Unknown'') else Option.bind (skip_phrase s) skip_phrase)"

text \<open>\<open>serial\<close>: the serial number of the computer, when it has one. The search is limited to its length, from
  the character after the prefix on.\<close>

text \<open>
  The search for the serial number in a range of its own length at the start of the rest of the string. A search for an
  empty string finds nothing. The range counts characters, which are bytes here: the strings are ASCII.
\<close>

definition cstr_ours :: "u8 list option \<Rightarrow> u8 list option \<Rightarrow> int option" where
  "cstr_ours serial pszCString = (case pszCString of None \<Rightarrow> Some (- 1)
   | Some s \<Rightarrow>
       if \<not> prefixed s then Some (- 1)
       else do {
         number \<leftarrow> serial;
         let from = length APPLE_DRIVER_PREFIX + 1;
         (if length s < from \<or> length (drop from s) < length number then None
          else Some (if number \<noteq> [] \<and> take (length number) (drop from s) = number then 0 else - 1)) })"

definition unique_string :: "u8 list \<Rightarrow> u8 list \<Rightarrow> u8 list" where
  "unique_string serial name = APPLE_DRIVER_PREFIX @ 32 # serial @ 32 # name"

definition get_unique_config_string :: "'b core_foundation \<Rightarrow> u8 list option \<Rightarrow> u8 list option \<Rightarrow> u8 list
    \<Rightarrow> u8 list option" where
  "get_unique_config_string F serial name buf = do {
     serial \<leftarrow> serial;
     name \<leftarrow> name;
     let s = unique_string serial name;
     Some (if length s < length buf then s @ 0 # drop (length s + 1) buf else cf_cut F s buf) }"

section \<open>The client of the control socket\<close>

text \<open>\<open>m_Socket\<close> and whether it is connected to the kernel extension.\<close>

record client =
  m_Socket :: int
  cl_connected :: bool

text \<open>What a connection depends on: root, the socket, the control of the extension, the connection.\<close>

record connect_setup =
  co_root :: bool
  co_socket :: int
  co_ioctl :: bool
  co_connect :: int

definition new_client :: client where
  "new_client = \<lparr>m_Socket = - 1, cl_connected = False\<rparr>"

text \<open>Every failure but the first leaves a descriptor in \<open>m_Socket\<close>, which after a failed connection is closed.\<close>

definition connect_to_driver :: "connect_setup \<Rightarrow> int \<times> client" where
  "connect_to_driver u =
     (if \<not> co_root u then (- 1, new_client)
      else let cl = \<lparr>m_Socket = co_socket u, cl_connected = False\<rparr> in
        if \<not> co_ioctl u then (- 1, cl)
        else if co_connect u \<noteq> 0 then (co_connect u, cl)
        else (0, cl\<lparr>cl_connected := True\<rparr>))"

definition disconnect :: "client \<Rightarrow> int \<times> client" where
  "disconnect cl = (0, new_client)"

type_synonym kext = "preferences \<times> driver"

text \<open>\<open>setsockopt\<close> and \<open>getsockopt\<close> reach the handlers of the extension through a connected socket.\<close>

definition set_command :: "kernel \<Rightarrow> ata_family \<Rightarrow> bool \<Rightarrow> client \<Rightarrow> set_option \<times> nat \<Rightarrow> kext \<Rightarrow> (int \<times> kext) option" where
  "set_command k af fString cl cmd x =
     (if m_Socket cl = - 1 \<or> \<not> cl_connected cl then Some (- 1, x)
      else map_option (\<lambda>(err, x). (if err = 0 then 0 else - 1, x)) (aoeinterface_set k af fString (Some cmd) x))"

text \<open>The result with the value that was copied to the caller.\<close>

definition get_command :: "kernel \<Rightarrow> ata_family \<Rightarrow> client \<Rightarrow> get_option \<Rightarrow> u32 option \<Rightarrow> nat \<Rightarrow> kext
    \<Rightarrow> (int \<times> ui_value option \<times> kext) option" where
  "get_command k af cl opt data size_n x =
     (if m_Socket cl = - 1 \<or> \<not> cl_connected cl then Some (- 1, None, x)
      else do {
        (err, v, d) \<leftarrow> aoeinterface_get k af opt data size_n x;
        Some (case v of
            Some (n, v) \<Rightarrow> (if err = 0 \<and> n = size_n then 0 else - 1, if err = 0 then Some v else None, fst x, d)
          | None \<Rightarrow> (- 1, None, fst x, d)) })"

definition set_preference_settings :: "kernel \<Rightarrow> ata_family \<Rightarrow> bool \<Rightarrow> client \<Rightarrow> preferences \<Rightarrow> kext \<Rightarrow> (int \<times> kext) option" where
  "set_preference_settings k af fString cl p = set_command k af fString cl (SET_PREFERENCES p, size_preferences)"

definition enable_logging :: "kernel \<Rightarrow> ata_family \<Rightarrow> client \<Rightarrow> int \<Rightarrow> kext \<Rightarrow> (int \<times> kext) option" where
  "enable_logging k af cl n = set_command k af True cl (SET_VERBOSE_LOGGING n, 4)"

definition force_packet_send :: "kernel \<Rightarrow> ata_family \<Rightarrow> client \<Rightarrow> ForcePacketInfo \<Rightarrow> kext \<Rightarrow> (int \<times> kext) option" where
  "force_packet_send k af cl f = set_command k af True cl (SET_FORCE_PACKET f, size_force_packet)"

definition client_set_config_string :: "kernel \<Rightarrow> ata_family \<Rightarrow> client \<Rightarrow> ConfigString \<Rightarrow> kext \<Rightarrow> (int \<times> kext) option" where
  "client_set_config_string k af cl s = set_command k af True cl (SET_CONFIG_STRING s, size_config_string)"

definition get_preference_settings :: "kernel \<Rightarrow> ata_family \<Rightarrow> client \<Rightarrow> kext \<Rightarrow> (int \<times> ui_value option \<times> kext) option" where
  "get_preference_settings k af cl = get_command k af cl GET_PREFERENCES None size_preferences"

definition count_targets :: "kernel \<Rightarrow> ata_family \<Rightarrow> client \<Rightarrow> kext \<Rightarrow> (int \<times> ui_value option \<times> kext) option" where
  "count_targets k af cl = get_command k af cl GET_COUNT_TARGETS None 4"

definition client_target_info :: "kernel \<Rightarrow> ata_family \<Rightarrow> client \<Rightarrow> int \<Rightarrow> kext \<Rightarrow> (int \<times> ui_value option \<times> kext) option" where
  "client_target_info k af cl nTarget = get_command k af cl GET_TARGET_INFO (Some (word_of_int nTarget)) size_target_info"

definition client_error_info :: "kernel \<Rightarrow> ata_family \<Rightarrow> client \<Rightarrow> kext \<Rightarrow> (int \<times> ui_value option \<times> kext) option" where
  "client_error_info k af cl = get_command k af cl GET_ERROR_INFO None size_error_info"

definition client_payload_size :: "kernel \<Rightarrow> ata_family \<Rightarrow> client \<Rightarrow> kext \<Rightarrow> (int \<times> ui_value option \<times> kext) option" where
  "client_payload_size k af cl = get_command k af cl GET_PAYLOAD_SIZE None 4"

section \<open>The preferences of the daemon\<close>

text \<open>A negative number of ports is not rejected. The caller's array has at least the ports asked for.\<close>

definition set_available_ports :: "int \<Rightarrow> int list \<Rightarrow> preferences \<Rightarrow> preferences option" where
  "set_available_ports n pnPorts p =
     (let n = (if n > int MAX_PORTS then int MAX_PORTS else n);
          p = p\<lparr>nNumberOfPorts := word_of_int n\<rparr>
      in if length pnPorts < nat n \<or> length (anEnabledPorts p) < nat n then None
         else Some (p\<lparr>anEnabledPorts := map word_of_int (take (nat n) pnPorts) @ drop (nat n) (anEnabledPorts p)\<rparr>))"

definition set_max_outstanding_size :: "int \<Rightarrow> preferences \<Rightarrow> preferences" where
  "set_max_outstanding_size nSize p = p\<lparr>pf_nMaxTransferSize := word_of_int nSize\<rparr>"

definition set_user_buffer_size :: "int \<Rightarrow> preferences \<Rightarrow> preferences" where
  "set_user_buffer_size nSize p = p\<lparr>nUserBlockCountWindow := word_of_int nSize\<rparr>"

text \<open>The constructor; \<open>p\<close>: what the memory held.\<close>

definition new_preferences :: "'b core_foundation \<Rightarrow> u8 list option \<Rightarrow> u8 list option \<Rightarrow> preferences \<Rightarrow> preferences option" where
  "new_preferences F serial name p =
     map_option (\<lambda>s. p\<lparr>aszComputerConfigString := s\<rparr>)
       (get_unique_config_string F serial name (aszComputerConfigString p))"

definition SetSettingsInKEXT :: "kernel \<Rightarrow> ata_family \<Rightarrow> bool \<Rightarrow> connect_setup \<Rightarrow> preferences \<Rightarrow> client \<times> kext
    \<Rightarrow> (int \<times> client \<times> kext) option" where
  "SetSettingsInKEXT k af fString u p clx =
     (let (nRet, cl) = connect_to_driver u in
      if nRet \<noteq> 0 then Some (nRet, cl, snd clx)
      else do {
        (nRet, x) \<leftarrow> set_preference_settings k af fString cl p (snd clx);
        Some (if nRet \<noteq> 0 then (nRet, cl, x) else (0, snd (disconnect cl), x)) })"

end
