(* ===== verification/Daemon.thy ===== *)
theory Daemon
  imports Settings
begin

unbundle bit_operations_syntax

text \<open>
  The program \<open>aoed\<close>, \<open>aoed/main.cpp\<close>: it recalls the settings, applies its options, saves the settings and
  sends them to the kernel extension. The command line is the list of the options that \<open>getopt\<close> returns;
  what is printed is left out. \<open>None\<close> is an access outside of an array, or waiting for ever.
\<close>

section \<open>Numbers in an argument\<close>

definition is_digit :: "char \<Rightarrow> bool" where
  "is_digit c \<longleftrightarrow> 48 \<le> (of_char c :: nat) \<and> (of_char c :: nat) \<le> 57"

definition is_space :: "char \<Rightarrow> bool" where
  "is_space c \<longleftrightarrow> (of_char c :: nat) = 32 \<or> 9 \<le> (of_char c :: nat) \<and> (of_char c :: nat) \<le> 13"

definition digits_value :: "string \<Rightarrow> int" where
  "digits_value = foldl (\<lambda>n c. 10 * n + (of_char c - 48)) 0"

text \<open>\<open>strtol\<close> in base 10: the value, kept within a \<open>long\<close>, and the error left in \<open>errno\<close> (\<open>None\<close>: unchanged).\<close>

datatype errno_value = Errno_EINVAL | Errno_other

definition strtol :: "int \<Rightarrow> string \<Rightarrow> int \<times> errno_value option" where
  "strtol long_max s =
     (let s = dropWhile is_space s;
          negative = (s \<noteq> [] \<and> hd s = CHR ''-'');
          s = (if s \<noteq> [] \<and> (hd s = CHR ''-'' \<or> hd s = CHR ''+'') then tl s else s);
          ds = takeWhile is_digit s;
          v = (if negative then - digits_value ds else digits_value ds)
      in if ds = [] then (0, Some Errno_EINVAL)
         else if v > long_max then (long_max, Some Errno_other)
         else if v < - long_max - 1 then (- long_max - 1, Some Errno_other)
         else (v, None))"

text \<open>\<open>strtok\<close> with a comma: the pieces that are not empty.\<close>

fun split_commas :: "string \<Rightarrow> string list" where
  "split_commas [] = [[]]"
| "split_commas (c # s) = (if c = CHR '','' then [] # split_commas s
     else (case split_commas s of p # ps \<Rightarrow> (c # p) # ps | [] \<Rightarrow> [[c]]))"

definition strtok_commas :: "string \<Rightarrow> string list" where
  "strtok_commas s = filter (\<lambda>p. p \<noteq> []) (split_commas s)"

section \<open>State and environment\<close>

datatype unmount_state = UnMountError | UnMountOK | UnMountIncomplete

text \<open>
  The interfaces of the computer and their names, whether they appear, the connection to the kernel extension,
  whether it appears, the serial number and name of the computer, the disk of a target and whether its
  unmount is refused (\<open>None\<close>: no answer ever comes), the contents of the stack and of a variable that
  was never set, the largest \<open>long\<close>, and whether the extension can create the string of its registry.
\<close>

record environment =
  en_services :: "string option list option"
  en_ethernet :: bool
  en_connect :: connect_setup
  en_kext :: bool
  en_serial :: "u8 list option"
  en_name :: "u8 list option"
  en_disk :: "int \<Rightarrow> bool"
  en_dissenter :: "int \<Rightarrow> bool option"
  en_stack :: "u8 list"
  en_uninit :: int
  en_long_max :: int
  en_string :: bool

record 'b daemon =
  dm_prefs :: preferences
  dm_file :: "'b option"
  dm_kext :: kext
  dm_errno :: bool             \<comment> \<open>\<open>errno\<close> is \<open>EINVAL\<close>\<close>
  fSaveOptions :: bool
  fSetOptionsInKEXT :: bool
  fWaitForKEXTToLoad :: bool

text \<open>The options as \<open>getopt\<close> returns them; \<open>Opt_missing\<close>: one whose argument is missing.\<close>

datatype opt = Opt_c string | Opt_C string | Opt_D | Opt_e string | Opt_h | Opt_i string | Opt_l string
  | Opt_p | Opt_s | Opt_u string | Opt_w | Opt_x string | Opt_missing char | Opt_unknown

definition with_argument :: "char \<Rightarrow> string \<Rightarrow> opt" where
  "with_argument c arg =
     (if arg = [] then Opt_missing c
      else if c = CHR ''c'' then Opt_c arg else if c = CHR ''C'' then Opt_C arg else if c = CHR ''e'' then Opt_e arg
      else if c = CHR ''i'' then Opt_i arg else if c = CHR ''l'' then Opt_l arg else if c = CHR ''u'' then Opt_u arg
      else Opt_x arg)"

text \<open>The options that \<open>getopt\<close> finds in the letters of the last argument of the command line.\<close>

fun getopt_letters :: "string \<Rightarrow> opt list" where
  "getopt_letters [] = []"
| "getopt_letters (c # arg) =
     (if c \<in> set ''cCeilux'' then [with_argument c arg]
      else (if c = CHR ''D'' then Opt_D else if c = CHR ''h'' then Opt_h else if c = CHR ''p'' then Opt_p
            else if c = CHR ''s'' then Opt_s else if c = CHR ''w'' then Opt_w else Opt_unknown) # getopt_letters arg)"

definition getopt_argument :: "string \<Rightarrow> opt list" where
  "getopt_argument s = (case s of
       d # c # arg \<Rightarrow> if d \<noteq> CHR ''-'' \<or> (c = CHR ''-'' \<and> arg = []) then [] else getopt_letters (c # arg)
     | _ \<Rightarrow> [])"

definition on_prefs :: "(preferences \<Rightarrow> preferences) \<Rightarrow> 'b daemon \<Rightarrow> 'b daemon" where
  "on_prefs f st = st\<lparr>dm_prefs := f (dm_prefs st)\<rparr>"

definition number_of :: "environment \<Rightarrow> string \<Rightarrow> int" where
  "number_of env s = s32 (fst (strtol (en_long_max env) s))"

section \<open>Targets\<close>

fun each_target :: "(int \<Rightarrow> kext \<Rightarrow> kext option) \<Rightarrow> int list \<Rightarrow> kext \<Rightarrow> kext option" where
  "each_target f [] x = Some x"
| "each_target f (n # ns) x = do { x \<leftarrow> f n x; each_target f ns x }"

definition claim_target :: "kernel \<Rightarrow> ata_family \<Rightarrow> 'b core_foundation \<Rightarrow> environment \<Rightarrow> client \<Rightarrow> int \<Rightarrow> kext \<Rightarrow> kext option" where
  "claim_target k af F env cl nTarget x = do {
     s \<leftarrow> get_unique_config_string F (en_serial env) (en_name env) (en_stack env);
     text \<leftarrow> cstr s;
     (_, x) \<leftarrow> client_set_config_string k af cl
        \<lparr>cs_nTargetNumber = word_of_int nTarget, cs_Length = of_nat (length text), cs_pszConfig = s\<rparr> x;
     Some x }"

definition UnmountCallback :: "bool \<Rightarrow> unmount_state" where
  "UnmountCallback dissenter = (if dissenter then UnMountError else UnMountOK)"

definition unmount_target :: "environment \<Rightarrow> int \<Rightarrow> unmount_state option" where
  "unmount_target env nTarget =
     (if en_disk env nTarget then map_option UnmountCallback (en_dissenter env nTarget) else Some UnMountIncomplete)"

text \<open>The string is whatever the stack held; its length is 0.\<close>

definition unclaim_target :: "kernel \<Rightarrow> ata_family \<Rightarrow> environment \<Rightarrow> client \<Rightarrow> int \<Rightarrow> kext \<Rightarrow> kext option" where
  "unclaim_target k af env cl nTarget x = do {
     UMState \<leftarrow> unmount_target env nTarget;
     (if UMState = UnMountError then Some x
      else do {
        (_, x) \<leftarrow> client_set_config_string k af cl
           \<lparr>cs_nTargetNumber = word_of_int nTarget, cs_Length = 0, cs_pszConfig = en_stack env\<rparr> x;
        Some x }) }"

definition print_target_info :: "kernel \<Rightarrow> ata_family \<Rightarrow> client \<Rightarrow> int \<Rightarrow> kext \<Rightarrow> kext option" where
  "print_target_info k af cl nNumber x = do { (_, _, x) \<leftarrow> client_target_info k af cl nNumber x; Some x }"

text \<open>\<open>-i\<close> without targets: all of them, the payload size and the error counts.\<close>

definition print_all_info :: "kernel \<Rightarrow> ata_family \<Rightarrow> environment \<Rightarrow> client \<Rightarrow> kext \<Rightarrow> kext option" where
  "print_all_info k af env cl x = do {
     (_, v, x) \<leftarrow> count_targets k af cl x;
     let nTargets = (case v of Some (UV_int n) \<Rightarrow> n | _ \<Rightarrow> en_uninit env);
     x \<leftarrow> each_target (print_target_info k af cl) (map (\<lambda>n. int n + 1) [0..<nat nTargets]) x;
     (_, _, x) \<leftarrow> client_payload_size k af cl x;
     (_, _, x) \<leftarrow> client_error_info k af cl x;
     Some x }"

section \<open>Options\<close>

text \<open>The ports of \<open>-e\<close>, from number \<open>n\<close> on: the array has room for six. \<open>Inl\<close>: the program is aborted; with the
  ports comes \<open>errno\<close>.\<close>

fun parse_ports :: "int \<Rightarrow> nat \<Rightarrow> string list \<Rightarrow> bool \<Rightarrow> (unit + int list \<times> bool) option" where
  "parse_ports long_max n [] errno = Some (Inr ([], errno))"
| "parse_ports long_max n (p # ps) errno =
     (if MAX_PORTS \<le> n then None
      else
        let (v, e) = strtol long_max p;
            errno = (case e of None \<Rightarrow> errno | Some e \<Rightarrow> e = Errno_EINVAL)
        in if s32 v = 0 \<and> errno then Some (Inl ())
           else map_option (map_sum id (\<lambda>(l, e). (s32 v # l, e))) (parse_ports long_max (Suc n) ps errno))"

definition ports_option :: "environment \<Rightarrow> string \<Rightarrow> 'b daemon \<Rightarrow> (bool \<times> 'b daemon) option" where
  "ports_option env arg st = do {
     r \<leftarrow> parse_ports (en_long_max env) 0 (strtok_commas arg) (dm_errno st);
     (case r of Inl _ \<Rightarrow> Some (False, st)
      | Inr (l, errno) \<Rightarrow> do {
          p \<leftarrow> set_available_ports (int (length l)) l (dm_prefs st);
          Some (True, st\<lparr>dm_prefs := p, dm_errno := errno\<rparr>) }) }"

definition on_kext :: "(kext \<Rightarrow> kext option) \<Rightarrow> 'b daemon \<Rightarrow> (bool \<times> 'b daemon) option" where
  "on_kext f st = map_option (\<lambda>x. (True, st\<lparr>dm_kext := x\<rparr>)) (f (dm_kext st))"

definition info_option :: "environment \<Rightarrow> (client \<Rightarrow> kext \<Rightarrow> kext option) \<Rightarrow> 'b daemon \<Rightarrow> (bool \<times> 'b daemon) option" where
  "info_option env f st =
     (let (ret, cl) = connect_to_driver (en_connect env); st = st\<lparr>fSetOptionsInKEXT := False\<rparr>
      in if ret = 0 then on_kext (f cl) st else Some (True, st))"

text \<open>The result is false when the program aborts. \<open>-D\<close> asks for a target on a socket that was never connected.\<close>

definition option_step :: "kernel \<Rightarrow> ata_family \<Rightarrow> 'b core_foundation \<Rightarrow> environment \<Rightarrow> opt \<Rightarrow> 'b daemon
    \<Rightarrow> (bool \<times> 'b daemon) option" where
  "option_step k af F env nOpt st =
     (let targets = (\<lambda>arg. map (number_of env) (strtok_commas arg)); cl = snd (connect_to_driver (en_connect env)) in
      case nOpt of
        Opt_c arg \<Rightarrow> on_kext (each_target (claim_target k af F env cl) (targets arg)) st
      | Opt_C arg \<Rightarrow> on_kext (each_target (unclaim_target k af env cl) (targets arg)) st
      | Opt_D \<Rightarrow> on_kext (\<lambda>x. map_option (snd \<circ> snd) (client_target_info k af new_client 1 x)) st
      | Opt_e arg \<Rightarrow> ports_option env arg st
      | Opt_h \<Rightarrow> Some (True, st\<lparr>fSetOptionsInKEXT := False\<rparr>)
      | Opt_i arg \<Rightarrow> info_option env (\<lambda>cl. each_target (print_target_info k af cl) (targets arg)) st
      | Opt_l arg \<Rightarrow>
          if fst (connect_to_driver (en_connect env)) = 0
          then on_kext (\<lambda>x. map_option snd (enable_logging k af cl (number_of env arg) x)) st else Some (True, st)
      | Opt_p \<Rightarrow> Some (True, st)
      | Opt_s \<Rightarrow> Some (True, st\<lparr>fSaveOptions := False\<rparr>)
      | Opt_u arg \<Rightarrow> Some (True, on_prefs (set_user_buffer_size (number_of env arg)) st)
      | Opt_w \<Rightarrow> Some (True, st\<lparr>fWaitForKEXTToLoad := True\<rparr>)
      | Opt_x arg \<Rightarrow> Some (True, on_prefs (set_max_outstanding_size (s32 (number_of env arg * 1024))) st)
      | Opt_missing c \<Rightarrow>
          if c = CHR ''e'' then map_option (\<lambda>p. (True, st\<lparr>dm_prefs := p\<rparr>)) (set_available_ports 0 [] (dm_prefs st))
          else if c = CHR ''i'' then info_option env (print_all_info k af env) st
          else Some (False, st)
      | Opt_unknown \<Rightarrow> Some (False, st))"

fun options_loop :: "kernel \<Rightarrow> ata_family \<Rightarrow> 'b core_foundation \<Rightarrow> environment \<Rightarrow> opt list \<Rightarrow> 'b daemon
    \<Rightarrow> (bool \<times> 'b daemon) option" where
  "options_loop k af F env [] st = Some (True, st)"
| "options_loop k af F env (nOpt # opts) st = do {
     (ok, st) \<leftarrow> option_step k af F env nOpt st;
     (if ok then options_loop k af F env opts st else Some (False, st)) }"

section \<open>The program\<close>

datatype exit_status = EXIT_SUCCESS | EXIT_FAILURE | Aborted

definition main_save :: "'b core_foundation \<Rightarrow> 'b daemon \<Rightarrow> (bool \<times> 'b daemon) option" where
  "main_save F st =
     (if fSaveOptions st
      then map_option (\<lambda>(r, file). (r = 0, st\<lparr>dm_file := file\<rparr>)) (store_settings F (dm_prefs st) (dm_file st))
      else Some (True, st))"

definition main_set :: "kernel \<Rightarrow> ata_family \<Rightarrow> environment \<Rightarrow> 'b daemon \<Rightarrow> (bool \<times> 'b daemon) option" where
  "main_set k af env st =
     (if fSetOptionsInKEXT st
      then map_option (\<lambda>(r, _, x). (r = 0, st\<lparr>dm_kext := x\<rparr>))
             (SetSettingsInKEXT k af (en_string env) (en_connect env) (dm_prefs st) (new_client, dm_kext st))
      else Some (True, st))"

text \<open>\<open>memory\<close>: what the preferences hold before they are constructed.\<close>

definition daemon_main :: "kernel \<Rightarrow> ata_family \<Rightarrow> 'b core_foundation \<Rightarrow> environment \<Rightarrow> preferences \<Rightarrow> opt list
    \<Rightarrow> 'b option \<times> kext \<Rightarrow> (exit_status \<times> 'b daemon) option" where
  "daemon_main k af F env memory opts fx =
     (if \<not> en_ethernet env then None
      else do {
        p \<leftarrow> new_preferences F (en_serial env) (en_name env) memory;
        (_, p, file) \<leftarrow> recall_settings F (GetNumberOfInterfaces (en_uninit env) (en_services env)) (p, fst fx);
        (ok, st) \<leftarrow> options_loop k af F env opts \<lparr>dm_prefs = p, dm_file = file, dm_kext = snd fx, dm_errno = False,
                       fSaveOptions = True, fSetOptionsInKEXT = True, fWaitForKEXTToLoad = False\<rparr>;
        (if \<not> ok then Some (Aborted, st)
         else do {
           (saved, st) \<leftarrow> main_save F st;
           (if \<not> saved then Some (EXIT_FAILURE, st)
            else if fWaitForKEXTToLoad st \<and> \<not> en_kext env then None
            else do {
              (done, st) \<leftarrow> main_set k af env st;
              Some (if done then EXIT_SUCCESS else EXIT_FAILURE, st) }) }) })"

end
