(* ===== verification/Properties.thy ===== *)
theory Properties
  imports Settings
begin

unbundle bit_operations_syntax

text \<open>
  The view of the registry from user space, \<open>Shared/AoEProperties.cpp\<close>: the service, when it has been found, and below it
  the controllers in the order of the registry. \<open>None\<close> is the use of a null object, of one of the wrong type, or
  an access outside of an array.
\<close>

section \<open>Matching\<close>

record properties =
  m_fMatched :: bool
  m_OurObject :: "world option"

definition new_properties :: properties where
  "new_properties = \<lparr>m_fMatched = False, m_OurObject = None\<rparr>"

text \<open>\<open>found\<close>: the first object of the iterator.\<close>

definition matched_callback :: "world option \<Rightarrow> properties \<Rightarrow> properties" where
  "matched_callback found p =
     (case found of None \<Rightarrow> p | Some w \<Rightarrow> p\<lparr>m_fMatched := True, m_OurObject := Some w\<rparr>)"

text \<open>Without a master port the function returns \<open>false\<close>, which is 0 and stands for success.\<close>

definition configure_matching :: "bool \<Rightarrow> world option \<Rightarrow> properties \<Rightarrow> int \<times> properties" where
  "configure_matching master_port found p =
     (if \<not> master_port then (0, p)
      else let p = matched_callback found p in (if m_fMatched p then 0 else - 1, p))"

definition configure_complete :: "properties \<Rightarrow> int" where
  "configure_complete p = (if m_fMatched p then 0 else - 1)"

section \<open>Properties of the targets\<close>

definition prop_number_of_targets :: "properties \<Rightarrow> int" where
  "prop_number_of_targets p = (case m_OurObject p of None \<Rightarrow> 0 | Some w \<Rightarrow> int (length (fst w)))"

text \<open>The result and the property; without a service the result is 0 as well.\<close>

definition get_property :: "prop_key \<Rightarrow> int \<Rightarrow> properties \<Rightarrow> int \<times> prop_value option" where
  "get_property pkey nNumber p = (case m_OurObject p of None \<Rightarrow> (0, None)
   | Some w \<Rightarrow>
       let v = (if 0 \<le> nNumber \<and> nNumber < int (length (fst w)) then ctl_props (fst w ! nat nNumber) pkey else None)
       in (if v = None then - 1 else 0, v))"

text \<open>Numbers: \<open>uninit\<close> is the value of a variable that is not set.\<close>

definition int_property :: "'b core_foundation \<Rightarrow> int \<Rightarrow> prop_key \<Rightarrow> int \<Rightarrow> properties \<Rightarrow> int option" where
  "int_property F uninit pkey nNumber p =
     (case get_property pkey nNumber p of
        (r, v) \<Rightarrow> if r \<noteq> 0 then Some uninit
          else (case v of Some (PNumber n) \<Rightarrow> Some (sint (number_value F n)) | _ \<Rightarrow> None))"

definition get_target_number :: "'b core_foundation \<Rightarrow> int \<Rightarrow> int \<Rightarrow> properties \<Rightarrow> int option" where
  "get_target_number F uninit = int_property F uninit TARGET_PROPERTY"

definition get_shelf_number :: "'b core_foundation \<Rightarrow> int \<Rightarrow> int \<Rightarrow> properties \<Rightarrow> int option" where
  "get_shelf_number F uninit = int_property F uninit SHELF_PROPERTY"

definition get_slot_number :: "'b core_foundation \<Rightarrow> int \<Rightarrow> int \<Rightarrow> properties \<Rightarrow> int option" where
  "get_slot_number F uninit = int_property F uninit SLOT_PROPERTY"

definition get_capacity :: "u64 \<Rightarrow> int \<Rightarrow> properties \<Rightarrow> u64 option" where
  "get_capacity uninit nNumber p =
     (case get_property CAPACITY_PROPERTY nNumber p of
        (r, v) \<Rightarrow> if r \<noteq> 0 then Some uninit
          else (case v of Some (PNumber n) \<Rightarrow> Some (word_of_int n) | _ \<Rightarrow> None))"

text \<open>A string, or null.\<close>

definition get_config_string :: "int \<Rightarrow> properties \<Rightarrow> u8 list option option" where
  "get_config_string nNumber p =
     (case get_property CONFIG_STRING_PROPERTY nNumber p of
        (r, v) \<Rightarrow> if r \<noteq> 0 then Some None
          else (case v of Some (PString s) \<Rightarrow> Some (Some s) | None \<Rightarrow> Some None | _ \<Rightarrow> None))"

text \<open>The search from entry \<open>n\<close> on, \<open>count\<close> of them.\<close>

fun search_config_string :: "'b core_foundation \<Rightarrow> int \<Rightarrow> int \<Rightarrow> nat \<Rightarrow> nat \<Rightarrow> properties \<Rightarrow> u8 list option option" where
  "search_config_string F uninit Target n 0 p = Some None"
| "search_config_string F uninit Target n (Suc count) p = do {
     t \<leftarrow> get_target_number F uninit (int n) p;
     (if Target = t then get_config_string (int n) p
      else search_config_string F uninit Target (Suc n) count p) }"

definition get_targets_config_string :: "'b core_foundation \<Rightarrow> int \<Rightarrow> int \<Rightarrow> properties \<Rightarrow> u8 list option option" where
  "get_targets_config_string F uninit Target p =
     search_config_string F uninit Target 0 (nat (prop_number_of_targets p)) p"

text \<open>The count and the array of the caller. Each number is released although the array owns it.\<close>

definition get_targets_en_interfaces :: "int \<Rightarrow> int list \<Rightarrow> properties \<Rightarrow> (int \<times> int list) option" where
  "get_targets_en_interfaces nNumber dest p =
     (case get_property ATTACHED_INTERFACES_PROPERTY nNumber p of
        (r, v) \<Rightarrow> if r \<noteq> 0 then Some (0, dest)
          else (case v of
              Some (PArray l) \<Rightarrow> if length dest < length l then None
                else Some (int (length l), map sint l @ drop (length l) dest)
            | _ \<Rightarrow> None))"

text \<open>\<open>disk\<close>: the name of the disk that hangs below a controller. A controller without a number is a null object.\<close>

fun search_bsd_name :: "'b core_foundation \<Rightarrow> (controller \<Rightarrow> string option) \<Rightarrow> int \<Rightarrow> controller list \<Rightarrow> string option option" where
  "search_bsd_name F disk Target [] = Some None"
| "search_bsd_name F disk Target (c # cs) =
     (case ctl_props c TARGET_PROPERTY of
        Some (PNumber n) \<Rightarrow> if Target = sint (number_value F n) then Some (disk c)
          else search_bsd_name F disk Target cs
      | _ \<Rightarrow> None)"

definition get_targets_bsd_name :: "'b core_foundation \<Rightarrow> (controller \<Rightarrow> string option) \<Rightarrow> int \<Rightarrow> properties
    \<Rightarrow> string option option" where
  "get_targets_bsd_name F disk Target p = (case m_OurObject p of None \<Rightarrow> Some None
     | Some w \<Rightarrow> search_bsd_name F disk Target (fst w))"

text \<open>The number of the \<open>n\<close>-th enabled port, as the service publishes them.\<close>

definition get_en_interfaces :: "int \<Rightarrow> properties \<Rightarrow> (int \<times> nat option) option" where
  "get_en_interfaces nNumber p =
     (case Option.bind (m_OurObject p) (\<lambda>w. prop_enabled (m_pInterfaces (service_of w))) of
        None \<Rightarrow> Some (- 1, None)
      | Some l \<Rightarrow>
          if nNumber \<ge> int (length l) then Some (- 1, None)
          else if nNumber < 0 then None
          else Some (0, Some (l ! nat nNumber)))"

end
