(* ===== verification/Device.thy ===== *)
theory Device
  imports Commands Responses
begin

unbundle bit_operations_syntax

text \<open>
  The disk of a target, \<open>AoE/AoEDevice.cpp\<close>: its creation, the identify command it issues to the controller
  and what it publishes when the identify data has arrived.

  The base class and the memory allocator are outcomes given to the operations; \<open>None\<close> is the use of a null
  pointer or of a string without an end.
\<close>

section \<open>State\<close>

datatype dev_key = kATASocketKey | kATADevPropertyKey | kATAUnitNumberKey | IOUnit | IOLocation
  | Extended_LBA_capacity | kATAVendorPropertyKey | kATARevisionPropertyKey | kATASerialNumPropertyKey
  | Alloc_descriptor | Alloc_command

text \<open>\<open>DConst\<close>: a string constant of the ATA family, by its name.\<close>

datatype dev_value = DConst string | DString "u8 list" | DNumber int

datatype dev_type = kATADeviceType | kATAPIDeviceType | kUnknownDeviceType

record device =
  m_pIDResponseBuffer :: "u8 list option"
  dev_nShelf :: int
  dev_nSlot :: int
  dev_unitNumber :: nat
  dev_deviceType :: dev_type
  dev_props :: "dev_key \<Rightarrow> dev_value option"

abbreviation (input) kIDBufferBytes :: nat where "kIDBufferBytes \<equiv> 512"

definition dev_set :: "dev_key \<Rightarrow> dev_value \<Rightarrow> device \<Rightarrow> device" where
  "dev_set key v d = d\<lparr>dev_props := (dev_props d)(key := Some v)\<rparr>"

text \<open>
  What creation depends on: the base class, the allocation of the identify buffer of a size (\<open>None\<close>: it fails, else
  the bytes it holds), of the descriptor, of the command (the blank one) and of the completion
  information, and what the provider's \<open>executeCommand\<close> returns for a command.
\<close>

record device_setup =
  ds_super_init :: bool
  ds_buffer :: "nat \<Rightarrow> u8 list option"
  ds_descriptor :: bool
  ds_command :: "ata_command option"
  ds_completion :: bool
  ds_execute :: "ata_command \<Rightarrow> ioreturn"

section \<open>Creation and the identify command\<close>

text \<open>
  The opcode (\<open>kATAFnExecIO\<close>), the timeout and the unit of a command are not part of \<open>ata_command\<close>;
  the buffer descriptor is the identify buffer itself.
\<close>

definition identify_command :: "device \<Rightarrow> u8 list \<Rightarrow> ata_command \<Rightarrow> ata_command" where
  "identify_command d buf x = x\<lparr>mATAFlag48BitLBA := False, mATAFlagIOWrite := False, mATAFlagIORead := True,
     mATAFlagUseDMA := False, mATAFlagTFAccess := False, mATAFlagTFAccessResult := False,
     cmd_buffer := buf, cmd_position := 0, cmd_byteCount := of_nat kIDBufferBytes,
     cmd_tf := (cmd_tf x)\<lparr>ataTFSDH := push_bit 4 (of_nat (dev_unitNumber d)), ataTFCommand := kATAcmdDriveIdentify\<rparr>\<rparr>"

definition getDeviceID :: "device_setup \<Rightarrow> device \<Rightarrow> (ioreturn \<times> ata_command option \<times> device) option" where
  "getDeviceID u d =
     (if \<not> ds_descriptor u
      then Some (IOReturnCode (- 1), None, dev_set Alloc_descriptor (DString (map of_char ''failed'')) d)
      else (case ds_command u of
          None \<Rightarrow> Some (IOReturnCode (- 1), None, dev_set Alloc_command (DString (map of_char ''failed'')) d)
        | Some blank \<Rightarrow>
            if \<not> ds_completion u then None
            else do {
              buf \<leftarrow> m_pIDResponseBuffer d;
              let x = identify_command d buf blank;
              Some (ds_execute u x, Some x, d) }))"

text \<open>The result of \<open>init\<close>, the command that was issued, the device.\<close>

definition device_init :: "device_setup \<Rightarrow> device \<Rightarrow> (bool \<times> ata_command option \<times> device) option" where
  "device_init u d =
     (if \<not> ds_super_init u then Some (False, None, d)
      else let d = d\<lparr>dev_unitNumber := 0, dev_deviceType := kATADeviceType, m_pIDResponseBuffer := ds_buffer u kIDBufferBytes\<rparr> in
        if m_pIDResponseBuffer d = None then Some (False, None, d)
        else do {
          (err, x, d) \<leftarrow> getDeviceID u d;
          Some (err = kATANoErr, x, d) })"

definition new_device :: device where
  "new_device = \<lparr>m_pIDResponseBuffer = None, dev_nShelf = 0, dev_nSlot = 0, dev_unitNumber = 0,
     dev_deviceType = kUnknownDeviceType, dev_props = Map.empty\<rparr>"

text \<open>The shelf and slot are stored after the identify command has been issued.\<close>

definition create_aoe_device :: "device_setup \<Rightarrow> int \<Rightarrow> int \<Rightarrow> (device option \<times> ata_command option) option" where
  "create_aoe_device u Shelf Slot = do {
     (ok, x, nub) \<leftarrow> device_init u new_device;
     Some (if ok then Some (nub\<lparr>dev_nShelf := Shelf, dev_nSlot := Slot\<rparr>) else None, x) }"

definition device_uninit :: "device \<Rightarrow> device" where
  "device_uninit d = d\<lparr>m_pIDResponseBuffer := None\<rparr>"

definition device_attach :: "bool \<Rightarrow> bool \<Rightarrow> bool" where
  "device_attach isATAController super_attach \<longleftrightarrow> isATAController \<and> super_attach"

text \<open>
  Commands of the disk driver: \<open>execute\<close> is the provider's \<open>executeCommand\<close>, \<open>wait_result\<close> waits for the
  syncer and reads the result of the command, on the state of the caller's choice.
\<close>

definition device_executeCommand :: "(ata_command \<Rightarrow> 's \<Rightarrow> ioreturn \<times> 's) \<Rightarrow> ('s \<Rightarrow> ioreturn \<times> 's) \<Rightarrow> bool
    \<Rightarrow> ata_command option \<Rightarrow> 's \<Rightarrow> ioreturn \<times> 's" where
  "device_executeCommand execute wait_result has_callback command s =
     (case command of
        None \<Rightarrow> (IOReturnCode (- 1), s)
      | Some cmd \<Rightarrow> let (err, s) = execute cmd s in if has_callback then (err, s) else wait_result s)"

section \<open>Properties\<close>

datatype socket_type = kInternalATASocket | kMediaBaySocket | kPCCardSocket | kInternalSATA | kSATABay
  | kInternalSATA2 | kSATA2Bay | kUnknownSocket

definition socket_string :: "socket_type \<Rightarrow> string" where
  "socket_string t = (case t of
       kInternalATASocket \<Rightarrow> ''kATAInternalSocketString''
     | kMediaBaySocket \<Rightarrow> ''kATAMediaBaySocketString''
     | kPCCardSocket \<Rightarrow> ''kATAPCCardSocketString''
     | kInternalSATA \<Rightarrow> ''kATAInternalSATAString''
     | kSATABay \<Rightarrow> ''kATASATABayString''
     | kInternalSATA2 \<Rightarrow> ''kATAInternalSATA2''
     | kSATA2Bay \<Rightarrow> ''kATASATA2BayString''
     | kUnknownSocket \<Rightarrow> ''kATAUnkownSocketString'')"

text \<open>\<open>info\<close>: the allocated \<open>IOATABusInfo\<close>. The provider only ever sets the internal socket.\<close>

definition publishBusProperties :: "bus_info option \<Rightarrow> controller \<Rightarrow> device \<Rightarrow> device" where
  "publishBusProperties info c d =
     (case info of None \<Rightarrow> d
      | Some _ \<Rightarrow> (case provideBusInfo info c of
            (kATANoErr, Some i) \<Rightarrow>
              dev_set kATASocketKey (DConst (socket_string
                (if bi_internalATASocket i then kInternalATASocket else kUnknownSocket))) d
          | _ \<Rightarrow> d))"

definition publishProperties :: "device \<Rightarrow> device" where
  "publishProperties d =
     (let d = dev_set kATADevPropertyKey (DConst (case dev_deviceType d of
                  kATADeviceType \<Rightarrow> ''kATATypeATAString''
                | kATAPIDeviceType \<Rightarrow> ''kATATypeATAPIString''
                | kUnknownDeviceType \<Rightarrow> ''kATATypeUnknownString'')) d;
          d = dev_set kATAUnitNumberKey (DNumber (int (dev_unitNumber d))) d;
          d = dev_set IOUnit (DNumber (int (dev_unitNumber d))) d
      in dev_set IOLocation (DString (map of_char (if dev_unitNumber d = 0 then ''0'' else ''1''))) d)"

text \<open>\<open>%d\<close> of \<open>snprintf\<close>.\<close>

fun digits :: "nat \<Rightarrow> u8 list" where
  "digits n = (if n < 10 then [of_nat (48 + n)] else digits (n div 10) @ [of_nat (48 + n mod 10)])"

declare digits.simps [simp del]

definition decimal :: "int \<Rightarrow> u8 list" where
  "decimal n = (if n < 0 then 45 # digits (nat (- n)) else digits (nat n))"

definition model_text :: "int \<Rightarrow> int \<Rightarrow> u8 list" where
  "model_text Shelf Slot =
     map of_char ''AoE Shelf:'' @ decimal Shelf @ map of_char '' Slot:'' @ decimal Slot"

definition snprintf :: "nat \<Rightarrow> u8 list \<Rightarrow> u8 list" where
  "snprintf size_n s = take (size_n - 1) s @ [0]"

text \<open>
  The number of sectors as each branch computes it. The second one reads two bytes of the identify data
  where the specification has two words.
\<close>

definition sectors_24bit :: "u8 list \<Rightarrow> u64 option" where
  "sectors_24bit b =
     (if 60 + 1 < length b then Some (ucast (push_bit 16 (ucast (b ! (60 + 1))) + ucast (b ! 60) :: u32)) else None)"

text \<open>Bytes written into the identify buffer from an offset on; \<open>None\<close> when they do not fit into it.\<close>

definition poke :: "nat \<Rightarrow> u8 list \<Rightarrow> u8 list \<Rightarrow> u8 list option" where
  "poke off w b = (if off + length w \<le> length b then Some (take off b @ w @ drop (off + length w) b) else None)"

definition publishVendorProperties :: "ata_family \<Rightarrow> device \<times> controller option \<Rightarrow> (device \<times> controller option) option" where
  "publishVendorProperties af dc = (case dc of (d, None) \<Rightarrow> Some (d, None)
   | (d, Some c) \<Rightarrow> do {
       b \<leftarrow> m_pIDResponseBuffer d;
       (NumSectors, d, c) \<leftarrow>
         (if af_Supports48BitLBA af b then
            let (upperLBA, lowerLBA) = af_ExtendedLBASize af b;
                NumSectors = (push_bit 32 (ucast upperLBA) OR ucast lowerLBA :: u64)
            in Some (NumSectors, dev_set Extended_LBA_capacity (DNumber (uint NumSectors)) d, SetLBAExtendedSupport True c)
          else do {
            NumSectors \<leftarrow> sectors_24bit b;
            Some (NumSectors, d, SetLBAExtendedSupport True c) });
       let c = set_number_sectors NumSectors c;
       b \<leftarrow> poke 94 [0] b;
       b \<leftarrow> poke 40 [0] b;
       b \<leftarrow> poke 54 (snprintf (93 - 53) (model_text (dev_nShelf d) (dev_nSlot d))) b;
       modelNum \<leftarrow> cstr (drop 54 b);
       b \<leftarrow> poke 54 [0] b;
       firmVers \<leftarrow> cstr (drop 46 b);
       serial \<leftarrow> cstr (drop 20 b);
       let d = dev_set kATAVendorPropertyKey (DString modelNum) d;
       let d = dev_set kATARevisionPropertyKey (DString firmVers) d;
       let d = dev_set kATASerialNumPropertyKey (DString serial) d;
       Some (d\<lparr>m_pIDResponseBuffer := Some b\<rparr>, Some c) })"

section \<open>The identify data arrives\<close>

text \<open>\<open>swapBytes16\<close> on \<open>length\<close> bytes from an offset of the buffer on; an access beyond it is \<open>None\<close>.\<close>

function swap_loop :: "nat \<Rightarrow> nat \<Rightarrow> nat \<Rightarrow> u8 list \<Rightarrow> u8 list option" where
  "swap_loop i len off b =
     (if len \<le> i then Some b
      else if length b \<le> off + i + 1 then None
      else swap_loop (i + 2) len off (b[off + i := b ! (off + i + 1), off + i + 1 := b ! (off + i)]))"
  by auto
termination by (relation "measure (\<lambda>(i, len, off, b). len - i)") auto

declare swap_loop.simps [simp del]

definition swapBytes16 :: "nat \<Rightarrow> nat \<Rightarrow> u8 list \<Rightarrow> u8 list option" where
  "swapBytes16 off len b = swap_loop 0 len off b"

datatype what_to_do = kDoIDDataComplete | kDoSetFeatureComplete | DoOther

text \<open>
  Little-endian. The result of the command is printed only. \<open>c\<close>: the provider, \<open>None\<close> when the cast to the
  driver's own class fails; \<open>info\<close>: the bus information that is allocated for it.
\<close>

definition processCallback :: "ata_family \<Rightarrow> bus_info option \<Rightarrow> what_to_do \<Rightarrow> ioreturn \<Rightarrow> device \<times> controller
    \<Rightarrow> (device \<times> controller) option" where
  "processCallback af info todo result dc = (case todo of
       kDoIDDataComplete \<Rightarrow> (case dc of (d, c) \<Rightarrow> do {
         b \<leftarrow> m_pIDResponseBuffer d;
         b \<leftarrow> swapBytes16 46 8 b;
         b \<leftarrow> swapBytes16 54 40 b;
         b \<leftarrow> swapBytes16 20 20 b;
         let d = d\<lparr>m_pIDResponseBuffer := Some b\<rparr>;
         let d = publishBusProperties info c (publishProperties d);
         (d, oc) \<leftarrow> publishVendorProperties af (d, Some c);
         Some (d, case oc of Some c \<Rightarrow> c | None \<Rightarrow> c) })
     | kDoSetFeatureComplete \<Rightarrow> Some dc
     | DoOther \<Rightarrow> Some dc)"

definition MyATACallback :: "ata_family \<Rightarrow> bus_info option \<Rightarrow> what_to_do \<Rightarrow> ioreturn \<Rightarrow> device \<times> controller
    \<Rightarrow> (device \<times> controller) option" where
  "MyATACallback af info todo result dc = processCallback af info todo result dc"

end
