(* ===== verification/PrefsPane.thy ===== *)
theory PrefsPane
  imports Daemon Properties Device
begin

unbundle bit_operations_syntax

text \<open>
  The logic of the preference pane, \<open>AoEPreference/PrefsPane.mm\<close>: the buttons of the ethernet ports, the list of
  targets and its sorting, and the commands that it has \<open>aoed\<close> execute. Drawing, sheets and timers are left out;
  \<open>nRow\<close> is the row selected in the table, -1 for none. \<open>None\<close> is an exception of a collection class or an access outside of an array.
\<close>

section \<open>State\<close>

text \<open>
  The dictionary of a target: the objects are given as a list that ends with a null pointer, so the
  entries behind the string of interfaces are there only when that string is.
\<close>

datatype capacity_text = GBytes int | MBytes int | kBytes int | Unknown_capacity | TBytes int

record pane_online =
  kInterfacesString :: "u8 list"
  kClaimed :: bool
  kOnline :: bool
  kTargetNum :: int
  kInterfaces :: "int list"

record pane_target =
  kShelf :: int
  kSlot :: int
  kCapacityString :: capacity_text
  kCapacity :: u64
  kConfigString :: "u8 list"
  kOwner :: "u8 list"
  kStatus :: string
  pt_rest :: "pane_online option"

text \<open>\<open>pn_authorised\<close>: the lock of the authorisation view is open; \<open>pn_unlocks\<close>: the user opens it when asked.
  \<open>pn_columns\<close>: the columns of the table, each with its indicator, which is ascending, descending or not there.\<close>

record pane =
  m_apENButtons :: "bool list"
  m_nNumOfEthernetPorts :: int
  m_fDriverLoaded :: bool
  m_pTargets :: "pane_target list"
  pn_authorised :: bool
  pn_unlocks :: bool
  pn_claim_enabled :: bool
  pn_controls_enabled :: bool
  pn_table_enabled :: bool
  pn_unclaim_title :: bool
  pn_columns :: "(string \<times> bool option) list"

text \<open>\<open>boolValue\<close> of an entry that is missing is false, \<open>intValue\<close> is 0.\<close>

definition pt_claimed :: "pane_target \<Rightarrow> bool" where
  "pt_claimed t = (case pt_rest t of Some r \<Rightarrow> kClaimed r | None \<Rightarrow> False)"

definition pt_online :: "pane_target \<Rightarrow> bool" where
  "pt_online t = (case pt_rest t of Some r \<Rightarrow> kOnline r | None \<Rightarrow> False)"

definition pt_number :: "pane_target \<Rightarrow> int" where
  "pt_number t = (case pt_rest t of Some r \<Rightarrow> kTargetNum r | None \<Rightarrow> 0)"

section \<open>Talking to aoed\<close>

definition authorised :: "bool \<Rightarrow> pane \<Rightarrow> int \<times> pane" where
  "authorised AskIfNot p =
     (let p = (if AskIfNot \<and> \<not> pn_authorised p then p\<lparr>pn_authorised := pn_unlocks p\<rparr> else p)
      in (if pn_authorised p then 0 else - 1, p))"

text \<open>The result, the argument \<open>aoed\<close> is run with, and the pane; \<open>exists\<close>: the program is there.\<close>

definition send_to_aoed :: "bool \<Rightarrow> string \<Rightarrow> pane \<Rightarrow> int \<times> string option \<times> pane" where
  "send_to_aoed exists arg p =
     (if \<not> exists then (- 1, None, p)
      else let (r, p) = authorised True p in if r = 0 then (0, Some arg, p) else (- 1, None, p))"

section \<open>The buttons of the ports\<close>

abbreviation (input) NUL :: char where "NUL \<equiv> CHR 0x00"

text \<open>The loop over the ports, from number \<open>n\<close> on, \<open>count\<close> of them: the digit and a comma go into a buffer of 10 bytes.\<close>

fun fill_ports :: "bool list \<Rightarrow> nat \<Rightarrow> nat \<Rightarrow> nat \<Rightarrow> string \<Rightarrow> (nat \<times> string) option" where
  "fill_ports buttons n 0 nECount buf = Some (nECount, buf)"
| "fill_ports buttons n (Suc count) nECount buf =
     (if length buttons \<le> n then None
      else if \<not> buttons ! n then fill_ports buttons (Suc n) count nECount buf
      else if length buf \<le> 3 + nECount * 2 then None
      else fill_ports buttons (Suc n) count (Suc nECount)
             (buf[2 + nECount * 2 := char_of (48 + n), 3 + nECount * 2 := CHR '','']))"

definition ports_argument :: "bool list \<Rightarrow> int \<Rightarrow> string option" where
  "ports_argument buttons nPorts = do {
     (nECount, buf) \<leftarrow> fill_ports buttons 0 (nat nPorts) 0 (''-e'' @ replicate 8 NUL);
     let buf = (if nECount = 0 then buf[2 := NUL] else buf[3 + (nECount - 1) * 2 := NUL]);
     Some (takeWhile (\<lambda>c. c \<noteq> NUL) buf) }"

definition set_en_interfaces :: "bool \<Rightarrow> pane \<Rightarrow> (int \<times> string option \<times> pane) option" where
  "set_en_interfaces exists p = do {
     arg \<leftarrow> ports_argument (m_apENButtons p) (m_nNumOfEthernetPorts p);
     Some (send_to_aoed exists arg p) }"

definition target_connected_to_interface :: "pane_target \<Rightarrow> int \<Rightarrow> bool" where
  "target_connected_to_interface t nInterface =
     (case pt_rest t of Some r \<Rightarrow> nInterface \<in> set (kInterfaces r) | None \<Rightarrow> False)"

text \<open>The user is asked once, about the first claimed target on the port; \<open>disable\<close>: the answer.\<close>

definition confirm_en_press :: "bool \<Rightarrow> int \<Rightarrow> pane \<Rightarrow> bool" where
  "confirm_en_press disable nInt p =
     (if \<exists>t \<in> set (m_pTargets p). pt_claimed t \<and> pt_online t \<and> target_connected_to_interface t nInt
      then disable else True)"

section \<open>The table\<close>

text \<open>\<open>arrange\<close>: \<open>sortedArrayUsingDescriptors\<close> with a key and a direction.\<close>

type_synonym arrange = "string \<Rightarrow> bool \<Rightarrow> pane_target list \<Rightarrow> pane_target list"

definition sortWithDescriptor :: "arrange \<Rightarrow> string \<Rightarrow> bool \<Rightarrow> pane \<Rightarrow> pane" where
  "sortWithDescriptor arrange key ascending p = p\<lparr>m_pTargets := arrange key ascending (m_pTargets p)\<rparr>"

text \<open>The capacity is sorted by the number and not by the string.\<close>

definition sort_column :: "arrange \<Rightarrow> string \<times> bool option \<Rightarrow> pane \<Rightarrow> pane" where
  "sort_column arrange column p = (case snd column of None \<Rightarrow> p
     | Some ascending \<Rightarrow> sortWithDescriptor arrange
         (if fst column = ''CapacityString'' then ''Capacity'' else fst column) ascending p)"

definition ResortTable :: "arrange \<Rightarrow> pane \<Rightarrow> pane" where
  "ResortTable arrange p = fold (sort_column arrange) (pn_columns p) p"

definition click_column :: "string \<Rightarrow> string \<times> bool option \<Rightarrow> string \<times> bool option" where
  "click_column clicked column =
     (fst column, if fst column = clicked then Some (snd column \<noteq> Some True) else None)"

definition didClickTableColumn :: "arrange \<Rightarrow> string \<Rightarrow> pane \<Rightarrow> pane" where
  "didClickTableColumn arrange clicked p =
     ResortTable arrange (p\<lparr>pn_columns := map (click_column clicked) (pn_columns p)\<rparr>)"

text \<open>The title of the button follows the row as it was before the sorting. The row is compared as an
  unsigned number.\<close>

definition update_table :: "arrange \<Rightarrow> int \<Rightarrow> pane \<Rightarrow> pane" where
  "update_table arrange nRow p =
     ResortTable arrange
       (if 0 \<le> nRow \<and> nRow < int (length (m_pTargets p)) \<and> pt_online (m_pTargets p ! nat nRow)
        then p\<lparr>pn_unclaim_title := pt_claimed (m_pTargets p ! nat nRow)\<rparr> else p)"

text \<open>The list is a null pointer when it is empty, and answers null.\<close>

definition selected_target :: "int \<Rightarrow> pane \<Rightarrow> pane_target option option" where
  "selected_target nRow p =
     (if m_pTargets p = [] then Some None
      else if nRow < 0 \<or> int (length (m_pTargets p)) \<le> nRow then None
      else Some (Some (m_pTargets p ! nat nRow)))"

definition update_buttons :: "arrange \<Rightarrow> bool \<Rightarrow> int \<Rightarrow> pane \<Rightarrow> pane option" where
  "update_buttons arrange fHaveAuth nRow p = do {
     p \<leftarrow> (if nRow = - 1 then Some (p\<lparr>pn_claim_enabled := False\<rparr>)
           else do {
             t \<leftarrow> selected_target nRow p;
             Some (case t of None \<Rightarrow> p
               | Some t \<Rightarrow> p\<lparr>pn_claim_enabled := fHaveAuth \<and> m_fDriverLoaded p \<and> pt_online t\<rparr>) });
     Some (update_table arrange nRow
       (p\<lparr>pn_controls_enabled := fHaveAuth \<and> m_fDriverLoaded p, pn_table_enabled := m_fDriverLoaded p\<rparr>)) }"

text \<open>The selection, the tab or the lock has changed.\<close>

definition selection_changed :: "arrange \<Rightarrow> int \<Rightarrow> pane \<Rightarrow> pane option" where
  "selection_changed arrange nRow p = update_buttons arrange (fst (authorised False p) = 0) nRow p"

definition lock_changed :: "arrange \<Rightarrow> bool \<Rightarrow> int \<Rightarrow> pane \<Rightarrow> pane option" where
  "lock_changed arrange unlocked nRow p = update_buttons arrange unlocked nRow (p\<lparr>pn_authorised := unlocked\<rparr>)"

section \<open>Pressing a button and loading the pane\<close>

text \<open>The button has already changed its state when it is handled.\<close>

definition handle_en_press :: "arrange \<Rightarrow> bool \<Rightarrow> bool \<Rightarrow> nat \<Rightarrow> int \<Rightarrow> pane \<Rightarrow> (string option \<times> pane) option" where
  "handle_en_press arrange exists disable nEN nRow p =
     (if length (m_apENButtons p) \<le> nEN then None
      else if \<not> m_apENButtons p ! nEN \<and> \<not> confirm_en_press disable (int nEN) p
      then Some (None, p\<lparr>m_apENButtons := (m_apENButtons p)[nEN := True]\<rparr>)
      else do {
        (_, cmd, p) \<leftarrow> set_en_interfaces exists p;
        p \<leftarrow> update_buttons arrange True nRow p;
        Some (cmd, p) })"

text \<open>What the buttons show when the pane is loaded; \<open>r\<close>: the result of \<open>configure_matching\<close>.\<close>

fun restore_buttons :: "properties \<Rightarrow> nat \<Rightarrow> nat \<Rightarrow> bool list \<Rightarrow> bool list option" where
  "restore_buttons props n 0 buttons = Some buttons"
| "restore_buttons props n (Suc count) buttons = do {
     (r, v) \<leftarrow> get_en_interfaces (int n) props;
     buttons \<leftarrow> (case v of
        Some nValue \<Rightarrow> if r \<noteq> 0 then Some buttons
          else if length buttons \<le> nValue then None else Some (buttons[nValue := True])
      | None \<Rightarrow> Some buttons);
     restore_buttons props (Suc n) count buttons }"

definition mainViewDidLoad :: "bool \<Rightarrow> world option \<Rightarrow> pane \<Rightarrow> pane option" where
  "mainViewDidLoad master_port found p =
     (let n = nat (m_nNumOfEthernetPorts p); (r, props) = configure_matching master_port found new_properties in
      if length (m_apENButtons p) < n then None
      else do {
        let buttons = replicate n False @ drop n (m_apENButtons p);
        buttons \<leftarrow> (if r = 0 then restore_buttons props 0 n buttons else Some buttons);
        Some (p\<lparr>m_apENButtons := buttons,
                 pn_columns := map (\<lambda>(c, i). (c, if c = ''Shelf'' then Some True else i)) (pn_columns p)\<rparr>) })"

section \<open>Targets\<close>

text \<open>The size is given in sectors of 512 bytes; each unit is chosen by strict comparisons on both sides.\<close>

definition capacity_string :: "u64 \<Rightarrow> capacity_text" where
  "capacity_string unCapacity =
     (let kb = uint unCapacity div 2 in
      if kb < 2 ^ 30 \<and> kb > 2 ^ 20 then GBytes kb
      else if kb < 2 ^ 20 \<and> kb > 2 ^ 10 then MBytes kb
      else if kb < 2 ^ 10 \<and> kb > 1 then kBytes kb
      else if kb < 1 then Unknown_capacity
      else TBytes kb)"

fun interfaces_string :: "int list \<Rightarrow> u8 list" where
  "interfaces_string [] = []"
| "interfaces_string [n] = map of_char ''en'' @ decimal n"
| "interfaces_string (n # ns) = map of_char ''en'' @ decimal n @ map of_char '','' @ interfaces_string ns"

definition create_target :: "int \<Rightarrow> int \<Rightarrow> int \<Rightarrow> u64 \<Rightarrow> u8 list option \<Rightarrow> int list \<Rightarrow> pane_target option" where
  "create_target shelf slot nNumber unCapacity pCString anENInterfaces = do {
     owner \<leftarrow> (case pCString of Some s \<Rightarrow> get_owner_from_cstr s | None \<Rightarrow> Some []);
     let cstring = (case pCString of Some s \<Rightarrow> s | None \<Rightarrow> []);
     Some \<lparr>kShelf = shelf, kSlot = slot, kCapacityString = capacity_string unCapacity, kCapacity = unCapacity,
           kConfigString = cstring, kOwner = owner,
           kStatus = (if anENInterfaces \<noteq> [] then ''Online'' else ''Offline''),
           pt_rest = (if anENInterfaces = [] then None
             else Some \<lparr>kInterfacesString = interfaces_string anENInterfaces, kClaimed = cstring \<noteq> [],
                        kOnline = True, kTargetNum = nNumber, kInterfaces = anENInterfaces\<rparr>)\<rparr> }"

text \<open>The list of targets from the registry, from entry \<open>n\<close> on; the array of interfaces is on the stack.\<close>

fun list_targets :: "'b core_foundation \<Rightarrow> int \<Rightarrow> properties \<Rightarrow> nat \<Rightarrow> nat \<Rightarrow> int list \<Rightarrow> pane_target list option" where
  "list_targets F uninit props n 0 ifs = Some []"
| "list_targets F uninit props n (Suc count) ifs = do {
     s \<leftarrow> get_config_string (int n) props;
     (nInterfaces, ifs) \<leftarrow> get_targets_en_interfaces (int n) ifs props;
     shelf \<leftarrow> get_shelf_number F uninit (int n) props;
     slot \<leftarrow> get_slot_number F uninit (int n) props;
     number \<leftarrow> get_target_number F uninit (int n) props;
     capacity \<leftarrow> get_capacity (word_of_int uninit) (int n) props;
     t \<leftarrow> create_target shelf slot number capacity (if s = Some [] then None else s) (take (nat nInterfaces) ifs);
     ts \<leftarrow> list_targets F uninit props (Suc n) count ifs;
     Some (t # ts) }"

definition update_target_listings :: "arrange \<Rightarrow> 'b core_foundation \<Rightarrow> int \<Rightarrow> bool \<Rightarrow> world option \<Rightarrow> int \<Rightarrow> pane \<Rightarrow> pane option" where
  "update_target_listings arrange F uninit master_port found nRow p =
     (let (r, props) = configure_matching master_port found new_properties in
      if r \<noteq> 0 then Some p
      else do {
        ts \<leftarrow> list_targets F uninit props 0 (nat (prop_number_of_targets props)) (replicate MAX_PORTS uninit);
        let (auth, p) = authorised False (p\<lparr>m_pTargets := ts\<rparr>);
        p \<leftarrow> update_buttons arrange (auth = 0) nRow p;
        Some (update_table arrange nRow p) })"

text \<open>The first view of the pane; nothing is selected.\<close>

definition assignMainView :: "arrange \<Rightarrow> 'b core_foundation \<Rightarrow> int \<Rightarrow> string option list option \<Rightarrow> bool \<Rightarrow> world option
    \<Rightarrow> pane \<Rightarrow> pane option" where
  "assignMainView arrange F uninit services master_port found p = do {
     p \<leftarrow> update_buttons arrange False (- 1)
            (p\<lparr>m_nNumOfEthernetPorts := GetNumberOfInterfaces uninit services,
               m_fDriverLoaded := (fst (configure_matching master_port found new_properties) = 0)\<rparr>);
     update_target_listings arrange F uninit master_port found (- 1) p }"

text \<open>\<open>claimed_by_us\<close> is true when the string is \<^emph>\<open>not\<close> ours: the result of \<open>cstr_ours\<close> as a boolean.\<close>

definition target_claimed_by_us :: "u8 list option \<Rightarrow> pane_target \<Rightarrow> bool option" where
  "target_claimed_by_us serial t = map_option (\<lambda>r. r \<noteq> 0) (cstr_ours serial (Some (kConfigString t)))"

definition claim_argument :: "char \<Rightarrow> int \<Rightarrow> string" where
  "claim_argument c n = CHR ''-'' # c # map (\<lambda>x. char_of (unat x)) (take 7 (decimal n))"

text \<open>\<open>reclaim\<close>: the user's answer to the warning about a target of another computer.\<close>

definition ClaimedPressed :: "bool \<Rightarrow> bool \<Rightarrow> world option \<Rightarrow> u8 list option \<Rightarrow> bool \<Rightarrow> int \<Rightarrow> pane
    \<Rightarrow> (string option \<times> pane) option" where
  "ClaimedPressed exists master_port found serial reclaim nRow p = do {
     ot \<leftarrow> selected_target nRow p;
     (if nRow = - 1 then Some (None, p)
      else let (auth, p) = authorised True p in
        if auth \<noteq> 0 \<or> fst (configure_matching master_port found new_properties) \<noteq> 0 then Some (None, p)
        else (case ot of None \<Rightarrow> Some (None, p)
          | Some t \<Rightarrow> do {
              other \<leftarrow> (if pt_claimed t then target_claimed_by_us serial t else Some False);
              (if other \<and> \<not> reclaim then Some (None, p)
               else
                 let arg = claim_argument (if pt_claimed t then CHR ''C'' else CHR ''c'') (pt_number t);
                     (_, cmd, p) = send_to_aoed exists arg p
                 in Some (cmd, p\<lparr>pn_claim_enabled := False\<rparr>)) })) }"

definition DiscoverPressed :: "arrange \<Rightarrow> 'b core_foundation \<Rightarrow> int \<Rightarrow> bool \<Rightarrow> bool \<Rightarrow> world option \<Rightarrow> int \<Rightarrow> pane
    \<Rightarrow> (string option \<times> pane) option" where
  "DiscoverPressed arrange F uninit exists master_port found nRow p = do {
     let (_, cmd, p) = send_to_aoed exists ''-D'' p;
     p \<leftarrow> update_target_listings arrange F uninit master_port found nRow p;
     p \<leftarrow> update_buttons arrange (fst (authorised False p) = 0) nRow p;
     Some (cmd, p) }"

end
