(* ===== verification/SettingsProps.thy ===== *)
theory SettingsProps
  imports Daemon PortProps
begin

unbundle bit_operations_syntax

text \<open>
  The settings of the daemon: the file gives back what was stored in it, the program sets exactly the ports of its
  settings in the driver, and they survive a restart; the configuration string names its owner.
\<close>

section \<open>The file of settings\<close>

text \<open>Core Foundation works: property lists, which are numbers, arrays and dictionaries of such, are written and read back,
  and nothing else can be written.\<close>

fun plist :: "cf \<Rightarrow> bool" where
  "plist (CFNumber n) = True"
| "plist (CFArray a) = list_all plist a"
| "plist (CFDictionary d) = list_all (\<lambda>e. plist (snd e)) d"
| "plist CFOther = False"

definition cf_works :: "'b core_foundation \<Rightarrow> bool" where
  "cf_works F \<longleftrightarrow> cf_url F \<and> (\<forall>b f. cf_write F b f = Some b) \<and>
     (\<forall>d. if plist d then \<exists>b. cf_xml F d = Some b \<and> cf_plist F b = Some d else cf_xml F d = None)"

text \<open>The array in which the ports are stored does not retain its numbers, and they have been released: what is in the file,
  and the ports that are read back from it, \<open>None\<close> when an entry is no number.\<close>

definition stored_ports :: "'b core_foundation \<Rightarrow> preferences \<Rightarrow> cf list" where
  "stored_ports F p = map (cf_released F (map sint (ports p))) [0..<length (ports p)]"

fun port_values :: "'b core_foundation \<Rightarrow> cf list \<Rightarrow> u32 list option" where
  "port_values F [] = Some []"
| "port_values F (CFNumber v # a) = map_option ((#) (number_value F v)) (port_values F a)"
| "port_values F (_ # a) = None"

lemma number_value_sint [simp]: "number_value F (sint n) = (n :: u32)"
  using sint_range_size [of n] by (simp add: number_value_def word_size)

lemma numbers_read:
  "port_values F (map (\<lambda>n. CFNumber (sint n)) l) = Some l" "list_all plist (map (\<lambda>n. CFNumber (sint n)) l)" for l :: "u32 list"
  using number_value_sint by (induction l) simp_all

lemma length_port_values: "port_values F a = Some l \<Longrightarrow> length l = length a"
  by (induction F a arbitrary: l rule: port_values.induct) auto

definition preferences_ok :: "preferences \<Rightarrow> bool" where
  "preferences_ok p \<longleftrightarrow> length (anEnabledPorts p) = MAX_PORTS \<and> unat (nNumberOfPorts p) \<le> MAX_PORTS"

lemma read_ports_from:
  "n + length b = length a \<Longrightarrow> drop n a = b \<Longrightarrow> length a \<le> length dest \<Longrightarrow>
   read_ports F a n (length b) dest = map_option (\<lambda>l. take n dest @ l @ drop (length a) dest) (port_values F b)"
proof (induction b arbitrary: n dest)
  case (Cons e b)
  have short: "n < length a" using Cons.prems(1) by simp
  have parts: "a ! n # drop (Suc n) a = e # b" using Cons_nth_drop_Suc [OF short] Cons.prems(2) by simp
  show ?case
  proof (cases e)
    case (CFNumber v)
    have "take (Suc n) (dest[n := number_value F v]) = take n dest @ [number_value F v]"
      using short Cons.prems(3) by (simp add: take_Suc_conv_app_nth)
    then show ?thesis
      using Cons.IH [of "Suc n" "dest[n := number_value F v]"] Cons.prems(1,3) parts short
      by (auto simp: CFNumber option.map_comp comp_def)
  qed (use parts short in auto)
qed auto

lemma read_ports_all:
  "length a \<le> length dest \<Longrightarrow>
   read_ports F a 0 (length a) dest = map_option (\<lambda>l. l @ drop (length a) dest) (port_values F a)"
  using read_ports_from [of 0 a a dest F] by simp

lemma default_settings_ok:
  assumes "length (anEnabledPorts q) = MAX_PORTS" "0 \<le> n" "n \<le> int MAX_PORTS"
  obtains d where "default_settings n q = Some d" "length (anEnabledPorts d) = MAX_PORTS"
    "aszComputerConfigString d = aszComputerConfigString q"
proof -
  have "unat (word_of_int n :: u32) = nat n" using assms(2,3) by (simp add: unat_eq_nat_uint uint_word_of_int)
  then have "default_settings n q = Some (q\<lparr>pf_nMaxTransferSize := DEFAULT_MAX_TRANSFER_SIZE,
      nUserBlockCountWindow := DEFAULT_CONGESTION_WINDOW, nNumberOfPorts := word_of_int n,
      anEnabledPorts := map of_nat [0..<nat n] @ drop (nat n) (anEnabledPorts q)\<rparr>)"
    using assms by (simp add: default_settings_def Let_def)
  then show thesis by (rule that) (use assms in simp_all)
qed

text \<open>The settings \<open>p'\<close> are \<open>p\<close> with the ports \<open>l\<close> and the configuration string of \<open>q\<close>.\<close>

definition recalled :: "preferences \<Rightarrow> u32 list \<Rightarrow> preferences \<Rightarrow> preferences \<Rightarrow> bool" where
  "recalled p l q p' \<longleftrightarrow> preferences_ok p' \<and> ports p' = l \<and> nNumberOfPorts p' = nNumberOfPorts p \<and>
    pf_nMaxTransferSize p' = pf_nMaxTransferSize p \<and> nUserBlockCountWindow p' = nUserBlockCountWindow p \<and>
    aszComputerConfigString p' = aszComputerConfigString q"

lemma stored_settings_recalled:
  assumes "cf_works F" "preferences_ok p" "length (anEnabledPorts q) = MAX_PORTS" "0 \<le> n" "n \<le> int MAX_PORTS"
  shows "if list_all plist (stored_ports F p)
    then \<exists>b. store_settings F p file = Some (0, Some b) \<and>
      (case port_values F (stored_ports F p) of
         None \<Rightarrow> recall_settings F n (q, Some b) = None
       | Some l \<Rightarrow> \<exists>p'. recall_settings F n (q, Some b) = Some (0, p', Some b) \<and> recalled p l q p')
    else store_settings F p file = Some (- 1, file)"
proof -
  let ?a = "stored_ports F p"
  let ?dict = "[(''Version'', CFNumber 1), (''NumberOfPorts'', CFNumber (sint (nNumberOfPorts p))),
    (''AvailablePorts'', CFArray ?a), (''TransferSize'', CFNumber (sint (pf_nMaxTransferSize p))),
    (''MaxUserBlockCount'', CFNumber (sint (nUserBlockCountWindow p)))]"
  have dict: "settings_dictionary F p = Some (CFDictionary ?dict)"
    using assms(2) by (simp add: settings_dictionary_def preferences_ok_def stored_ports_def)
  have len: "length ?a = unat (nNumberOfPorts p)" "length (ports p) = unat (nNumberOfPorts p)"
    using assms(2) by (simp_all add: stored_ports_def ports_def preferences_ok_def)
  show ?thesis
  proof (cases "list_all plist ?a")
    case True
    then obtain b where b: "cf_xml F (CFDictionary ?dict) = Some b" "cf_plist F b = Some (CFDictionary ?dict)"
      using assms(1) [unfolded cf_works_def, THEN conjunct2, THEN conjunct2, rule_format, of "CFDictionary ?dict"] by auto
    obtain d where d: "default_settings n q = Some d" "length (anEnabledPorts d) = MAX_PORTS"
        "aszComputerConfigString d = aszComputerConfigString q"
      using assms(3-5) by (rule default_settings_ok)
    have read: "read_ports F ?a 0 (unat (nNumberOfPorts p)) (anEnabledPorts d) =
        map_option (\<lambda>l. l @ drop (unat (nNumberOfPorts p)) (anEnabledPorts d)) (port_values F ?a)"
      using read_ports_all [of ?a "anEnabledPorts d" F] len(1) d(2) assms(2) by (simp add: preferences_ok_def)
    have one: "number_value F 1 = 1" using number_value_sint [of F 1] by simp
    have recall: "recall_settings F n (q, Some b) = map_option (\<lambda>l. (0, d\<lparr>nNumberOfPorts := nNumberOfPorts p,
        pf_nMaxTransferSize := pf_nMaxTransferSize p, nUserBlockCountWindow := nUserBlockCountWindow p,
        anEnabledPorts := l @ drop (unat (nNumberOfPorts p)) (anEnabledPorts d)\<rparr>, Some b)) (port_values F ?a)"
      using assms(1) d(1) b(2) read one
      by (simp add: recall_settings_def read_dictionary_def read_number_or_def cf_works_def option.map_comp comp_def)
    have "store_settings F p file = Some (0, Some b)"
      using assms(1) dict b(1) by (simp add: store_settings_def cf_works_def)
    then show ?thesis
      using True recall length_port_values [of F ?a] len d(2,3) assms(2)
      by (auto simp: recalled_def ports_def preferences_ok_def split: option.split intro!: exI [of _ b])
  next
    case False
    then have "\<not> plist (CFDictionary ?dict)" by simp
    then have "cf_xml F (CFDictionary ?dict) = None"
      using assms(1) [unfolded cf_works_def, THEN conjunct2, THEN conjunct2, rule_format, of "CFDictionary ?dict"]
      by (simp only: if_False)
    then show ?thesis using False dict assms(1) by (simp add: store_settings_def cf_works_def)
  qed
qed


text \<open>A Core Foundation whose files hold the property list itself.\<close>

definition example_foundation :: "cf core_foundation" where
  "example_foundation = \<lparr>cf_url = True, cf_xml = (\<lambda>d. if plist d then Some d else None), cf_plist = Some,
     cf_released = (\<lambda>l n. CFNumber (l ! n)), cf_approx = word_of_int,
     cf_write = (\<lambda>b f. Some b), cf_remove = (\<lambda>f. None), cf_cut = (\<lambda>s b. b)\<rparr>"

lemma example_foundation_works:
  "cf_works example_foundation" "stored_ports example_foundation p = map (\<lambda>n. CFNumber (sint n)) (ports p)"
proof -
  have "map (\<lambda>n. CFNumber (map sint l ! n)) [0..<length l] = map (\<lambda>n. CFNumber (sint n)) l" for l :: "u32 list"
    by (rule nth_equalityI) simp_all
  then show "stored_ports example_foundation p = map (\<lambda>n. CFNumber (sint n)) (ports p)"
    by (simp add: stored_ports_def example_foundation_def)
qed (simp add: cf_works_def example_foundation_def)

definition blank_preferences :: preferences where
  "blank_preferences = \<lparr>nNumberOfPorts = 0, pf_nMaxTransferSize = 0, nUserBlockCountWindow = 0,
     anEnabledPorts = replicate 6 0, aszComputerConfigString = replicate 1024 0\<rparr>"


text \<open>Settings that cannot be recalled are the defaults as a whole: all interfaces of the computer, the default
  transfer size and window, nothing of the file; and the file is left as it is, or removed when it is of
  an older version.\<close>

theorem recall_failure_defaults:
  assumes "recall_settings F n (p, file) = Some (r, p', file')" "r \<noteq> 0" "0 \<le> n" "n \<le> int MAX_PORTS"
  shows "r = - 1 \<and> ports p' = map of_nat [0..<nat n] \<and> pf_nMaxTransferSize p' = DEFAULT_MAX_TRANSFER_SIZE \<and>
    nUserBlockCountWindow p' = DEFAULT_CONGESTION_WINDOW \<and> aszComputerConfigString p' = aszComputerConfigString p \<and>
    (file' = file \<or> file' = cf_remove F file \<and> cf_url F \<and> (\<exists>d v. Option.bind file (cf_plist F) = Some (CFDictionary d) \<and>
       map_of d ''Version'' = Some (CFNumber v) \<and> sint (number_value F v) < 1))"
proof -
  have "unat (word_of_int n :: u32) = nat n" using assms(3,4) by (simp add: unat_eq_nat_uint uint_word_of_int)
  then have d: "ports p' = map of_nat [0..<nat n] \<and> pf_nMaxTransferSize p' = DEFAULT_MAX_TRANSFER_SIZE \<and>
      nUserBlockCountWindow p' = DEFAULT_CONGESTION_WINDOW \<and> aszComputerConfigString p' = aszComputerConfigString p"
    if "default_settings n p = Some p'"
    using that by (auto simp: default_settings_def Let_def ports_def split: if_split_asm)
  show ?thesis
    using assms(1,2) d
    by (auto simp: recall_settings_def split: Option.bind_split_asm if_split_asm option.split_asm cf.split_asm)
qed

theorem recall_failure_defaults_witness:
  "\<exists>p'. recall_settings example_foundation 2 (blank_preferences, None) = Some (- 1, p', None) \<and> ports p' = [0, 1]"
proof -
  have "case recall_settings example_foundation 2 (blank_preferences, None) of Some (r, _, None) \<Rightarrow> r = - 1 | _ \<Rightarrow> False"
    by code_simp
  then obtain p' where run: "recall_settings example_foundation 2 (blank_preferences, None) = Some (- 1, p', None)"
    by (auto split: option.splits prod.splits)
  have "map of_nat [0..<nat 2] = [0, 1 :: u32]" by (simp add: upt_rec)
  then show ?thesis using recall_failure_defaults [OF run] run by auto
qed

section \<open>The program\<close>

text \<open>Options that only concern the settings.\<close>

definition settings_option :: "opt \<Rightarrow> bool" where
  "settings_option nOpt = (case nOpt of Opt_e _ \<Rightarrow> True | Opt_p \<Rightarrow> True | Opt_s \<Rightarrow> True | Opt_u _ \<Rightarrow> True | Opt_w \<Rightarrow> True
     | Opt_x _ \<Rightarrow> True | Opt_missing c \<Rightarrow> c = CHR ''e'' | _ \<Rightarrow> False)"

lemma settings_step:
  "settings_option nOpt \<Longrightarrow> option_step k af F env nOpt st = Some (ok, st') \<Longrightarrow>
   dm_kext st' = dm_kext st \<and> dm_file st' = dm_file st \<and> fSetOptionsInKEXT st' = fSetOptionsInKEXT st \<and>
   (nOpt \<noteq> Opt_s \<longrightarrow> fSaveOptions st' = fSaveOptions st)"
  by (cases nOpt) (auto simp: settings_option_def option_step_def ports_option_def on_prefs_def Let_def
      split: Option.bind_split_asm sum.split_asm if_split_asm)

lemma settings_options:
  "options_loop k af F env opts st = Some (ok, st') \<Longrightarrow> \<forall>y \<in> set opts. settings_option y \<Longrightarrow>
   dm_kext st' = dm_kext st \<and> dm_file st' = dm_file st \<and> fSetOptionsInKEXT st' = fSetOptionsInKEXT st \<and>
   (Opt_s \<notin> set opts \<longrightarrow> fSaveOptions st' = fSaveOptions st)"
proof (induction opts arbitrary: st)
  case (Cons nOpt opts)
  then obtain ok1 st1 where step: "option_step k af F env nOpt st = Some (ok1, st1)"
      and rest: "(if ok1 then options_loop k af F env opts st1 else Some (False, st1)) = Some (ok, st')"
    by (auto split: Option.bind_split_asm)
  note first = settings_step [OF _ step]
  show ?case
  proof (cases ok1)
    case True
    then show ?thesis using Cons.IH [of st1] Cons.prems(2) rest first by auto
  qed (use Cons.prems(2) rest first in auto)
qed simp

lemma main_set_done:
  assumes "main_set k af env st = Some (True, st')" "fSetOptionsInKEXT st"
  obtains prefs d where "set_preferences k af (en_string env) (dm_prefs st) (dm_kext st) = Some (prefs, d)"
    "st' = st\<lparr>dm_kext := (prefs, d)\<rparr>"
  using assms that
  by (auto simp: main_set_def SetSettingsInKEXT_def set_preference_settings_def set_command_def aoeinterface_set_def
      split: prod.split_asm if_split_asm Option.bind_split_asm)

lemma main_save_done:
  "main_save F st = Some (True, st') \<Longrightarrow> dm_prefs st' = dm_prefs st \<and> dm_kext st' = dm_kext st \<and>
   fSetOptionsInKEXT st' = fSetOptionsInKEXT st \<and>
   (fSaveOptions st \<longrightarrow> store_settings F (dm_prefs st) (dm_file st) = Some (0, dm_file st'))"
  by (auto simp: main_save_def split: if_split_asm)

text \<open>What a successful run of the program with such options consists of.\<close>

lemma daemon_run:
  assumes "daemon_main k af F env memory opts (file, x) = Some (EXIT_SUCCESS, st)" "\<forall>y \<in> set opts. settings_option y"
  obtains p r q file1 st1 d where "new_preferences F (en_serial env) (en_name env) memory = Some p"
    "recall_settings F (GetNumberOfInterfaces (en_uninit env) (en_services env)) (p, file) = Some (r, q, file1)"
    "options_loop k af F env opts \<lparr>dm_prefs = q, dm_file = file1, dm_kext = x, dm_errno = False,
       fSaveOptions = True, fSetOptionsInKEXT = True, fWaitForKEXTToLoad = False\<rparr> = Some (True, st1)"
    "dm_prefs st1 = dm_prefs st" "set_preferences k af (en_string env) (dm_prefs st) x = Some (fst (dm_kext st), d)"
    "d = snd (dm_kext st)"
    "Opt_s \<notin> set opts \<longrightarrow> store_settings F (dm_prefs st) file1 = Some (0, dm_file st)"
proof -
  let ?st = "\<lambda>q file1. \<lparr>dm_prefs = q, dm_file = file1, dm_kext = x, dm_errno = False,
     fSaveOptions = True, fSetOptionsInKEXT = True, fWaitForKEXTToLoad = False\<rparr>"
  obtain p where p: "new_preferences F (en_serial env) (en_name env) memory = Some p"
    by (cases "new_preferences F (en_serial env) (en_name env) memory")
      (use assms(1) in \<open>simp_all add: daemon_main_def split: if_split_asm\<close>)
  obtain r q file1 where
    q: "recall_settings F (GetNumberOfInterfaces (en_uninit env) (en_services env)) (p, file) = Some (r, q, file1)"
    by (cases "recall_settings F (GetNumberOfInterfaces (en_uninit env) (en_services env)) (p, file)")
      (use assms(1) p in \<open>auto simp: daemon_main_def split: if_split_asm\<close>)
  have rest: "(do {
      (ok, st) \<leftarrow> options_loop k af F env opts (?st q file1);
      (if \<not> ok then Some (Aborted, st)
       else do {
         (saved, st) \<leftarrow> main_save F st;
         (if \<not> saved then Some (EXIT_FAILURE, st)
          else if fWaitForKEXTToLoad st \<and> \<not> en_kext env then None
          else do {
            (done, st) \<leftarrow> main_set k af env st;
            Some (if done then EXIT_SUCCESS else EXIT_FAILURE, st) }) }) }) = Some (EXIT_SUCCESS, st)"
    using assms(1) p q by (simp add: daemon_main_def split: if_split_asm)
  have "options_loop k af F env opts (?st q file1) \<noteq> None" using rest by (intro notI) simp
  then obtain ok st1 where l: "options_loop k af F env opts (?st q file1) = Some (ok, st1)" by fast
  then have loop: "options_loop k af F env opts (?st q file1) = Some (True, st1)"
    using rest by (cases ok) simp_all
  have "main_save F st1 \<noteq> None" using rest loop by (intro notI) simp
  then obtain saved st2 where m: "main_save F st1 = Some (saved, st2)" by fast
  then have save: "main_save F st1 = Some (True, st2)" using rest loop by (cases saved) simp_all
  have "main_set k af env st2 \<noteq> None" using rest loop save by (intro notI) (simp split: if_split_asm)
  then obtain set_done st3 where n: "main_set k af env st2 = Some (set_done, st3)" by fast
  then have set: "main_set k af env st2 = Some (True, st)"
    using rest loop save by (cases set_done) (simp_all split: if_split_asm)
  note kept = settings_options [OF loop assms(2)]
  note saved = main_save_done [OF save]
  have "fSetOptionsInKEXT st2" using kept saved by simp
  with set obtain prefs d where prefs: "set_preferences k af (en_string env) (dm_prefs st2) (dm_kext st2) = Some (prefs, d)"
    and st: "st = st2\<lparr>dm_kext := (prefs, d)\<rparr>"
    by (rule main_set_done)
  have same: "dm_prefs st1 = dm_prefs st" "dm_kext st2 = x" "dm_prefs st2 = dm_prefs st" "dm_file st = dm_file st2"
      "dm_kext st = (prefs, d)"
    unfolding st using kept saved by simp_all
  show thesis
  proof (rule that [OF p q loop same(1)])
    show "set_preferences k af (en_string env) (dm_prefs st) x = Some (fst (dm_kext st), d)" "d = snd (dm_kext st)"
      using prefs same by simp_all
    show "Opt_s \<notin> set opts \<longrightarrow> store_settings F (dm_prefs st) file1 = Some (0, dm_file st)"
      using kept saved same by auto
  qed
qed

text \<open>C20: when the program succeeds with options that concern the settings only, the ports enabled in the driver are
  exactly those of its final settings, at most six of them; these are also the preferences the extension keeps,
  so that the next run starts from the same relation; and unless \<open>-s\<close> is given they are in the file.\<close>

theorem daemon_applies_settings:
  assumes "daemon_main k af F env memory opts (file, previous, d) = Some (EXIT_SUCCESS, st)"
    "\<forall>y \<in> set opts. settings_option y" "driver_ready d" "family_ports af" "driver_ports d = unat ` set (ports previous)"
    "\<forall>n \<in> set (ports previous) \<union> set (ports (clamp_ports (dm_prefs st))). n < 6"
  shows "fst (dm_kext st) = clamp_ports (dm_prefs st) \<and> driver_ready (snd (dm_kext st)) \<and>
    driver_ports (snd (dm_kext st)) = unat ` set (ports (fst (dm_kext st))) \<and>
    (Opt_s \<notin> set opts \<longrightarrow> (\<exists>dict xml file1. settings_dictionary F (dm_prefs st) = Some dict \<and> cf_xml F dict = Some xml \<and>
       dm_file st = cf_write F xml file1))"
proof -
  from assms(1,2) obtain p r q file1 st1 d' where
    set: "set_preferences k af (en_string env) (dm_prefs st) (previous, d) = Some (fst (dm_kext st), d')" "d' = snd (dm_kext st)"
    and store: "Opt_s \<notin> set opts \<longrightarrow> store_settings F (dm_prefs st) file1 = Some (0, dm_file st)"
    by (rule daemon_run)
  have "\<exists>dict xml. settings_dictionary F (dm_prefs st) = Some dict \<and> cf_xml F dict = Some xml \<and>
      dm_file st = cf_write F xml file1" if "store_settings F (dm_prefs st) file1 = Some (0, dm_file st)"
    using that by (auto simp: store_settings_def split: Option.bind_split_asm if_split_asm option.split_asm)
  then show ?thesis
    using set_preferences_ports [OF set(1) assms(3-6)] set(2) store by blast
qed

text \<open>C9: the ports chosen in one run of the program after a restart: a later run without options, on a driver that starts from any
  ports, enables exactly the ports that come back from the file which the first run wrote; these are
  the ports of its settings when the objects of their numbers, which had been released, still held them.\<close>

theorem ports_survive_restart:
  assumes "daemon_main k af F env memory opts (file, x) = Some (EXIT_SUCCESS, st)" "\<forall>y \<in> set opts. settings_option y"
    "Opt_s \<notin> set opts" "cf_works F" "preferences_ok (dm_prefs st)"
    "daemon_main k' af' F env' memory' [] (dm_file st, previous, d) = Some (EXIT_SUCCESS, st')"
    "length (anEnabledPorts memory') = MAX_PORTS" "en_services env' = Some l" "length l \<le> MAX_PORTS"
    "driver_ready d" "family_ports af'" "driver_ports d = unat ` set (ports previous)" "\<forall>n \<in> set (ports previous). n < 6"
  shows "\<exists>read. port_values F (stored_ports F (dm_prefs st)) = Some read \<and>
    ((\<forall>n \<in> set read. n < 6) \<longrightarrow> driver_ports (snd (dm_kext st')) = unat ` set read) \<and>
    (stored_ports F (dm_prefs st) = map (\<lambda>n. CFNumber (sint n)) (ports (dm_prefs st)) \<longrightarrow> read = ports (dm_prefs st))"
proof -
  from assms(1,2) obtain p1 r1 q1 file1 st1 d1 where
    "Opt_s \<notin> set opts \<longrightarrow> store_settings F (dm_prefs st) file1 = Some (0, dm_file st)"
    by (rule daemon_run)
  then have store: "store_settings F (dm_prefs st) file1 = Some (0, dm_file st)" using assms(3) by simp
  from assms(6) obtain p2 r2 q2 file2 st2 d2 where
    p2: "new_preferences F (en_serial env') (en_name env') memory' = Some p2"
    and recall: "recall_settings F (GetNumberOfInterfaces (en_uninit env') (en_services env')) (p2, dm_file st) = Some (r2, q2, file2)"
    and loop: "options_loop k' af' F env' [] \<lparr>dm_prefs = q2, dm_file = file2, dm_kext = (previous, d), dm_errno = False,
       fSaveOptions = True, fSetOptionsInKEXT = True, fWaitForKEXTToLoad = False\<rparr> = Some (True, st2)" "dm_prefs st2 = dm_prefs st'"
    and set: "set_preferences k' af' (en_string env') (dm_prefs st') (previous, d) = Some (fst (dm_kext st'), d2)"
      "d2 = snd (dm_kext st')"
    by (rule daemon_run) simp
  have p2_ports: "length (anEnabledPorts p2) = MAX_PORTS" using p2 assms(7) by (auto simp: new_preferences_def)
  have n: "recall_settings F (int (length l)) (p2, dm_file st) = Some (r2, q2, file2)"
    using recall assms(8) by (simp add: GetNumberOfInterfaces_def)
  note stored = stored_settings_recalled [OF assms(4,5) p2_ports, of "int (length l)" file1]
  have "list_all plist (stored_ports F (dm_prefs st))" using stored store assms(9) by (auto split: if_split_asm)
  with stored store assms(9) n obtain read where
    read: "port_values F (stored_ports F (dm_prefs st)) = Some read" "recalled (dm_prefs st) read p2 q2"
    by (auto split: option.split_asm)
  then have q2: "ports q2 = read" "preferences_ok q2" by (simp_all add: recalled_def)
  have same: "dm_prefs st' = q2" using loop by auto
  have "clamp_ports q2 = q2" using q2(2) by (simp add: clamp_ports_def preferences_ok_def word_less_nat_alt)
  then have "driver_ports (snd (dm_kext st')) = unat ` set read" if "\<forall>n \<in> set read. n < 6"
    using set_preferences_ports [OF set(1) assms(10-12)] assms(13) set(2) q2(1) same that by (simp add: ball_Un)
  moreover have "read = ports (dm_prefs st)"
    if "stored_ports F (dm_prefs st) = map (\<lambda>n. CFNumber (sint n)) (ports (dm_prefs st))"
    using read(1) numbers_read(1) [of F "ports (dm_prefs st)"] that by simp
  ultimately show ?thesis using read(1) by blast
qed

definition example_environment :: environment where
  "example_environment = \<lparr>en_services = Some [Some ''en0'', Some ''en1''], en_ethernet = True,
     en_connect = \<lparr>co_root = True, co_socket = 3, co_ioctl = True, co_connect = 0\<rparr>, en_kext = True,
     en_serial = Some [67, 48, 50], en_name = Some [77, 97, 99], en_disk = (\<lambda>_. False), en_dissenter = (\<lambda>_. None),
     en_stack = replicate 1024 0, en_uninit = 0, en_long_max = 2147483647, en_string = True\<rparr>"

definition example_file :: cf where
  "example_file = CFDictionary [(''Version'', CFNumber 1), (''NumberOfPorts'', CFNumber 2),
     (''AvailablePorts'', CFArray [CFNumber 3, CFNumber 2]), (''TransferSize'', CFNumber 262144),
     (''MaxUserBlockCount'', CFNumber 128)]"

lemma ports_chosen:
  "case daemon_main example_kernel example_family example_foundation example_environment blank_preferences [Opt_e ''3,2'']
      (None, example_preferences [1], idle_driver) of
     Some (r, st) \<Rightarrow> r = EXIT_SUCCESS \<and> ports (dm_prefs st) = [3, 2] \<and> ports (clamp_ports (dm_prefs st)) = [3, 2] \<and>
       preferences_ok (dm_prefs st) \<and> dm_file st = Some example_file
   | None \<Rightarrow> False"
  by code_simp

lemma ports_again:
  "case daemon_main example_kernel example_family example_foundation example_environment blank_preferences []
      (Some example_file, example_preferences [1], idle_driver) of Some (r, _) \<Rightarrow> r = EXIT_SUCCESS | None \<Rightarrow> False"
  by code_simp

lemma idle_driver_relation:
  "driver_ready idle_driver" "driver_ports idle_driver = unat ` set (ports (example_preferences [1]))"
  "ports (example_preferences [1]) = [1]" "family_ports example_family"
proof -
  show "driver_ready idle_driver" "ports (example_preferences [1]) = [1]" by code_simp+
  moreover have "enabled_ports (interfaces (snd (dr_world idle_driver))) = [1]" by code_simp
  ultimately show "driver_ports idle_driver = unat ` set (ports (example_preferences [1]))"
    by (simp add: driver_ports_def)
  show "family_ports example_family" by (simp add: family_ports_def example_family_def)
qed

lemma ports_chosen_run:
  "\<exists>st. daemon_main example_kernel example_family example_foundation example_environment blank_preferences
      [Opt_e ''3,2''] (None, example_preferences [1], idle_driver) = Some (EXIT_SUCCESS, st) \<and>
    ports (dm_prefs st) = [3, 2] \<and> ports (clamp_ports (dm_prefs st)) = [3, 2] \<and> preferences_ok (dm_prefs st) \<and>
    dm_file st = Some example_file"
  using ports_chosen by (auto split: option.split_asm)

lemma ports_again_run:
  "file = Some example_file \<Longrightarrow> \<exists>st. daemon_main example_kernel example_family example_foundation example_environment
      blank_preferences [] (file, example_preferences [1], idle_driver) = Some (EXIT_SUCCESS, st)"
  using ports_again by (auto split: option.split_asm)

theorem daemon_applies_settings_witness:
  "\<exists>st. daemon_main example_kernel example_family example_foundation example_environment blank_preferences [Opt_e ''3,2'']
      (None, example_preferences [1], idle_driver) = Some (EXIT_SUCCESS, st) \<and> driver_ports (snd (dm_kext st)) = {2, 3}"
proof -
  obtain st where run: "daemon_main example_kernel example_family example_foundation example_environment
      blank_preferences [Opt_e ''3,2''] (None, example_preferences [1], idle_driver) = Some (EXIT_SUCCESS, st)"
    and new: "ports (clamp_ports (dm_prefs st)) = [3, 2]"
    using ports_chosen_run by (elim exE conjE) (rule that)
  have "\<forall>y \<in> set [Opt_e ''3,2'']. settings_option y" by (simp add: settings_option_def)
  moreover have "\<forall>n \<in> set (ports (example_preferences [1])) \<union> set (ports (clamp_ports (dm_prefs st))). n < 6"
    unfolding new idle_driver_relation(3) by simp
  ultimately have "fst (dm_kext st) = clamp_ports (dm_prefs st)"
      "driver_ports (snd (dm_kext st)) = unat ` set (ports (fst (dm_kext st)))"
    using daemon_applies_settings [OF run _ idle_driver_relation(1,4,2)] by blast+
  then have "driver_ports (snd (dm_kext st)) = {2, 3}" using new by (simp add: insert_commute)
  with run show ?thesis by (intro exI conjI)
qed

theorem ports_survive_restart_witness:
  "\<exists>st st'. daemon_main example_kernel example_family example_foundation example_environment blank_preferences [Opt_e ''3,2'']
      (None, example_preferences [1], idle_driver) = Some (EXIT_SUCCESS, st) \<and>
    daemon_main example_kernel example_family example_foundation example_environment blank_preferences []
      (dm_file st, example_preferences [1], idle_driver) = Some (EXIT_SUCCESS, st') \<and>
    driver_ports (snd (dm_kext st')) = {2, 3}"
proof -
  obtain st where run: "daemon_main example_kernel example_family example_foundation example_environment
      blank_preferences [Opt_e ''3,2''] (None, example_preferences [1], idle_driver) = Some (EXIT_SUCCESS, st)"
    and new: "ports (dm_prefs st) = [3, 2]" "preferences_ok (dm_prefs st)" "dm_file st = Some example_file"
    using ports_chosen_run by (elim exE conjE) (rule that)
  obtain st' where again: "daemon_main example_kernel example_family example_foundation example_environment
      blank_preferences [] (dm_file st, example_preferences [1], idle_driver) = Some (EXIT_SUCCESS, st')"
    using ports_again_run [OF new(3)] by (elim exE) (rule that)
  have opts: "\<forall>y \<in> set [Opt_e ''3,2'']. settings_option y" "Opt_s \<notin> set [Opt_e ''3,2'']"
    by (simp_all add: settings_option_def)
  have env: "length (anEnabledPorts blank_preferences) = MAX_PORTS"
      "en_services example_environment = Some [Some ''en0'', Some ''en1'']" "length [Some ''en0'', Some ''en1''] \<le> MAX_PORTS"
    by (simp_all add: blank_preferences_def example_environment_def)
  have small: "\<forall>n \<in> set (ports (example_preferences [1])). n < 6" unfolding idle_driver_relation(3) by simp
  have "\<forall>n \<in> set (ports (dm_prefs st)). n < 6" unfolding new(1) by simp
  then have "driver_ports (snd (dm_kext st')) = unat ` set (ports (dm_prefs st))"
    using ports_survive_restart [OF run opts example_foundation_works(1) new(2) again env idle_driver_relation(1,4,2) small]
      example_foundation_works(2) by auto
  also have "\<dots> = {2, 3}" using new(1) by (simp add: insert_commute)
  finally show ?thesis using run again by (intro exI conjI)
qed

section \<open>The configuration string\<close>

lemma skip_phrase_space: "32 \<notin> set xs \<Longrightarrow> skip_phrase (xs @ 32 # ys) = Some ys"
  by (induction xs) auto

lemma strncmp_eq_prefix: "0 \<notin> set a \<Longrightarrow> strncmp_eq (length a) (a @ xs) (a @ ys)"
  by (induction a) auto

lemma prefix_bytes: "0 \<notin> set APPLE_DRIVER_PREFIX" "32 \<notin> set APPLE_DRIVER_PREFIX" "length APPLE_DRIVER_PREFIX = 16"
  by code_simp+

lemma unique_prefixed: "prefixed (unique_string serial name)"
  using strncmp_eq_prefix [OF prefix_bytes(1)] by (simp add: prefixed_def unique_string_def)

text \<open>C35: the configuration string that a computer writes to the targets it claims names its owner, and is recognised as
  its own by exactly the computers with the same serial number, among those whose serial number has the same
  length, where the serial numbers are ASCII; a computer whose serial number is empty does not recognise its own. A string of the driver without a space makes the search for the owner run past its end.\<close>

theorem owner_named:
  assumes "32 \<notin> set serial" "length s = length serial" "\<forall>b \<in> set serial \<union> set s. b < 128"
  shows "get_owner_from_cstr (unique_string serial name) = Some name \<and>
    cstr_ours (Some s) (Some (unique_string serial name)) = Some (if s = serial \<and> s \<noteq> [] then 0 else - 1) \<and>
    get_owner_from_cstr APPLE_DRIVER_PREFIX = None"
proof (intro conjI)
  show "get_owner_from_cstr (unique_string serial name) = Some name"
    using assms(1) skip_phrase_space [OF prefix_bytes(2)] skip_phrase_space [of serial name] unique_prefixed [of serial name]
    by (simp add: get_owner_from_cstr_def) (simp add: unique_string_def)
  show "cstr_ours (Some s) (Some (unique_string serial name)) = Some (if s = serial \<and> s \<noteq> [] then 0 else - 1)"
  proof -
    have "drop 17 (unique_string serial name) = serial @ 32 # name" "length (unique_string serial name) = 18 + length serial + length name"
      by (simp_all add: unique_string_def prefix_bytes(3))
    then show ?thesis
      using assms(2) unique_prefixed [of serial name] by (simp add: cstr_ours_def prefix_bytes(3) Let_def)
  qed
  show "get_owner_from_cstr APPLE_DRIVER_PREFIX = None" by code_simp
qed

theorem owner_named_witness:
  "get_owner_from_cstr (unique_string [67, 48, 50] [77, 97, 99]) = Some [77, 97, 99] \<and>
   cstr_ours (Some [67, 48, 51]) (Some (unique_string [67, 48, 50] [77, 97, 99])) = Some (- 1)"
  using owner_named [of "[67, 48, 50]" "[67, 48, 51]" "[77, 97, 99]"] by simp

end
