(* ===== verification/PrefsPaneProps.thy ===== *)
theory PrefsPaneProps
  imports PrefsPane SettingsProps
begin

unbundle bit_operations_syntax

text \<open>
  The ports of the preference pane: those whose buttons are on are exactly those that the driver enables, as long as
  they are four at most.
\<close>

section \<open>The ports argument\<close>

definition pressed :: "bool list \<Rightarrow> nat \<Rightarrow> nat list" where
  "pressed buttons n = filter (\<lambda>i. buttons ! i) [0..<n]"

definition digit :: "nat \<Rightarrow> char" where
  "digit i = char_of (48 + i)"

text \<open>The buffer after the numbers \<open>ds\<close>.\<close>

definition port_buffer :: "nat list \<Rightarrow> string" where
  "port_buffer ds = ''-e'' @ concat (map (\<lambda>i. [digit i, CHR '','']) ds) @ replicate (8 - 2 * length ds) NUL"

definition comma_list :: "nat list \<Rightarrow> string" where
  "comma_list ds = butlast (concat (map (\<lambda>i. [digit i, CHR '','']) ds))"

lemma length_pairs: "length (concat (map (\<lambda>i. [f i, c]) ds)) = 2 * length ds"
  by (induction ds) simp_all

lemma write_pair: "(xs @ a # b # ys)[length xs := u, Suc (length xs) := v] = xs @ u # v # ys"
  by (simp add: list_update_append)

lemma port_buffer_snoc:
  assumes "length ds < 4"
  shows "(port_buffer ds)[2 + length ds * 2 := digit n, 3 + length ds * 2 := CHR '',''] = port_buffer (ds @ [n])"
proof -
  let ?xs = "''-e'' @ concat (map (\<lambda>i. [digit i, CHR '','']) ds)"
  have "replicate (8 - 2 * length ds) NUL = NUL # NUL # replicate (8 - 2 * length (ds @ [n])) NUL"
    using assms by (simp add: numeral_eq_Suc Suc_diff_le [symmetric] flip: replicate_Suc)
  then have "port_buffer ds = ?xs @ NUL # NUL # replicate (8 - 2 * length (ds @ [n])) NUL"
    by (simp add: port_buffer_def)
  moreover have "length ?xs = 2 + length ds * 2" by (simp add: length_pairs)
  ultimately show ?thesis
    using write_pair [of ?xs NUL NUL "replicate (8 - 2 * length (ds @ [n])) NUL" "digit n" "CHR '',''"]
    by (simp add: port_buffer_def)
qed

lemma length_port_buffer: "length ds \<le> 4 \<Longrightarrow> length (port_buffer ds) = 10"
  by (simp add: port_buffer_def length_pairs)

lemma fill_ports_pressed:
  assumes "n + count \<le> length buttons" "length ds \<le> 4"
  shows "fill_ports buttons n count (length ds) (port_buffer ds) =
    (let all = ds @ filter (\<lambda>i. buttons ! i) [n..<n + count] in
     if length all \<le> 4 then Some (length all, port_buffer all) else None)"
  using assms
proof (induction count arbitrary: n ds)
  case (Suc count)
  have range: "[n..<n + Suc count] = n # [Suc n..<Suc n + count]" by (simp add: upt_rec)
  show ?case
  proof (cases "buttons ! n \<and> length ds < 4")
    case True
    then show ?thesis
      using Suc.prems Suc.IH [of "Suc n" "ds @ [n]"] port_buffer_snoc [of ds n] range
      by (simp add: length_port_buffer digit_def)
  next
    case False
    then show ?thesis
      using Suc.prems Suc.IH [of "Suc n" ds] range by (auto simp: length_port_buffer Let_def)
  qed
qed (simp add: Let_def)

lemma digit_code: "i \<le> 9 \<Longrightarrow> of_char (digit i) = 48 + i"
  by (simp add: digit_def of_char_of)

lemma digit_neq:
  "i \<le> 9 \<Longrightarrow> digit i \<noteq> NUL" "i \<le> 9 \<Longrightarrow> digit i \<noteq> CHR '',''"
proof -
  assume i: "i \<le> 9"
  show "digit i \<noteq> NUL" using digit_code [OF i] by (intro notI) simp
  show "digit i \<noteq> CHR '',''" using digit_code [OF i] by (intro notI) simp
qed

lemma pairs_snoc: "concat (map (\<lambda>i. [digit i, CHR '','']) (ds @ [d])) = comma_list (ds @ [d]) @ [CHR '','']"
  by (simp add: comma_list_def butlast_append)

lemma comma_list_Cons:
  "comma_list (d # ds) = digit d # (if ds = [] then [] else CHR '','' # comma_list ds)"
  by (simp add: comma_list_def)

lemma comma_list_no_end: "\<forall>d \<in> set ds. d \<le> 9 \<Longrightarrow> NUL \<notin> set (comma_list ds)"
  by (induction ds) (simp_all add: comma_list_Cons digit_neq comma_list_def [of "[]"] digit_neq [symmetric])

lemma takeWhile_end: "NUL \<notin> set xs \<Longrightarrow> takeWhile (\<lambda>c. c \<noteq> NUL) (xs @ NUL # ys) = xs"
  by (induction xs) auto

lemma ports_argument_pressed:
  assumes "n \<le> length buttons" "n \<le> MAX_PORTS"
  shows "ports_argument buttons (int n) =
    (if length (pressed buttons n) \<le> 4 then Some (''-e'' @ comma_list (pressed buttons n)) else None)"
proof -
  let ?all = "pressed buttons n"
  have start: "''-e'' @ replicate 8 NUL = port_buffer []" by (simp add: port_buffer_def)
  have fill: "fill_ports buttons 0 (nat (int n)) 0 (''-e'' @ replicate 8 NUL) =
      (if length ?all \<le> 4 then Some (length ?all, port_buffer ?all) else None)"
    unfolding start using fill_ports_pressed [of 0 n buttons "[]"] assms(1) by (simp add: pressed_def Let_def)
  have digits: "NUL \<notin> set (comma_list ?all)"
    by (rule comma_list_no_end) (use assms(2) in \<open>auto simp: pressed_def\<close>)
  show ?thesis
  proof (cases ?all rule: rev_cases)
    case Nil
    then show ?thesis using fill by (simp add: ports_argument_def port_buffer_def comma_list_def numeral_eq_Suc)
  next
    case (snoc ds d)
    let ?rest = "replicate (8 - 2 * length ?all) NUL"
    have "port_buffer ?all = (''-e'' @ comma_list ?all) @ CHR '','' # ?rest"
      unfolding port_buffer_def snoc pairs_snoc by simp
    moreover have "length (''-e'' @ comma_list ?all) = 3 + (length ?all - 1) * 2"
      using length_pairs [of digit "CHR '',''" ?all] unfolding snoc pairs_snoc by simp
    ultimately have "(port_buffer ?all)[3 + (length ?all - 1) * 2 := NUL] = (''-e'' @ comma_list ?all) @ NUL # ?rest"
      by (metis list_update_length)
    moreover have "takeWhile (\<lambda>c. c \<noteq> NUL) ((''-e'' @ comma_list ?all) @ NUL # ?rest) = ''-e'' @ comma_list ?all"
      by (rule takeWhile_end) (use digits in simp)
    ultimately show ?thesis using fill snoc by (simp add: ports_argument_def Let_def)
  qed
qed

section \<open>What aoed makes of it\<close>

lemma split_digits:
  "ds \<noteq> [] \<Longrightarrow> \<forall>d \<in> set ds. d \<le> 9 \<Longrightarrow> split_commas (comma_list ds) = map (\<lambda>d. [digit d]) ds"
proof (induction ds)
  case (Cons d ds)
  then show ?case by (cases ds) (simp_all add: comma_list_Cons digit_neq)
qed simp

lemma strtok_digits:
  assumes "\<forall>d \<in> set ds. d \<le> 9"
  shows "strtok_commas (comma_list ds) = map (\<lambda>d. [digit d]) ds"
proof (cases "ds = []")
  case False
  then show ?thesis using split_digits [OF False assms] by (simp add: strtok_commas_def filter_map comp_def)
qed (simp add: strtok_commas_def comma_list_def)

lemma strtol_digit:
  assumes "d \<le> 9" "9 \<le> long_max"
  shows "strtol long_max [digit d] = (int d, None)"
proof -
  have code: "(of_char (digit d) :: nat) = 48 + d" "(of_char (digit d) :: int) = 48 + int d"
    using digit_code [OF assms(1)] of_nat_of_char [of "digit d", where 'a = int] by simp_all
  then have "is_digit (digit d)" "\<not> is_space (digit d)" "digit d \<noteq> CHR ''-''" "digit d \<noteq> CHR ''+''"
    using assms(1) by (auto simp: is_digit_def is_space_def)
  then show ?thesis using assms code by (simp add: strtol_def Let_def digits_value_def)
qed

lemma parse_digits:
  assumes "9 \<le> long_max"
  shows "\<forall>d \<in> set ds. d \<le> 9 \<Longrightarrow> n + length ds \<le> MAX_PORTS \<Longrightarrow>
    parse_ports long_max n (map (\<lambda>d. [digit d]) ds) False = Some (Inr (map int ds, False))"
  by (induction ds arbitrary: n) (simp_all add: strtol_digit [OF _ assms] s32_id)

lemma unat_small_int: "n \<le> 9 \<Longrightarrow> unat (of_nat n :: u32) = n"
  by (simp add: unat_of_nat take_bit_nat_eq_self)

lemma set_available_small:
  assumes "set_available_ports (int (length ds)) (map int ds) q = Some q'" "\<forall>d \<in> set ds. d \<le> 9" "length ds \<le> 4"
  shows "unat (nNumberOfPorts q') = length ds \<and> map unat (ports q') = ds"
proof -
  have q': "q' = q\<lparr>nNumberOfPorts := of_nat (length ds),
      anEnabledPorts := map word_of_int (map int ds) @ drop (length ds) (anEnabledPorts q)\<rparr>"
    using assms(1,3) by (simp add: set_available_ports_def Let_def split: if_split_asm)
  have "unat (of_nat (length ds) :: u32) = length ds" using assms(3) by (simp add: unat_small_int)
  moreover have "map unat (map word_of_int (map int ds) :: u32 list) = ds"
    using assms(2) by (induction ds) (simp_all add: unat_small_int)
  ultimately show ?thesis by (simp add: q' ports_def del: map_map)
qed

lemma ports_option_digits:
  assumes "option_step k af F env (Opt_e (comma_list ds)) st = Some (ok, st')" "\<forall>d \<in> set ds. d \<le> 9" "length ds \<le> 4"
    "9 \<le> en_long_max env" "\<not> dm_errno st"
  shows "set_available_ports (int (length ds)) (map int ds) (dm_prefs st) = Some (dm_prefs st')"
proof -
  have "parse_ports (en_long_max env) 0 (strtok_commas (comma_list ds)) False = Some (Inr (map int ds, False))"
    using parse_digits [OF assms(4,2), of 0] assms(3) strtok_digits [OF assms(2)] by simp
  then show ?thesis
    using assms(1,5) by (auto simp: option_step_def ports_option_def split: Option.bind_split_asm)
qed

lemma handle_en_press_argument:
  assumes "handle_en_press arrange exists disable nEN nRow p = Some (Some arg, p')"
    "length (m_apENButtons p) = MAX_PORTS" "m_nNumOfEthernetPorts p = int n" "n \<le> MAX_PORTS"
  shows "length (pressed (m_apENButtons p) n) \<le> 4 \<and> arg = ''-e'' @ comma_list (pressed (m_apENButtons p) n)"
proof -
  have "ports_argument (m_apENButtons p) (int n) = Some arg"
    using assms(1,3)
    by (auto simp: handle_en_press_def set_en_interfaces_def send_to_aoed_def Let_def
        split: if_split_asm Option.bind_split_asm prod.split_asm)
  then show ?thesis using ports_argument_pressed [of n "m_apENButtons p"] assms(2,4) by (simp split: if_split_asm)
qed

lemma getopt_ports:
  "getopt_argument (''-e'' @ comma_list ds) = [if ds = [] then Opt_missing CHR ''e'' else Opt_e (comma_list ds)]"
  by (cases ds) (simp_all add: getopt_argument_def with_argument_def comma_list_Cons comma_list_def [of "[]"])

text \<open>C22: the ports whose buttons are on when one of them is pressed are exactly those that the driver enables when the
  command of the pane succeeds, at most four of them: a fifth one leaves the buffer of the argument, so
  that no such run exists.\<close>

theorem pane_enables_ports:
  assumes "handle_en_press arrange exists disable nEN nRow p = Some (Some arg, p')"
    "length (m_apENButtons p) = MAX_PORTS" "m_nNumOfEthernetPorts p = int n" "n \<le> MAX_PORTS"
    "daemon_main k af F env memory (getopt_argument arg) (file, previous, d) = Some (EXIT_SUCCESS, st)"
    "9 \<le> en_long_max env" "driver_ready d" "family_ports af" "driver_ports d = unat ` set (ports previous)"
    "\<forall>i \<in> set (ports previous). i < 6"
  shows "card {i. i < n \<and> m_apENButtons p ! i} \<le> 4 \<and>
    driver_ports (snd (dm_kext st)) = {i. i < n \<and> m_apENButtons p ! i}"
proof -
  let ?on = "pressed (m_apENButtons p) n"
  have set_on: "set ?on = {i. i < n \<and> m_apENButtons p ! i}" by (auto simp: pressed_def)
  have four: "length ?on \<le> 4" and opts: "getopt_argument arg = [if ?on = [] then Opt_missing CHR ''e'' else Opt_e (comma_list ?on)]"
    using handle_en_press_argument [OF assms(1-4)] getopt_ports by auto
  have "\<forall>y \<in> set (getopt_argument arg). settings_option y" by (simp add: opts settings_option_def)
  with assms(5) obtain q file1 st1 d' where
    loop: "options_loop k af F env (getopt_argument arg) \<lparr>dm_prefs = q, dm_file = file1, dm_kext = (previous, d), dm_errno = False,
       fSaveOptions = True, fSetOptionsInKEXT = True, fWaitForKEXTToLoad = False\<rparr> = Some (True, st1)" "dm_prefs st1 = dm_prefs st"
    and set: "set_preferences k af (en_string env) (dm_prefs st) (previous, d) = Some (fst (dm_kext st), d')" "d' = snd (dm_kext st)"
    by (rule daemon_run)
  have small: "\<forall>i \<in> set ?on. i \<le> 9 \<and> i < 6" using set_on assms(4) by auto
  have "set_available_ports (int (length ?on)) (map int ?on) q = Some (dm_prefs st)"
  proof (cases "?on = []")
    case True
    then show ?thesis using loop opts by (auto simp: option_step_def split: Option.bind_split_asm)
  next
    case False
    then show ?thesis
      using loop opts four small assms(6) ports_option_digits [of k af F env ?on]
      by (fastforce split: Option.bind_split_asm if_split_asm)
  qed
  then have new: "unat (nNumberOfPorts (dm_prefs st)) = length ?on" "map unat (ports (dm_prefs st)) = ?on"
    using set_available_small [of ?on q] small four by auto
  then have ports: "unat ` set (ports (dm_prefs st)) = set ?on" using new(2) by (metis set_map)
  have clamp: "clamp_ports (dm_prefs st) = dm_prefs st"
    using new(1) four by (simp add: clamp_ports_def word_less_nat_alt)
  have "\<forall>i \<in> set (ports (dm_prefs st)). i < 6"
    using ports small by (auto simp: word_less_nat_alt)
  with assms(10) clamp have "\<forall>i \<in> set (ports previous) \<union> set (ports (clamp_ports (dm_prefs st))). i < 6" by auto
  then have "driver_ports (snd (dm_kext st)) = set ?on"
    using set_preferences_ports [OF set(1) assms(7-9)] set(2) ports clamp by simp
  moreover have "card (set ?on) \<le> 4" using four card_length le_trans by blast
  ultimately show ?thesis using set_on by simp
qed

definition example_pane :: pane where
  "example_pane = \<lparr>m_apENButtons = [False, False, True, True, False, False], m_nNumOfEthernetPorts = 4,
     m_fDriverLoaded = True, m_pTargets = [], pn_authorised = True, pn_unlocks = False, pn_claim_enabled = False,
     pn_controls_enabled = True, pn_table_enabled = True, pn_unclaim_title = False,
     pn_columns = [(''Shelf'', Some True), (''Slot'', None)]\<rparr>"

definition unsorted :: arrange where
  "unsorted key ascending ts = ts"

lemma pane_run:
  "case handle_en_press unsorted True True 3 (- 1) example_pane of Some (Some arg, _) \<Rightarrow> arg = ''-e2,3'' | _ \<Rightarrow> False"
  "getopt_argument ''-e2,3'' = [Opt_e ''2,3'']"
  by code_simp+

lemma pane_daemon_run:
  "case daemon_main example_kernel example_family example_foundation example_environment blank_preferences [Opt_e ''2,3'']
      (None, example_preferences [1], idle_driver) of Some (r, st) \<Rightarrow> r = EXIT_SUCCESS | None \<Rightarrow> False"
  by code_simp

theorem pane_enables_ports_witness:
  "\<exists>arg p' st. handle_en_press unsorted True True 3 (- 1) example_pane = Some (Some arg, p') \<and>
    daemon_main example_kernel example_family example_foundation example_environment blank_preferences
      (getopt_argument arg) (None, example_preferences [1], idle_driver) = Some (EXIT_SUCCESS, st) \<and>
    driver_ports (snd (dm_kext st)) = {2, 3}"
proof -
  obtain p' where press: "handle_en_press unsorted True True 3 (- 1) example_pane = Some (Some ''-e2,3'', p')"
    using pane_run(1) by (auto split: option.split_asm)
  obtain st where run: "daemon_main example_kernel example_family example_foundation example_environment blank_preferences
      (getopt_argument ''-e2,3'') (None, example_preferences [1], idle_driver) = Some (EXIT_SUCCESS, st)"
    using pane_daemon_run by (auto simp: pane_run(2) split: option.split_asm)
  have pane: "length (m_apENButtons example_pane) = MAX_PORTS" "m_nNumOfEthernetPorts example_pane = int 4" "4 \<le> MAX_PORTS"
      "9 \<le> en_long_max example_environment"
    by (simp_all add: example_pane_def example_environment_def)
  have small: "\<forall>i \<in> set (ports (example_preferences [1])). i < 6" by (simp add: idle_driver_relation(3))
  have "{i. i < 4 \<and> m_apENButtons example_pane ! i} = {2, 3}"
    by (auto simp: example_pane_def less_Suc_eq numeral_eq_Suc)
  then have "driver_ports (snd (dm_kext st)) = {2, 3}"
    using pane_enables_ports [OF press pane(1-3) run pane(4) idle_driver_relation(1,4,2) small] by simp
  then show ?thesis using press run by (intro exI conjI)
qed

section \<open>Showing the ports\<close>

definition ports_published :: "world \<Rightarrow> bool" where
  "ports_published w \<longleftrightarrow> prop_enabled (m_pInterfaces (service_of w)) =
     (if enabled_ports (m_pInterfaces (service_of w)) = [] then None else Some (enabled_ports (m_pInterfaces (service_of w))))"

text \<open>Every update of the property establishes this, as long as the count of the ports in use is right.\<close>

lemma length_enabled_ports: "length (enabled_ports I) = length (filter m_fEnabled (m_aInterfaces I))"
proof -
  have "filter m_fEnabled (m_aInterfaces I) = map ((!) (m_aInterfaces I)) (enabled_ports I)"
    unfolding enabled_ports_def using filter_map [of m_fEnabled "(!) (m_aInterfaces I)" "[0..<length (m_aInterfaces I)]"]
    by (simp add: map_nth comp_def)
  then show ?thesis by (simp only: length_map)
qed

lemma update_publishes:
  assumes "in_use_ok (m_pInterfaces (service_of w))" "\<And>n. OSArray_ok k n"
  shows "ports_published (on_service (\<lambda>s. s\<lparr>m_pInterfaces := EInterfaces_update_interface_property k (m_pInterfaces s)\<rparr>) w)"
  using assms length_enabled_ports [of "m_pInterfaces (service_of w)"]
  by (auto simp: ports_published_def on_service_def EInterfaces_update_interface_property_def in_use_ok_def enabled_ports_def)

lemma get_en_interfaces_published:
  assumes "ports_published w"
  shows "get_en_interfaces (int n) \<lparr>m_fMatched = b, m_OurObject = Some w\<rparr> =
    (if n < length (enabled_ports (m_pInterfaces (service_of w)))
     then Some (0, Some (enabled_ports (m_pInterfaces (service_of w)) ! n)) else Some (- 1, None))"
  using assms by (auto simp: get_en_interfaces_def ports_published_def)

lemma restore_buttons_all:
  assumes "\<And>i. get_en_interfaces (int i) props = (if i < length l then Some (0, Some (l ! i)) else Some (- 1, None))"
  shows "length l \<le> n + m \<Longrightarrow> \<forall>i \<in> set l. i < length buttons \<Longrightarrow> \<exists>buttons'. restore_buttons props n m buttons = Some buttons' \<and>
    length buttons' = length buttons \<and> (\<forall>i < length buttons. buttons' ! i = (buttons ! i \<or> i \<in> set (drop n l)))"
proof (induction m arbitrary: n buttons)
  case (Suc m)
  show ?case
  proof (cases "n < length l")
    case True
    then have l: "l ! n < length buttons" using Suc.prems(2) by simp
    obtain buttons' where "restore_buttons props (Suc n) m (buttons[l ! n := True]) = Some buttons'"
        "length buttons' = length buttons"
        "\<forall>i < length buttons. buttons' ! i = (buttons[l ! n := True] ! i \<or> i \<in> set (drop (Suc n) l))"
      using Suc.IH [of "Suc n" "buttons[l ! n := True]"] Suc.prems by auto
    moreover have "set (drop n l) = insert (l ! n) (set (drop (Suc n) l))"
      using True by (simp flip: Cons_nth_drop_Suc)
    ultimately show ?thesis using True l assms [of n] by (auto simp: nth_list_update)
  next
    case False
    then show ?thesis using Suc.IH [of "Suc n" buttons] Suc.prems assms [of n] by auto
  qed
qed simp

lemma enabled_ports_count:
  assumes "\<forall>i \<in> set (enabled_ports I). i < n"
  shows "length (enabled_ports I) \<le> n"
proof -
  have "set (enabled_ports I) \<subseteq> {..<n}" using assms by auto
  then have "card (set (enabled_ports I)) \<le> n" using card_mono [of "{..<n}"] by fastforce
  moreover have "distinct (enabled_ports I)" by (simp add: enabled_ports_def)
  ultimately show ?thesis by (simp add: distinct_card)
qed

text \<open>C36: when the pane is loaded, exactly the buttons of the ports that the driver publishes as enabled are on.\<close>

theorem buttons_show_ports:
  assumes "ports_published w" "\<forall>i \<in> set (enabled_ports (m_pInterfaces (service_of w))). i < n" "n \<le> MAX_PORTS"
    "m_nNumOfEthernetPorts p = int n" "length (m_apENButtons p) = MAX_PORTS" "\<forall>i < MAX_PORTS. n \<le> i \<longrightarrow> \<not> m_apENButtons p ! i"
  shows "\<exists>p'. mainViewDidLoad True (Some w) p = Some p' \<and> length (m_apENButtons p') = MAX_PORTS \<and>
    (\<forall>i < MAX_PORTS. m_apENButtons p' ! i = (i \<in> set (enabled_ports (m_pInterfaces (service_of w)))))"
proof -
  let ?l = "enabled_ports (m_pInterfaces (service_of w))"
  let ?off = "replicate n False @ drop n (m_apENButtons p)"
  let ?props = "\<lparr>m_fMatched = True, m_OurObject = Some w\<rparr>"
  have off: "length ?off = MAX_PORTS" "\<forall>i < MAX_PORTS. \<not> ?off ! i"
    using assms(3,5,6) by (auto simp: nth_append)
  have "\<forall>i \<in> set ?l. i < length ?off" using assms(2,3) off(1) by fastforce
  then obtain buttons where buttons: "restore_buttons ?props 0 n ?off = Some buttons"
      "length buttons = length ?off" "\<forall>i < length ?off. buttons ! i = (?off ! i \<or> i \<in> set (drop 0 ?l))"
    using restore_buttons_all [of ?props ?l 0 n ?off] get_en_interfaces_published [OF assms(1)]
      enabled_ports_count [OF assms(2)]
    by (metis add_0)
  have "configure_matching True (Some w) new_properties = (0, ?props)"
    by (simp add: configure_matching_def matched_callback_def new_properties_def)
  then have "mainViewDidLoad True (Some w) p = Some (p\<lparr>m_apENButtons := buttons,
      pn_columns := map (\<lambda>(c, i). (c, if c = ''Shelf'' then Some True else i)) (pn_columns p)\<rparr>)"
    using assms(3-5) buttons(1) by (simp add: mainViewDidLoad_def)
  then show ?thesis using buttons(2,3) off by simp
qed

definition example_shown :: world where
  "example_shown = on_service (\<lambda>s. s\<lparr>m_pInterfaces := EInterfaces_update_interface_property example_kernel (m_pInterfaces s)\<rparr>)
     (dr_world idle_driver)"

lemma example_shown_ports:
  "ports_published example_shown" "enabled_ports (m_pInterfaces (service_of example_shown)) = [1]"
proof -
  have "in_use_ok (m_pInterfaces (service_of (dr_world idle_driver)))" unfolding in_use_ok_def by code_simp
  then show "ports_published example_shown"
    unfolding example_shown_def by (rule update_publishes) (simp add: example_kernel_def)
  show "enabled_ports (m_pInterfaces (service_of example_shown)) = [1]" by code_simp
qed

theorem buttons_show_ports_witness:
  "\<exists>p'. mainViewDidLoad True (Some example_shown) (example_pane\<lparr>m_apENButtons := replicate 6 False\<rparr>) = Some p' \<and>
    m_apENButtons p' ! 1 \<and> \<not> m_apENButtons p' ! 2"
proof -
  have "\<forall>i \<in> set (enabled_ports (m_pInterfaces (service_of example_shown))). i < 4" by (simp add: example_shown_ports(2))
  then have "\<exists>p'. mainViewDidLoad True (Some example_shown) (example_pane\<lparr>m_apENButtons := replicate 6 False\<rparr>) = Some p' \<and>
      length (m_apENButtons p') = MAX_PORTS \<and> (\<forall>i < MAX_PORTS. m_apENButtons p' ! i = (i \<in> {1}))"
    using buttons_show_ports [OF example_shown_ports(1), of 4 "example_pane\<lparr>m_apENButtons := replicate 6 False\<rparr>"]
    by (simp add: example_shown_ports(2) example_pane_def)
  then show ?thesis by auto
qed

end
