(* ===== verification/DeviceProps.thy ===== *)
theory DeviceProps
  imports Device
begin

unbundle bit_operations_syntax

text \<open>
  What the disk publishes once its identify data has arrived: the strings, the size of the drive and the type
  invariant of the identify buffer.
\<close>

section \<open>Swapping bytes\<close>

fun swap_pairs :: "'a list \<Rightarrow> 'a list" where
  "swap_pairs (x # y # zs) = y # x # swap_pairs zs"
| "swap_pairs zs = zs"

lemma length_swap_pairs [simp]: "length (swap_pairs xs) = length xs"
  by (induction xs rule: swap_pairs.induct) auto

lemma swap_pairs_twice [simp]: "swap_pairs (swap_pairs xs) = xs"
  by (induction xs rule: swap_pairs.induct) auto

lemma length_swap_loop: "swap_loop i len off b = Some b' \<Longrightarrow> length b' = length b"
  by (induction i len off b rule: swap_loop.induct) (subst (asm) swap_loop.simps, simp split: if_split_asm)

lemma swap_step:
  assumes "n + 1 < length b"
  shows "take (n + 2) (b[n := b ! (n + 1), n + 1 := b ! n]) = take n b @ [b ! (n + 1), b ! n]"
    "drop (n + 2) (b[n := b ! (n + 1), n + 1 := b ! n]) = drop (n + 2) b"
    "drop n b = b ! n # b ! (n + 1) # drop (n + 2) b"
  using assms by (simp_all add: take_Suc_conv_app_nth Cons_nth_drop_Suc)

lemma swap_loop_pairs:
  "off + len \<le> length b \<Longrightarrow> even len \<Longrightarrow> even i \<Longrightarrow> i \<le> len \<Longrightarrow>
   swap_loop i len off b =
     Some (take (off + i) b @ swap_pairs (take (len - i) (drop (off + i) b)) @ drop (off + len) b)"
proof (induction i len off b rule: swap_loop.induct)
  case (1 i len off b)
  show ?case
  proof (cases "len \<le> i")
    case False
    let ?n = "off + i" let ?b = "b[?n := b ! (?n + 1), ?n + 1 := b ! ?n]"
    have room: "i + 2 \<le> len" "?n + 1 < length b"
      using False 1(2-5) by presburger+
    note step = swap_step [OF room(2)]
    have "swap_loop (i + 2) len off ?b = Some (take (off + (i + 2)) ?b @
        swap_pairs (take (len - (i + 2)) (drop (off + (i + 2)) ?b)) @ drop (off + len) ?b)"
      using False room 1(2-5) by (intro 1(1)) auto
    also have "drop (off + len) ?b = drop (off + len) b" using room by simp
    finally have "swap_loop (i + 2) len off ?b = Some (take ?n b @
        b ! (?n + 1) # b ! ?n # swap_pairs (take (len - (i + 2)) (drop (?n + 2) b)) @ drop (off + len) b)"
      using step(1,2) by (simp only: add.assoc [symmetric] append.assoc append_Cons append_Nil)
    moreover have "take (len - i) (drop ?n b) = b ! ?n # b ! (?n + 1) # take (len - (i + 2)) (drop (?n + 2) b)"
      using room(1) step(3) by (simp add: take_Cons')
    ultimately show ?thesis
      using False room by (subst swap_loop.simps) simp
  qed (use 1(5) in \<open>simp add: swap_loop.simps\<close>)
qed

lemma swap_slice_pairs:
  assumes "off + len \<le> length b" "even len"
  shows "swapBytes16 off len b = Some (take off b @ swap_pairs (take len (drop off b)) @ drop (off + len) b)"
  using swap_loop_pairs [OF assms, of 0] by (simp add: swapBytes16_def)

text \<open>\<open>swapBytes16\<close> on an even number of bytes inside the buffer exchanges the bytes of every pair, leaves the
  rest of the buffer alone, and undoes itself.\<close>

theorem swap_exchanges_pairs:
  assumes "off + len \<le> length b" "even len"
  shows "swapBytes16 off len b = Some (take off b @ swap_pairs (take len (drop off b)) @ drop (off + len) b) \<and>
    Option.bind (swapBytes16 off len b) (swapBytes16 off len) = Some b"
proof -
  let ?b = "take off b @ swap_pairs (take len (drop off b)) @ drop (off + len) b"
  have "swapBytes16 off len ?b = Some b"
    using assms swap_slice_pairs [of off len ?b] by (simp add: min_absorb2) (metis append_take_drop_id drop_drop add.commute)
  then show ?thesis using swap_slice_pairs [OF assms] by simp
qed

theorem swap_exchanges_pairs_witness:
  "swapBytes16 1 4 [9, 1, 2, 3, 4, 8] = Some [9, 2, 1, 4, 3, 8]"
  using swap_exchanges_pairs [of 1 4 "[9, 1, 2, 3, 4, 8]"] by simp

section \<open>The model name\<close>

lemma unat_digit: "n < 10 \<Longrightarrow> unat (of_nat (48 + n) :: u8) = 48 + n"
  by (simp add: unat_of_nat del: of_nat_add)

lemma digits_chars: "x \<in> set (digits n) \<Longrightarrow> 48 \<le> unat x \<and> unat x < 58"
proof (induction n rule: digits.induct)
  case (1 n)
  show ?case
  proof (cases "n < 10")
    case True
    then have "x = of_nat (48 + n)" using 1(2) by (simp add: digits.simps [of n])
    then show ?thesis using True unat_digit [of n] by (simp del: of_nat_add)
  next
    case False
    then have "x \<in> set (digits (n div 10)) \<or> x = of_nat (48 + n mod 10)"
      using 1(2) by (subst (asm) digits.simps) auto
    then show ?thesis using False 1(1) unat_digit [of "n mod 10"] by (auto simp del: of_nat_add)
  qed
qed

lemma digits_no_end: "0 \<notin> set (digits n)" "32 \<notin> set (digits n)"
  using digits_chars [of 0 n] digits_chars [of 32 n] by auto

lemma length_digits: "n < 10 ^ k \<Longrightarrow> 0 < k \<Longrightarrow> length (digits n) \<le> k"
proof (induction k arbitrary: n)
  case (Suc k)
  show ?case
  proof (cases "n < 10")
    case False
    moreover from this have "0 < k" using Suc.prems by (cases k) auto
    moreover have "n div 10 < 10 ^ k" using Suc.prems(1) by (simp add: less_mult_imp_div_less)
    ultimately show ?thesis using Suc.IH [of "n div 10"] by (subst digits.simps) simp
  qed (simp add: digits.simps)
qed simp

text \<open>Reading a number, and a model name, back.\<close>

definition read_number :: "u8 list \<Rightarrow> nat" where
  "read_number = foldl (\<lambda>n x. 10 * n + (unat x - 48)) 0"

lemma read_digits [simp]: "read_number (digits n) = n"
proof (induction n rule: digits.induct)
  case (1 n)
  then show ?case
    using unat_digit [of n] unat_digit [of "n mod 10"]
    by (subst digits.simps) (auto simp: read_number_def simp del: of_nat_add)
qed

definition read_model :: "u8 list \<Rightarrow> nat \<times> nat" where
  "read_model s = (let s = drop 10 s; shelf = takeWhile (\<lambda>x. x \<noteq> 32) s
     in (read_number shelf, read_number (drop (length shelf + 6) s)))"

lemma read_model_text: "read_model (model_text (int shelf) (int slot)) = (shelf, slot)"
proof -
  have "takeWhile (\<lambda>x. x \<noteq> 32) (digits shelf @ 32 # r) = digits shelf" for r
    using digits_no_end(2) [of shelf] by (subst takeWhile_append2) auto
  then show ?thesis
    by (simp add: read_model_def model_text_def decimal_def Let_def)
qed

lemma model_text_parts:
  assumes "0 \<le> shelf" "shelf < 2 ^ 16" "0 \<le> slot" "slot < 2 ^ 8"
  shows "0 \<notin> set (model_text shelf slot)" "length (model_text shelf slot) \<le> 24" "model_text shelf slot \<noteq> []"
proof -
  show "0 \<notin> set (model_text shelf slot)" "model_text shelf slot \<noteq> []"
    using assms by (auto simp: model_text_def decimal_def digits_no_end)
  have "length (digits (nat shelf)) \<le> 5" "length (digits (nat slot)) \<le> 3"
    using assms by (auto intro!: length_digits)
  then show "length (model_text shelf slot) \<le> 24" using assms by (simp add: model_text_def decimal_def)
qed

section \<open>The published strings\<close>

lemma takeWhile_upto_0: "takeWhile (\<lambda>x. x \<noteq> 0) (xs @ 0 # ys) = takeWhile (\<lambda>x. x \<noteq> 0) (xs :: u8 list)"
  by (induction xs) auto

lemma cstr_padded: "cstr (xs @ 0 # ys) = Some (takeWhile (\<lambda>x. x \<noteq> 0) xs)"
  by (simp add: cstr_def takeWhile_upto_0)

lemma cstr_append: "0 \<notin> set xs \<Longrightarrow> cstr (xs @ 0 # ys) = Some xs"
  by (auto simp: cstr_padded takeWhile_eq_all_conv)

lemma snprintf_fits: "length s < n \<Longrightarrow> snprintf n s = s @ [0]"
  by (simp add: snprintf_def)

text \<open>The identify data cut where the strings begin and end: two bytes of it are replaced by zeros.\<close>

lemma split_length:
  assumes "n \<le> length b"
  obtains xs ys where "b = xs @ ys" "length xs = n"
  using assms that [of "take n b" "drop n b"] by simp

lemma identify_parts:
  assumes "length b = 512"
  obtains a s x a' f m y r where "b = a @ s @ x # a' @ f @ m @ y # r"
    "length a = 20" "length s = 20" "length a' = 5" "length f = 8" "length m = 40" "length r = 417"
    "s = take 20 (drop 20 b)" "f = take 8 (drop 46 b)"
proof -
  obtain a b1 where 1: "b = a @ b1" "length a = 20" by (rule split_length [of 20 b]) (use assms in simp)
  obtain s b2 where 2: "b1 = s @ b2" "length s = 20" by (rule split_length [of 20 b1]) (use assms 1 in simp)
  obtain x b3 where 3: "b2 = x # b3" by (cases b2) (use assms 1 2 in simp_all)
  obtain a' b4 where 4: "b3 = a' @ b4" "length a' = 5" by (rule split_length [of 5 b3]) (use assms 1 2 3 in simp)
  obtain f b5 where 5: "b4 = f @ b5" "length f = 8" by (rule split_length [of 8 b4]) (use assms 1 2 3 4 in simp)
  obtain m b6 where 6: "b5 = m @ b6" "length m = 40"
    by (rule split_length [of 40 b5]) (use assms 1 2 3 4 5 in simp)
  obtain y r where 7: "b6 = y # r" by (cases b6) (use assms 1 2 3 4 5 6 in simp_all)
  show thesis by (rule that [of a s x a' f m y r]) (use assms 1 2 3 4 5 6 7 in simp_all)
qed

text \<open>What the strings are, and where the buffer is changed.\<close>

definition identify_strings :: "int \<Rightarrow> int \<Rightarrow> u8 list \<Rightarrow> device \<Rightarrow> bool" where
  "identify_strings shelf slot b d \<longleftrightarrow>
     dev_props d kATAVendorPropertyKey = Some (DString (model_text shelf slot)) \<and>
     dev_props d kATARevisionPropertyKey =
       Some (DString (takeWhile (\<lambda>x. x \<noteq> 0) (swap_pairs (take 8 (drop 46 b))))) \<and>
     dev_props d kATASerialNumPropertyKey =
       Some (DString (takeWhile (\<lambda>x. x \<noteq> 0) (swap_pairs (take 20 (drop 20 b)))))"

lemma dev_set_fields [simp]:
  "m_pIDResponseBuffer (dev_set key v d) = m_pIDResponseBuffer d"
  "dev_nShelf (dev_set key v d) = dev_nShelf d" "dev_nSlot (dev_set key v d) = dev_nSlot d"
  "dev_props (dev_set key v d) = (dev_props d)(key := Some v)"
  by (simp_all add: dev_set_def)

lemma publish_fields [simp]:
  "m_pIDResponseBuffer (publishBusProperties info c d) = m_pIDResponseBuffer d"
  "dev_nShelf (publishBusProperties info c d) = dev_nShelf d" "dev_nSlot (publishBusProperties info c d) = dev_nSlot d"
  "m_pIDResponseBuffer (publishProperties d) = m_pIDResponseBuffer d"
  "dev_nShelf (publishProperties d) = dev_nShelf d" "dev_nSlot (publishProperties d) = dev_nSlot d"
  by (simp_all add: publishBusProperties_def publishProperties_def Let_def split: option.split prod.split ioreturn.split)

lemma poke_byte: "n < length b \<Longrightarrow> poke n [v] b = Some (b[n := v])"
  by (simp add: poke_def upd_conv_take_nth_drop)

lemma poke_54: "54 + length w \<le> length b \<Longrightarrow> poke 54 w b = Some (write_at 54 w b)"
  by (simp add: poke_def write_at_def)

lemma length_write_at_54: "54 + length w \<le> length b \<Longrightarrow> length (write_at 54 w b) = length b"
  by (simp add: write_at_def)

lemma length_snprintf: "0 < n \<Longrightarrow> length (snprintf n s) \<le> n"
  by (simp add: snprintf_def)

text \<open>The accesses to a buffer of more than 94 bytes, and what is left to decide of them.\<close>

lemma vendor_run:
  assumes "m_pIDResponseBuffer d = Some b" "95 \<le> length b"
    "b1 = write_at 54 (snprintf 40 (model_text (dev_nShelf d) (dev_nSlot d))) (b[94 := 0, 40 := 0])"
    "cstr (drop 54 b1) = Some modelNum" "cstr (drop 46 (b1[54 := 0])) = Some firmVers" "cstr (drop 20 (b1[54 := 0])) = Some serial"
  shows "\<exists>d' c'. publishVendorProperties af (d, Some c) = Some (d', Some c') \<and>
    m_pIDResponseBuffer d' = Some (b1[54 := 0]) \<and>
    dev_props d' kATAVendorPropertyKey = Some (DString modelNum) \<and>
    dev_props d' kATARevisionPropertyKey = Some (DString firmVers) \<and>
    dev_props d' kATASerialNumPropertyKey = Some (DString serial) \<and> length b1 = length b"
proof -
  let ?w = "snprintf 40 (model_text (dev_nShelf d) (dev_nSlot d))"
  have fits: "54 + length ?w \<le> length b" using length_snprintf [of 40 "model_text (dev_nShelf d) (dev_nSlot d)"] assms(2) by simp
  then have len: "length b1 = length b" using length_write_at_54 [of ?w "b[94 := 0, 40 := 0]"] by (simp add: assms(3))
  have pokes: "poke 94 [0] b = Some (b[94 := 0])" "poke 40 [0] (b[94 := 0]) = Some (b[94 := 0, 40 := 0])"
    "poke 54 ?w (b[94 := 0, 40 := 0]) = Some b1" "poke 54 [0] b1 = Some (b1[54 := 0])"
    using assms(2) fits len poke_54 [of ?w "b[94 := 0, 40 := 0]"] by (simp_all add: poke_byte assms(3))
  obtain n where "sectors_24bit b = Some n" using assms(2) by (simp add: sectors_24bit_def)
  then show ?thesis
    using assms(1,4-6) pokes len by (cases "af_ExtendedLBASize af b") (simp add: publishVendorProperties_def Let_def)
qed

lemma write_at_54: "length a = 54 \<Longrightarrow> length w \<le> length m \<Longrightarrow> write_at 54 w (a @ m @ r) = a @ w @ drop (length w) m @ r"
  by (simp add: write_at_def)

lemma vendor_strings:
  assumes "m_pIDResponseBuffer d = Some (a @ s @ x # a' @ f @ m @ y # r)"
    "length a = 20" "length s = 20" "length a' = 5" "length f = 8" "length m = 40"
    "0 \<le> dev_nShelf d" "dev_nShelf d < 2 ^ 16" "0 \<le> dev_nSlot d" "dev_nSlot d < 2 ^ 8"
  shows "\<exists>d' c' b'. publishVendorProperties af (d, Some c) = Some (d', Some c') \<and>
    m_pIDResponseBuffer d' = Some b' \<and> length b' = 95 + length r \<and>
    dev_props d' kATAVendorPropertyKey = Some (DString (model_text (dev_nShelf d) (dev_nSlot d))) \<and>
    dev_props d' kATARevisionPropertyKey = Some (DString (takeWhile (\<lambda>x. x \<noteq> 0) f)) \<and>
    dev_props d' kATASerialNumPropertyKey = Some (DString (takeWhile (\<lambda>x. x \<noteq> 0) s))"
proof -
  let ?t = "model_text (dev_nShelf d) (dev_nSlot d)" let ?b = "a @ s @ x # a' @ f @ m @ y # r"
  note mt = model_text_parts [OF assms(7-10)]
  obtain z t where t: "?t = z # t" using mt(3) by (cases ?t) auto
  have "?b[94 := 0, 40 := 0] = (a @ s @ 0 # a' @ f) @ m @ 0 # r"
    using assms(2-6) by (simp add: list_update_append)
  then have w: "write_at 54 (snprintf 40 ?t) (?b[94 := 0, 40 := 0]) =
      (a @ s @ 0 # a' @ f) @ ?t @ 0 # drop (Suc (length ?t)) m @ 0 # r"
    using assms(2-6) mt(2) write_at_54 [of "a @ s @ 0 # a' @ f" "?t @ [0]" m "0 # r"] by (simp add: snprintf_fits)
  have model: "cstr (drop 54 (write_at 54 (snprintf 40 ?t) (?b[94 := 0, 40 := 0]))) = Some ?t"
    unfolding w using assms(2-6) mt(1) by (simp add: cstr_append)
  have z: "(write_at 54 (snprintf 40 ?t) (?b[94 := 0, 40 := 0]))[54 := 0] =
      a @ s @ 0 # a' @ f @ 0 # t @ 0 # drop (Suc (length ?t)) m @ 0 # r"
    unfolding w using assms(2-6) t by (simp add: list_update_append)
  have firm: "cstr (drop 46 ((write_at 54 (snprintf 40 ?t) (?b[94 := 0, 40 := 0]))[54 := 0])) =
      Some (takeWhile (\<lambda>x. x \<noteq> 0) f)"
    and serial: "cstr (drop 20 ((write_at 54 (snprintf 40 ?t) (?b[94 := 0, 40 := 0]))[54 := 0])) =
      Some (takeWhile (\<lambda>x. x \<noteq> 0) s)"
    unfolding z using assms(2-6) by (simp_all add: cstr_padded)
  have "length ((write_at 54 (snprintf 40 ?t) (?b[94 := 0, 40 := 0]))[54 := 0]) = 95 + length r"
    unfolding w using assms(2-6) mt(2) by simp
  moreover have "95 \<le> length ?b" using assms(2-6) by simp
  ultimately show ?thesis using vendor_run [OF assms(1) _ refl model firm serial, of af c] by auto
qed

text \<open>C23: when the identify data has arrived the disk is published under its model name \<open>AoE Shelf:s Slot:n\<close>, from which
  shelf and slot can be read back, with the firmware revision and the serial number of the drive, each the
  bytes of its field exchanged in pairs and cut at the first zero: the three strings, which are
  terminated inside the same buffer, do not run into each other.\<close>

theorem identify_published:
  assumes "m_pIDResponseBuffer d = Some b" "length b = 512"
    "0 \<le> dev_nShelf d" "dev_nShelf d < 2 ^ 16" "0 \<le> dev_nSlot d" "dev_nSlot d < 2 ^ 8"
  shows "\<exists>d' c'. processCallback af info kDoIDDataComplete result (d, c) = Some (d', c') \<and>
    identify_strings (dev_nShelf d) (dev_nSlot d) b d' \<and>
    read_model (model_text (dev_nShelf d) (dev_nSlot d)) = (nat (dev_nShelf d), nat (dev_nSlot d))"
proof -
  obtain a s x a' f m y r where b: "b = a @ s @ x # a' @ f @ m @ y # r"
    and l: "length a = 20" "length s = 20" "length a' = 5" "length f = 8" "length m = 40" "length r = 417"
    and sf: "s = take 20 (drop 20 b)" "f = take 8 (drop 46 b)"
    using assms(2) by (rule identify_parts)
  let ?b = "a @ swap_pairs s @ x # a' @ swap_pairs f @ swap_pairs m @ y # r"
  let ?d = "publishBusProperties info c (publishProperties (d\<lparr>m_pIDResponseBuffer := Some ?b\<rparr>))"
  have swapped: "swapBytes16 46 8 b = Some (a @ s @ x # a' @ swap_pairs f @ m @ y # r)"
    "swapBytes16 54 40 (a @ s @ x # a' @ swap_pairs f @ m @ y # r) =
      Some (a @ s @ x # a' @ swap_pairs f @ swap_pairs m @ y # r)"
    "swapBytes16 20 20 (a @ s @ x # a' @ swap_pairs f @ swap_pairs m @ y # r) = Some ?b"
    using l by (simp_all add: b swap_slice_pairs)
  obtain d' c' where "publishVendorProperties af (?d, Some c) = Some (d', Some c')"
    "dev_props d' kATAVendorPropertyKey = Some (DString (model_text (dev_nShelf d) (dev_nSlot d)))"
    "dev_props d' kATARevisionPropertyKey = Some (DString (takeWhile (\<lambda>x. x \<noteq> 0) (swap_pairs f)))"
    "dev_props d' kATASerialNumPropertyKey = Some (DString (takeWhile (\<lambda>x. x \<noteq> 0) (swap_pairs s)))"
    using vendor_strings [of ?d a "swap_pairs s" x a' "swap_pairs f" "swap_pairs m" y r af c] l assms(3-6) by auto
  moreover have "read_model (model_text (dev_nShelf d) (dev_nSlot d)) = (nat (dev_nShelf d), nat (dev_nSlot d))"
    using read_model_text [of "nat (dev_nShelf d)" "nat (dev_nSlot d)"] assms(3,5) by simp
  ultimately show ?thesis
    using assms(1) swapped sf by (simp add: processCallback_def identify_strings_def Let_def)
qed

definition example_identify :: "u8 list" where
  "example_identify = replicate 20 7 @ [66, 65, 68, 67] @ replicate 488 0"

definition example_device :: device where
  "example_device = new_device\<lparr>m_pIDResponseBuffer := Some example_identify, dev_nShelf := 12, dev_nSlot := 3\<rparr>"

lemma example_device_fields:
  "m_pIDResponseBuffer example_device = Some example_identify"
  "dev_nShelf example_device = 12" "dev_nSlot example_device = 3"
  by (simp_all add: example_device_def new_device_def)

theorem identify_published_witness:
  "\<exists>d' c'. processCallback example_family None kDoIDDataComplete kATANoErr (example_device, example_controller) = Some (d', c') \<and>
    dev_props d' kATASerialNumPropertyKey = Some (DString [65, 66, 67, 68]) \<and>
    dev_props d' kATAVendorPropertyKey = Some (DString (map of_char ''AoE Shelf:12 Slot:3''))"
proof -
  have serial: "takeWhile (\<lambda>x. x \<noteq> 0) (swap_pairs (take 20 (drop 20 example_identify))) = [65, 66, 67, 68]"
    and model: "model_text 12 3 = map of_char ''AoE Shelf:12 Slot:3''" and "length example_identify = 512"
    by code_simp+
  then obtain d' c' where
    run: "processCallback example_family None kDoIDDataComplete kATANoErr (example_device, example_controller) = Some (d', c')"
    and published: "identify_strings 12 3 example_identify d'"
    using identify_published [OF example_device_fields(1), of example_family None kATANoErr example_controller]
    by (auto simp: example_device_fields(2,3))
  show ?thesis
    using published unfolding identify_strings_def serial model by (intro exI [of _ d'] exI [of _ c'] conjI run) simp_all
qed

section \<open>The size of the drive\<close>

lemma uint_hi_lo: "uint (push_bit 32 (ucast (u :: u32)) OR ucast (l :: u32) :: u64) = uint u * 2 ^ 32 + uint l"
proof -
  have small: "take_bit 64 (uint x) = uint x" for x :: u32
    using uint_lt2p [of x] by (simp add: take_bit_int_eq_self_iff)
  have low: "take_bit 32 (uint l) = uint l" using uint_lt2p [of l] by (simp add: take_bit_int_eq_self_iff)
  have "uint (push_bit 32 (ucast u) OR ucast l :: u64) = take_bit 64 (push_bit 32 (uint u)) OR uint l"
    by (simp add: unsigned_or_eq unsigned_push_bit_eq unsigned_ucast_eq small)
  also have "take_bit 64 (push_bit 32 (uint u)) = push_bit 32 (uint u)"
    using uint_lt2p [of u] by (simp add: take_bit_int_eq_self_iff push_bit_eq_mult)
  also have "push_bit 32 (uint u) OR uint l = concat_bit 32 (uint l) (uint u)"
    by (simp add: concat_bit_def or.commute low)
  finally show ?thesis by (simp add: concat_bit_eq low push_bit_eq_mult)
qed

lemma withNumber_u64: "withNumber (uint n) 64 = PNumber (uint (n :: u64))"
  using uint_lt2p [of n] by (simp add: withNumber_def take_bit_int_eq_self_iff)

lemma uint_sectors_24bit: "sectors_24bit b = Some n \<Longrightarrow> uint n = uint (b ! 61) * 65536 + uint (b ! 60)"
proof -
  assume n: "sectors_24bit b = Some n"
  have "uint (b ! 61) < 256" "uint (b ! 60) < 256" using uint_lt2p [of "b ! 61"] uint_lt2p [of "b ! 60"] by simp_all
  then show ?thesis
    using n by (clarsimp simp: sectors_24bit_def push_bit_eq_mult uint_word_ariths unsigned_ucast_eq take_bit_int_eq_self_iff
        take_bit_eq_mod split: if_split_asm)
qed

text \<open>The size of the drive goes to the registry in full and to the target in its low 32 bits. For a drive
  without 48-bit addressing the size is made of two bytes of the identify data and stays below 2^24 sectors
  whatever the drive has; and 48-bit commands are switched on for it all the same.\<close>

theorem drive_size_published:
  assumes "m_pIDResponseBuffer d = Some b" "publishVendorProperties af (d, Some c) = Some (d', Some c')"
  shows "\<exists>n :: u64. ctl_props c' CAPACITY_PROPERTY = Some (PNumber (uint n)) \<and>
    NumSectors (m_target c') = ucast n \<and> m_fExtendedLBA c' \<and>
    (if af_Supports48BitLBA af b
     then uint n = uint (fst (af_ExtendedLBASize af b)) * 2 ^ 32 + uint (snd (af_ExtendedLBASize af b)) \<and>
       dev_props d' Extended_LBA_capacity = Some (DNumber (uint n))
     else uint n = uint (b ! 61) * 65536 + uint (b ! 60) \<and> uint n < 2 ^ 24)"
proof -
  define n where "n = (push_bit 32 (ucast (fst (af_ExtendedLBASize af b))) OR ucast (snd (af_ExtendedLBASize af b)) :: u64)"
  have n: "uint n = uint (fst (af_ExtendedLBASize af b)) * 2 ^ 32 + uint (snd (af_ExtendedLBASize af b))"
    by (simp add: n_def uint_hi_lo)
  obtain m where m: "if af_Supports48BitLBA af b then m = n else sectors_24bit b = Some m"
    "c' = set_number_sectors m (SetLBAExtendedSupport True c)"
    "af_Supports48BitLBA af b \<Longrightarrow> dev_props d' Extended_LBA_capacity = Some (DNumber (uint m))"
    using assms
    by (cases "af_Supports48BitLBA af b") (auto simp: publishVendorProperties_def Let_def case_prod_unfold n_def [symmetric] split: Option.bind_split_asm)
  have small: "uint m = uint (b ! 61) * 65536 + uint (b ! 60) \<and> uint m < 2 ^ 24" if "\<not> af_Supports48BitLBA af b"
    using m(1) that uint_sectors_24bit [of b m] uint_lt2p [of "b ! 61"] uint_lt2p [of "b ! 60"] by simp
  show ?thesis
    using n small m
    by (intro exI [of _ m]) (auto simp: set_number_sectors_def setProperty_def withNumber_u64 SetLBAExtendedSupport_def Let_def)
qed

theorem drive_size_published_witness:
  "\<exists>d' c'. publishVendorProperties (example_family\<lparr>af_Supports48BitLBA := \<lambda>_. False\<rparr>) (example_device, Some example_controller) =
      Some (d', Some c') \<and> m_fExtendedLBA c' \<and> ctl_props c' CAPACITY_PROPERTY = Some (PNumber 0)"
proof -
  let ?af = "example_family\<lparr>af_Supports48BitLBA := \<lambda>_. False\<rparr>"
  have "case publishVendorProperties ?af (example_device, Some example_controller) of Some (_, Some _) \<Rightarrow> True | _ \<Rightarrow> False"
    by code_simp
  then obtain d' c' where run: "publishVendorProperties ?af (example_device, Some example_controller) = Some (d', Some c')"
    by (auto split: option.splits prod.splits)
  have "example_identify ! 61 = 0" "example_identify ! 60 = 0" by code_simp+
  then show ?thesis
    using drive_size_published [OF example_device_fields(1) run] run by auto
qed

section \<open>The identify buffer\<close>

lemma cstr_ends: "0 \<in> set b \<Longrightarrow> \<exists>t. cstr b = Some t"
  by (simp add: cstr_def)

lemma vendor_returns:
  assumes "m_pIDResponseBuffer d = Some b" "length b = kIDBufferBytes"
  shows "\<exists>d' c' b'. publishVendorProperties af (d, Some c) = Some (d', Some c') \<and>
    m_pIDResponseBuffer d' = Some b' \<and> length b' = kIDBufferBytes"
proof -
  let ?w = "snprintf 40 (model_text (dev_nShelf d) (dev_nSlot d))"
  define b1 where "b1 = write_at 54 ?w (b[94 := 0, 40 := 0])"
  have fits: "54 + length ?w \<le> length b"
    using length_snprintf [of 40 "model_text (dev_nShelf d) (dev_nSlot d)"] assms(2) by simp
  then have len: "length b1 = 512" using length_write_at_54 [of ?w "b[94 := 0, 40 := 0]"] assms(2) by (simp add: b1_def)
  have "drop 54 b1 = ?w @ drop (54 + length ?w) (b[94 := 0, 40 := 0])" using assms(2) by (simp add: b1_def write_at_def)
  then have m: "0 \<in> set (drop 54 b1)" by (simp add: snprintf_def)
  have z: "0 \<in> set (drop n (b1[54 := 0]))" if "n \<le> 54" for n
    using that len by (auto simp: in_set_conv_nth intro!: exI [of _ "54 - n"])
  obtain modelNum firmVers serial where
    "cstr (drop 54 b1) = Some modelNum" "cstr (drop 46 (b1[54 := 0])) = Some firmVers" "cstr (drop 20 (b1[54 := 0])) = Some serial"
    using cstr_ends [OF m] cstr_ends [OF z [of 46]] cstr_ends [OF z [of 20]] by auto
  from vendor_run [OF assms(1) _ b1_def this, of af c] obtain d' c' where
    "publishVendorProperties af (d, Some c) = Some (d', Some c')" "m_pIDResponseBuffer d' = Some (b1[54 := 0])"
    using assms(2) by auto
  then show ?thesis using len by simp
qed

lemma length_swapBytes16: "swapBytes16 off len b = Some b' \<Longrightarrow> length b' = length b"
  by (simp add: swapBytes16_def length_swap_loop)

lemma identify_data_returns:
  assumes "m_pIDResponseBuffer d = Some b" "length b = kIDBufferBytes"
  shows "\<exists>d' c' b'. processCallback af info kDoIDDataComplete result (d, c) = Some (d', c') \<and>
    m_pIDResponseBuffer d' = Some b' \<and> length b' = kIDBufferBytes"
proof -
  have swap: "\<exists>x'. swapBytes16 off len x = Some x' \<and> length x' = 512" if "length x = 512" "off + len \<le> 512" "even len" for off len x
  proof -
    have "off + len \<le> length x" using that(1,2) by (simp only:)
    from swap_slice_pairs [OF this that(3)] obtain x' where "swapBytes16 off len x = Some x'" by blast
    then show ?thesis using length_swapBytes16 [of off len x x'] that(1) by (intro exI [of _ x']) (simp only: simp_thms)
  qed
  obtain x y z where steps: "swapBytes16 46 8 b = Some x" "swapBytes16 54 40 x = Some y" "swapBytes16 20 20 y = Some z" "length z = 512"
  proof -
    obtain x where x: "swapBytes16 46 8 b = Some x" "length x = 512" using swap [of b 46 8] assms(2) by auto
    obtain y where y: "swapBytes16 54 40 x = Some y" "length y = 512" using swap [OF x(2), of 54 40] by auto
    obtain z where "swapBytes16 20 20 y = Some z" "length z = 512" using swap [OF y(2), of 20 20] by auto
    with x(1) y(1) show thesis by (rule that)
  qed
  let ?d = "publishBusProperties info c (publishProperties (d\<lparr>m_pIDResponseBuffer := Some z\<rparr>))"
  obtain d' c' b' where "publishVendorProperties af (?d, Some c) = Some (d', Some c')" "m_pIDResponseBuffer d' = Some b'"
      "length b' = 512"
    using vendor_returns [of ?d z af c] steps(4) by auto
  then show ?thesis using assms(1) steps(1-3) by (simp add: processCallback_def Let_def)
qed

text \<open>C34: the identify data never runs over its buffer, when the allocator gives a buffer of the size asked for: a disk is
  created with a buffer of 512 bytes and an identify command that reads exactly that many into it; when
  the data arrives, whatever it is and whatever shelf and slot are, every byte that is swapped, written or searched
  for is in the buffer, each string in it ends there, and the buffer has the same size afterwards.\<close>

theorem device_buffer_typed:
  assumes "\<forall>n b. ds_buffer u n = Some b \<longrightarrow> length b = n"
  shows "(create_aoe_device u shelf slot = Some (Some d, x) \<longrightarrow>
      (\<exists>y b. x = Some y \<and> m_pIDResponseBuffer d = Some b \<and> length b = 512 \<and> cmd_buffer y = b \<and> cmd_byteCount y = 512 \<and>
        ataTFCommand (cmd_tf y) = kATAcmdDriveIdentify)) \<and>
    (m_pIDResponseBuffer d0 = Some b0 \<and> length b0 = 512 \<longrightarrow>
      (\<exists>d' c' b'. processCallback af info kDoIDDataComplete result (d0, c) = Some (d', c') \<and>
        m_pIDResponseBuffer d' = Some b' \<and> length b' = 512))"
proof (intro conjI impI)
  assume "create_aoe_device u shelf slot = Some (Some d, x)"
  then show "\<exists>y b. x = Some y \<and> m_pIDResponseBuffer d = Some b \<and> length b = 512 \<and> cmd_buffer y = b \<and> cmd_byteCount y = 512 \<and>
      ataTFCommand (cmd_tf y) = kATAcmdDriveIdentify"
    using assms
    by (auto simp: create_aoe_device_def device_init_def getDeviceID_def identify_command_def Let_def
        split: option.split_asm if_split_asm Option.bind_split_asm prod.split_asm)
next
  assume "m_pIDResponseBuffer d0 = Some b0 \<and> length b0 = 512"
  then show "\<exists>d' c' b'. processCallback af info kDoIDDataComplete result (d0, c) = Some (d', c') \<and>
      m_pIDResponseBuffer d' = Some b' \<and> length b' = 512"
    using identify_data_returns [of d0 b0] by blast
qed

definition example_device_setup :: device_setup where
  "example_device_setup = \<lparr>ds_super_init = True, ds_buffer = (\<lambda>n. Some (replicate n 0)), ds_descriptor = True,
     ds_command = Some example_command, ds_completion = True, ds_execute = (\<lambda>_. kATANoErr)\<rparr>"

lemma example_device_created:
  "create_aoe_device example_device_setup 12 3 =
     Some (Some (new_device\<lparr>m_pIDResponseBuffer := Some (replicate 512 0), dev_deviceType := kATADeviceType,
                  dev_nShelf := 12, dev_nSlot := 3\<rparr>),
           Some (identify_command new_device (replicate 512 0) example_command))"
  by (simp add: create_aoe_device_def device_init_def getDeviceID_def example_device_setup_def new_device_def
      identify_command_def)

theorem device_buffer_typed_witness:
  "\<exists>d y b d' c'. create_aoe_device example_device_setup 12 3 = Some (Some d, Some y) \<and> m_pIDResponseBuffer d = Some b \<and> length b = 512 \<and>
     processCallback example_family None kDoIDDataComplete kATANoErr (example_device, example_controller) = Some (d', c')"
proof -
  note typed = device_buffer_typed [of example_device_setup, where ?d0.0 = example_device and ?b0.0 = example_identify]
  have alloc: "\<forall>n b. ds_buffer example_device_setup n = Some b \<longrightarrow> length b = n"
    by (auto simp: example_device_setup_def)
  have "length example_identify = 512" by code_simp
  then obtain d' c' where run: "processCallback example_family None kDoIDDataComplete kATANoErr (example_device, example_controller) = Some (d', c')"
    using typed [OF alloc] example_device_fields(1) by blast
  show ?thesis using typed [OF alloc, THEN conjunct1, rule_format, OF example_device_created] example_device_created run by blast
qed

section \<open>The identify command\<close>

lemma tf_command_same: "ataTFCommand (cmd_tf y) = v \<Longrightarrow> y\<lparr>cmd_tf := (cmd_tf y)\<lparr>ataTFCommand := v\<rparr>\<rparr> = y"
  by (cases "cmd_tf y"; cases y) simp

text \<open>The identify command: a 24-bit command without data to send.\<close>

definition identifies :: "ata_command \<Rightarrow> bool" where
  "identifies x \<longleftrightarrow> \<not> mATAFlag48BitLBA x \<and> \<not> mATAFlagIOWrite x \<and> mATAFlagIORead x \<and> \<not> mATAFlagUseDMA x \<and>
     cmd_tf_ok x \<and> ataTFCommand (cmd_tf x) = kATAcmdDriveIdentify"

lemma identify_command_identifies: "cmd_tf_ok blank \<Longrightarrow> identifies (identify_command d buf blank)"
  by (simp add: identifies_def identify_command_def)

lemma created_identifies:
  assumes "create_aoe_device u shelf slot = Some (Some d, Some x)" "\<forall>blank. ds_command u = Some blank \<longrightarrow> cmd_tf_ok blank"
  shows "identifies x"
proof -
  obtain blank where "cmd_tf_ok blank" "x = identify_command d (cmd_buffer x) blank"
    using assms
    by (auto simp: create_aoe_device_def device_init_def getDeviceID_def identify_command_def Let_def
        split: option.split_asm if_split_asm Option.bind_split_asm prod.split_asm)
  then show ?thesis using identify_command_identifies by metis
qed

definition chunked :: "controller \<Rightarrow> ata_command \<Rightarrow> ata_command" where
  "chunked c x = x\<lparr>cmd_chunkSize := min (word_of_int (s32 (m_nMaxSectorsPerTransfer c * kATADefaultSectorSize))) (cmd_byteCount x)\<rparr>"

lemma chunked_identifies [simp]: "identifies (chunked c x) = identifies x"
  by (simp add: identifies_def chunked_def)

lemma identify_registers:
  assumes "identifies x"
  shows "command_registers af x = Some (Inr (tf_registers x))" "rg_Command (tf_registers x) = kATAcmdDriveIdentify"
    "\<not> faked_command (rg_Command (tf_registers x))" "count_sent x = x" "sent_data x c = []"
  using assms
  by (simp_all add: identifies_def command_registers_def is_extended_command_def tf_registers_def faked_command_def
      count_sent_def sent_data_def Let_def)

lemma identify_issued:
  assumes "identifies x" "currentCommand c = Some x" "nNumberOfInterfaces (m_target c) \<noteq> 0"
    "issueCommand k af (c\<lparr>currentCommand := Some (chunked c x), m_unReadBaseTag := 0\<rparr>, p) = Some (kATANoErr, c', p')"
  shows "asyncCommand k af (c, p) = Some (kATANoErr, async_epilogue c', p')"
proof -
  let ?y = "chunked c x" and ?c = "c\<lparr>currentCommand := Some (chunked c x), m_unReadBaseTag := 0\<rparr>"
  have y: "mATAFlag48BitLBA ?y = False" "mATAFlagIOWrite x = False" "cmd_tf_ok ?y = True" "ataTFCommand (cmd_tf ?y) = kATAcmdDriveIdentify"
    using assms(1) by (simp_all add: identifies_def chunked_def)
  have prologue: "async_prologue af x c = Some (?y, ?c)"
    using y(2) by (simp add: async_prologue_def chunked_def Let_def)
  have "async_tf k af ?y (?c, p) = issueCommand k af
      (?c\<lparr>currentCommand := Some (?y\<lparr>cmd_tf := (cmd_tf ?y)\<lparr>ataTFCommand := kATAcmdDriveIdentify\<rparr>\<rparr>)\<rparr>, p)"
    using y(3,4) by (simp add: async_tf_def translate_dma_def block_command_def Let_def)
  moreover have "?c\<lparr>currentCommand := Some ?y\<rparr> = ?c" by simp
  ultimately have "async_tf k af ?y (?c, p) = issueCommand k af (?c, p)"
    by (simp only: tf_command_same [OF y(4)])
  then show ?thesis
    using prologue assms(2-4) y by (simp add: asyncCommand_def is_extended_command_def)
qed

text \<open>C28: the identify command of a new disk, given to its controller, becomes exactly one packet to the target: the
  ATA command 0xEC under the next tag, without data. The command then waits for the data.\<close>

theorem identify_sent:
  assumes "create_aoe_device u shelf slot = Some (Some d, Some x)" "\<forall>blank. ds_command u = Some blank \<longrightarrow> cmd_tf_ok blank"
    "kernel_ok k" "target_ok (m_target c)" "interfaces_active (m_pAoEService p) (m_target c)"
    "currentCommand c = Some x"
  shows "\<exists>c' p' item h. asyncCommand k af (c, p) = Some (kATANoErr, c', p') \<and>
    m_to_send_queue (m_pAoEService p') = m_to_send_queue (m_pAoEService p) @ [item] \<and>
    ts_Tag item = fst (next_tag p) \<and> pk_body (ts_mbuf item) = ATA h \<and> pk_data (ts_mbuf item) = [] \<and>
    AOE_ATAHEADER_GETSTAT h = kATAcmdDriveIdentify \<and>
    pk_aoe (ts_mbuf item) = aoe_header_to (nShelf (m_target c)) (nSlot (m_target c)) AOE_ATA_COMMAND (ts_Tag item) \<and>
    map_option cmd_state (currentCommand c') = Some kATADataTx"
proof -
  let ?y = "chunked c x" and ?c = "c\<lparr>currentCommand := Some (chunked c x), m_unReadBaseTag := 0\<rparr>"
  have x: "identifies x" using assms(1,2) by (rule created_identifies)
  then have y: "identifies ?y" by simp
  note regs = identify_registers [OF y]
  have interfaces: "nNumberOfInterfaces (m_target c) \<noteq> 0"
    using interfaces_active_positive [OF assms(5)] by simp
  have c: "m_target ?c = m_target c" "currentCommand ?c = Some ?y" by simp_all
  obtain i p' item v where sent: "issueCommand k af (?c, p) =
        Some (kATANoErr, after_packet (fst (next_tag p)) i (count_sent ?y) ?c, p')"
      "m_to_send_queue (m_pAoEService p') = m_to_send_queue (m_pAoEService p) @ [item]"
      "ts_Tag item = fst (next_tag p)"
      "pk_aoe (ts_mbuf item) = aoe_header_to (nShelf (m_target c)) (nSlot (m_target c)) AOE_ATA_COMMAND (fst (next_tag p))"
      "pk_body (ts_mbuf item) = ATA (registers_header ((tf_registers ?y)\<lparr>rg_AFlags := v\<rparr>))"
      "pk_data (ts_mbuf item) = sent_data ?y ?c"
    using issue_packet [OF assms(3), where c = ?c and p = p and x = ?y and r = "tf_registers ?y" and af = af]
      assms(4,5) regs(1,3) y unfolding c by (auto simp: identifies_def)
  have run: "asyncCommand k af (c, p) =
      Some (kATANoErr, async_epilogue (after_packet (fst (next_tag p)) i (count_sent ?y) ?c), p')"
    using x assms(6) interfaces sent(1) by (rule identify_issued)
  have read: "mATAFlagIORead ?y" "\<not> mATAFlagUseDMA ?y" using y by (simp_all add: identifies_def)
  show ?thesis
    using run sent(2-6) read regs(2,4,5)
    by (intro exI [of _ "async_epilogue (after_packet (fst (next_tag p)) i (count_sent ?y) ?c)"] exI [of _ p'] exI [of _ item]
        exI [of _ "registers_header ((tf_registers ?y)\<lparr>rg_AFlags := v\<rparr>)"] conjI)
      (simp_all add: async_epilogue_def after_packet_def set_state_def map_command_def)
qed

definition identify_controller :: controller where
  "identify_controller =
     example_controller\<lparr>currentCommand := Some (identify_command new_device (replicate 512 0) example_command)\<rparr>"

theorem identify_sent_witness:
  "\<exists>c' p' item. asyncCommand example_kernel example_family (identify_controller, example_provider) = Some (kATANoErr, c', p') \<and>
    m_to_send_queue (m_pAoEService p') = m_to_send_queue (m_pAoEService example_provider) @ [item] \<and>
    map_option cmd_state (currentCommand c') = Some kATADataTx"
proof -
  have tf: "\<forall>blank. ds_command example_device_setup = Some blank \<longrightarrow> cmd_tf_ok blank"
    by (simp add: example_device_setup_def example_command_def)
  have target: "target_ok (m_target identify_controller)"
    by (simp add: identify_controller_def example_controller_def controller_init_def Let_def setProperty_def
        update_interface_property_def removeProperty_def)
  have active: "interfaces_active (m_pAoEService example_provider) (m_target identify_controller)" by code_simp
  have cmd: "currentCommand identify_controller =
      Some (identify_command new_device (replicate 512 0) example_command)"
    by (simp add: identify_controller_def)
  show ?thesis
    using identify_sent [OF example_device_created tf kernel_ok_example target active cmd] by blast
qed

end
