(* ===== verification/PaneTargets.thy ===== *)
theory PaneTargets
  imports PrefsPaneProps DeviceProps "HOL-Library.Multiset"
begin

unbundle bit_operations_syntax

text \<open>
  The targets of the preference pane: its list shows the registry, and a command names the target of its row.
\<close>

section \<open>The list of targets\<close>

definition prop_int :: "controller \<Rightarrow> prop_key \<Rightarrow> int" where
  "prop_int c key = (case ctl_props c key of Some (PNumber n) \<Rightarrow> n | _ \<Rightarrow> 0)"

definition prop_string :: "controller \<Rightarrow> u8 list" where
  "prop_string c = (case ctl_props c CONFIG_STRING_PROPERTY of Some (PString s) \<Rightarrow> s | _ \<Rightarrow> [])"

definition prop_ports :: "controller \<Rightarrow> int list" where
  "prop_ports c = (case ctl_props c ATTACHED_INTERFACES_PROPERTY of Some (PArray l) \<Rightarrow> map sint l | _ \<Rightarrow> [])"

text \<open>What a controller publishes: numbers with the bits of their properties.\<close>

definition prop_bits :: "controller \<Rightarrow> prop_key \<Rightarrow> nat \<Rightarrow> bool" where
  "prop_bits c key bits = (case ctl_props c key of Some (PNumber n) \<Rightarrow> 0 \<le> n \<and> n < 2 ^ bits | _ \<Rightarrow> False)"

definition published :: "controller \<Rightarrow> bool" where
  "published c \<longleftrightarrow> prop_bits c TARGET_PROPERTY 16 \<and> prop_bits c SHELF_PROPERTY 16 \<and> prop_bits c SLOT_PROPERTY 8 \<and>
     prop_bits c CAPACITY_PROPERTY 64 \<and>
     (case ctl_props c CONFIG_STRING_PROPERTY of None \<Rightarrow> True | Some (PString s) \<Rightarrow> True | _ \<Rightarrow> False) \<and>
     (case ctl_props c ATTACHED_INTERFACES_PROPERTY of None \<Rightarrow> True | Some (PArray l) \<Rightarrow> length l \<le> MAX_PORTS | _ \<Rightarrow> False)"

lemma prop_bits_int:
  "prop_bits c key bits \<Longrightarrow> ctl_props c key = Some (PNumber (prop_int c key)) \<and> 0 \<le> prop_int c key \<and> prop_int c key < 2 ^ bits"
  by (auto simp: prop_bits_def prop_int_def split: option.splits prop_value.splits)

lemma init_published: "published (snd (controller_init k af this Shelf Slot i mac MTU m n))"
proof -
  have "length (aInterfaceNum (target_init k Shelf Slot i mac n)) \<le> MAX_PORTS" by (simp add: target_init_def)
  moreover have bits: "0 \<le> take_bit b i \<and> take_bit b i < 2 ^ b" for b and i :: int by simp
  ultimately show ?thesis
    using bits [of 16] bits [of 8]
    by (auto simp: controller_init_def update_interface_property_def setProperty_def removeProperty_def withNumber_def
        published_def prop_bits_def Let_def)
qed

lemma number_value_small:
  assumes "0 \<le> n" "n < 2 ^ 16"
  shows "sint (number_value F n) = n"
proof -
  have "sint (word_of_int n :: u32) = n" using assms by (intro sint_word_of_int_32) simp_all
  then show ?thesis using assms by (simp add: number_value_def)
qed

definition found_service :: "world \<Rightarrow> properties" where
  "found_service w = \<lparr>m_fMatched = True, m_OurObject = Some w\<rparr>"

lemma configure_matching_found: "configure_matching True (Some w) new_properties = (0, found_service w)"
  by (simp add: configure_matching_def matched_callback_def new_properties_def found_service_def)

lemma get_property_found:
  "n < length (fst w) \<Longrightarrow> get_property key (int n) (found_service w) =
    (if ctl_props (fst w ! n) key = None then - 1 else 0, ctl_props (fst w ! n) key)"
  by (simp add: get_property_def found_service_def Let_def)

lemma numbers_found:
  assumes "n < length (fst w)" "published (fst w ! n)"
  shows "get_target_number F u (int n) (found_service w) = Some (prop_int (fst w ! n) TARGET_PROPERTY)"
    "get_shelf_number F u (int n) (found_service w) = Some (prop_int (fst w ! n) SHELF_PROPERTY)"
    "get_slot_number F u (int n) (found_service w) = Some (prop_int (fst w ! n) SLOT_PROPERTY)"
    "get_capacity v (int n) (found_service w) = Some (word_of_int (prop_int (fst w ! n) CAPACITY_PROPERTY))"
proof -
  have p: "prop_bits (fst w ! n) TARGET_PROPERTY 16" "prop_bits (fst w ! n) SHELF_PROPERTY 16"
      "prop_bits (fst w ! n) SLOT_PROPERTY 8" "prop_bits (fst w ! n) CAPACITY_PROPERTY 64"
    using assms(2) by (simp_all add: published_def)
  have "(2 :: int) ^ 8 \<le> 2 ^ 16" by simp
  then show "get_target_number F u (int n) (found_service w) = Some (prop_int (fst w ! n) TARGET_PROPERTY)"
    "get_shelf_number F u (int n) (found_service w) = Some (prop_int (fst w ! n) SHELF_PROPERTY)"
    "get_slot_number F u (int n) (found_service w) = Some (prop_int (fst w ! n) SLOT_PROPERTY)"
    using prop_bits_int [OF p(1)] prop_bits_int [OF p(2)] prop_bits_int [OF p(3)]
    by (simp_all add: get_target_number_def get_shelf_number_def get_slot_number_def int_property_def
        get_property_found [OF assms(1)] number_value_small)
  show "get_capacity v (int n) (found_service w) = Some (word_of_int (prop_int (fst w ! n) CAPACITY_PROPERTY))"
    using prop_bits_int [OF p(4)] by (simp add: get_capacity_def get_property_found [OF assms(1)])
qed

lemma strings_found:
  assumes "n < length (fst w)" "published (fst w ! n)"
  shows "\<exists>s. get_config_string (int n) (found_service w) = Some s \<and> (if s = Some [] then None else s) =
    (if prop_string (fst w ! n) = [] then None else Some (prop_string (fst w ! n)))"
  using assms(2)
  by (auto simp: get_config_string_def get_property_found [OF assms(1)] published_def prop_string_def
      split: option.splits prop_value.splits)

lemma ports_found:
  assumes "n < length (fst w)" "published (fst w ! n)" "length ifs = MAX_PORTS"
  shows "\<exists>ifs'. get_targets_en_interfaces (int n) ifs (found_service w) = Some (int (length (prop_ports (fst w ! n))), ifs') \<and>
    length ifs' = MAX_PORTS \<and> take (length (prop_ports (fst w ! n))) ifs' = prop_ports (fst w ! n)"
  using assms(2,3)
  by (auto simp: get_targets_en_interfaces_def get_property_found [OF assms(1)] published_def prop_ports_def
      split: option.splits prop_value.splits)

definition shows_target :: "controller \<Rightarrow> pane_target \<Rightarrow> bool" where
  "shows_target c t \<longleftrightarrow> kShelf t = prop_int c SHELF_PROPERTY \<and> kSlot t = prop_int c SLOT_PROPERTY \<and>
     uint (kCapacity t) = prop_int c CAPACITY_PROPERTY \<and> kConfigString t = prop_string c \<and>
     pt_online t = (prop_ports c \<noteq> []) \<and> pt_claimed t = (prop_ports c \<noteq> [] \<and> prop_string c \<noteq> []) \<and>
     pt_number t = (if prop_ports c = [] then 0 else prop_int c TARGET_PROPERTY) \<and>
     (prop_ports c \<noteq> [] \<longrightarrow> (\<forall>n. target_connected_to_interface t n = (n \<in> set (prop_ports c))))"

lemma create_target_shows:
  assumes "create_target (prop_int c SHELF_PROPERTY) (prop_int c SLOT_PROPERTY) (prop_int c TARGET_PROPERTY)
      (word_of_int (prop_int c CAPACITY_PROPERTY))
      (if prop_string c = [] then None else Some (prop_string c)) (prop_ports c) = Some t" "published c"
  shows "shows_target c t"
proof -
  have "prop_bits c CAPACITY_PROPERTY 64" using assms(2) by (simp add: published_def)
  then have "uint (word_of_int (prop_int c CAPACITY_PROPERTY) :: u64) = prop_int c CAPACITY_PROPERTY"
    using prop_bits_int [of c CAPACITY_PROPERTY 64] by (simp add: uint_word_of_int)
  then show ?thesis
    using assms(1)
    by (auto simp: create_target_def shows_target_def pt_online_def pt_claimed_def pt_number_def
        target_connected_to_interface_def Let_def split: Option.bind_split_asm if_split_asm)
qed

lemma list_targets_shows:
  assumes "\<forall>c \<in> set (fst w). published c"
  shows "list_targets F u (found_service w) n m ifs = Some ts \<Longrightarrow> n + m = length (fst w) \<Longrightarrow>
    length ifs = MAX_PORTS \<Longrightarrow> list_all2 shows_target (drop n (fst w)) ts"
proof (induction m arbitrary: n ifs ts)
  case (Suc m)
  let ?c = "fst w ! n"
  have n: "n < length (fst w)" "published ?c" using Suc.prems(2) assms by auto
  obtain s where s: "get_config_string (int n) (found_service w) = Some s"
      "(if s = Some [] then None else s) = (if prop_string ?c = [] then None else Some (prop_string ?c))"
    using strings_found [OF n] by blast
  obtain ifs' where ifs': "get_targets_en_interfaces (int n) ifs (found_service w) = Some (int (length (prop_ports ?c)), ifs')"
      "length ifs' = MAX_PORTS" "take (length (prop_ports ?c)) ifs' = prop_ports ?c"
    using ports_found [OF n Suc.prems(3)] by blast
  obtain t rest where t: "create_target (prop_int ?c SHELF_PROPERTY) (prop_int ?c SLOT_PROPERTY) (prop_int ?c TARGET_PROPERTY)
      (word_of_int (prop_int ?c CAPACITY_PROPERTY))
      (if prop_string ?c = [] then None else Some (prop_string ?c)) (prop_ports ?c) = Some t"
    and rest: "list_targets F u (found_service w) (Suc n) m ifs' = Some rest" "ts = t # rest"
    using Suc.prems(1) unfolding list_targets.simps s(1) ifs'(1) numbers_found [OF n]
    by (simp only: Option.bind.simps prod.case s(2) nat_int ifs'(3)) (auto split: Option.bind_split_asm)
  have "shows_target ?c t" using create_target_shows [OF t n(2)] .
  moreover have "list_all2 shows_target (drop (Suc n) (fst w)) rest"
    using Suc.IH [OF rest(1) _ ifs'(2)] Suc.prems(2) by simp
  ultimately show ?case using n(1) by (simp add: rest(2) flip: Cons_nth_drop_Suc)
qed simp

text \<open>Sorting keeps the rows.\<close>

definition sorts :: "arrange \<Rightarrow> bool" where
  "sorts arrange \<longleftrightarrow> (\<forall>key ascending ts. mset (arrange key ascending ts) = mset ts)"

lemma sort_column_rows: "sorts arrange \<Longrightarrow> mset (m_pTargets (sort_column arrange c p)) = mset (m_pTargets p)"
  by (simp add: sort_column_def sortWithDescriptor_def sorts_def split: option.split)

lemma ResortTable_rows: "sorts arrange \<Longrightarrow> mset (m_pTargets (ResortTable arrange p)) = mset (m_pTargets p)"
proof -
  assume sorts: "sorts arrange"
  have "mset (m_pTargets (fold (sort_column arrange) cs p)) = mset (m_pTargets p)" for cs
    by (induction cs arbitrary: p) (simp_all add: sort_column_rows [OF sorts])
  then show ?thesis by (simp add: ResortTable_def)
qed

lemma update_table_rows: "sorts arrange \<Longrightarrow> mset (m_pTargets (update_table arrange nRow p)) = mset (m_pTargets p)"
  by (simp add: update_table_def ResortTable_rows)

lemma update_buttons_rows:
  assumes "update_buttons arrange auth nRow p = Some p'" "sorts arrange"
  shows "mset (m_pTargets p') = mset (m_pTargets p)"
  using assms(1)
  by (auto simp: update_buttons_def update_table_rows [OF assms(2)] split: Option.bind_split_asm if_split_asm option.split_asm)

lemma listing_rows:
  assumes "update_target_listings arrange F u True (Some w) nRow p = Some p'" "sorts arrange"
    "\<forall>c \<in> set (fst w). published c"
  shows "\<exists>ts. list_all2 shows_target (fst w) ts \<and> mset (m_pTargets p') = mset ts"
proof -
  have "prop_number_of_targets (found_service w) = int (length (fst w))"
    by (simp add: prop_number_of_targets_def found_service_def)
  then obtain ts p1 where ts: "list_targets F u (found_service w) 0 (length (fst w)) (replicate MAX_PORTS u) = Some ts"
    and p1: "update_buttons arrange (fst (authorised False (p\<lparr>m_pTargets := ts\<rparr>)) = 0) nRow (p\<lparr>m_pTargets := ts\<rparr>) = Some p1"
      "p' = update_table arrange nRow p1"
    using assms(1)
    by (auto simp: update_target_listings_def configure_matching_found authorised_def split: Option.bind_split_asm)
  have "list_all2 shows_target (fst w) ts"
    using list_targets_shows [OF assms(3) ts] by simp
  moreover have "mset (m_pTargets p') = mset ts"
    using update_buttons_rows [OF p1(1) assms(2)] update_table_rows [OF assms(2)] p1(2) by simp
  ultimately show ?thesis by blast
qed

text \<open>The claim button is set before the rows are sorted, for the row in the order of the registry.\<close>

lemma sort_column_fields:
  "pn_claim_enabled (sort_column arrange c p) = pn_claim_enabled p" "pn_authorised (sort_column arrange c p) = pn_authorised p"
  by (simp_all add: sort_column_def sortWithDescriptor_def split: option.split)

lemma update_table_fields:
  "pn_claim_enabled (update_table arrange nRow p) = pn_claim_enabled p"
  "pn_authorised (update_table arrange nRow p) = pn_authorised p"
proof -
  have "pn_claim_enabled (fold (sort_column arrange) cs q) = pn_claim_enabled q \<and>
      pn_authorised (fold (sort_column arrange) cs q) = pn_authorised q" for cs q
    by (induction cs arbitrary: q) (simp_all add: sort_column_fields)
  then show "pn_claim_enabled (update_table arrange nRow p) = pn_claim_enabled p"
    "pn_authorised (update_table arrange nRow p) = pn_authorised p"
    by (simp_all add: update_table_def ResortTable_def)
qed

lemma listing_button:
  assumes "update_target_listings arrange F u True (Some w) row p = Some p'" "\<forall>c \<in> set (fst w). published c"
    "0 \<le> row" "fst w \<noteq> []"
  shows "nat row < length (fst w)"
    "pn_claim_enabled p' \<longleftrightarrow> pn_authorised p \<and> m_fDriverLoaded p \<and> prop_ports (fst w ! nat row) \<noteq> []"
    "pn_authorised p' = pn_authorised p"
proof -
  have "prop_number_of_targets (found_service w) = int (length (fst w))"
    by (simp add: prop_number_of_targets_def found_service_def)
  then obtain ts p1 where ts: "list_targets F u (found_service w) 0 (length (fst w)) (replicate MAX_PORTS u) = Some ts"
    and p1: "update_buttons arrange (pn_authorised p) row (p\<lparr>m_pTargets := ts\<rparr>) = Some p1" "p' = update_table arrange row p1"
    using assms(1)
    by (cases "pn_authorised p") (auto simp: update_target_listings_def configure_matching_found authorised_def split: Option.bind_split_asm)
  have shown: "list_all2 shows_target (fst w) ts" using list_targets_shows [OF assms(2) ts] by simp
  then have ts_rows: "ts \<noteq> []" "length ts = length (fst w)" using assms(4) by (auto dest: list_all2_lengthD)
  have row: "nat row < length ts" using p1(1) assms(3) ts_rows
    by (auto simp: update_buttons_def selected_target_def split: if_split_asm)
  then show "nat row < length (fst w)" using ts_rows by simp
  have online: "pt_online (ts ! nat row) \<longleftrightarrow> prop_ports (fst w ! nat row) \<noteq> []"
    using list_all2_nthD [OF shown, of "nat row"] row ts_rows by (simp add: shows_target_def)
  show "pn_claim_enabled p' \<longleftrightarrow> pn_authorised p \<and> m_fDriverLoaded p \<and> prop_ports (fst w ! nat row) \<noteq> []"
    "pn_authorised p' = pn_authorised p"
    using p1(1) assms(3) ts_rows row online
    by (auto simp: p1(2) update_table_fields update_buttons_def selected_target_def split: if_split_asm)
qed

text \<open>A press on a row that is offline names the number 0.\<close>

lemma offline_pressed:
  assumes "shows_target c (m_pTargets p ! nat row)" "\<not> pt_online (m_pTargets p ! nat row)" "0 \<le> row"
    "nat row < length (m_pTargets p)" "pn_authorised p"
  shows "ClaimedPressed True True (Some w) serial reclaim row p = Some (Some ''-c0'', p\<lparr>pn_claim_enabled := False\<rparr>)"
proof -
  have "claim_argument CHR ''c'' 0 = ''-c0''" by code_simp
  then show ?thesis
    using assms
    by (auto simp: ClaimedPressed_def selected_target_def authorised_def configure_matching_found send_to_aoed_def shows_target_def Let_def)
qed

text \<open>The list of the preference pane shows the registry: it has exactly one row for each controller, in the order
  of the table, with its shelf, slot, capacity and configuration string; a row is online when the controller
  publishes interfaces, and only then has it the number of the target and can it be shown as claimed.\<close>

theorem listing_shows_registry:
  assumes "update_target_listings arrange F u True (Some w) nRow p = Some p'" "sorts arrange"
    "\<forall>c \<in> set (fst w). published c"
  shows "\<exists>ts. list_all2 shows_target (fst w) ts \<and> mset (m_pTargets p') = mset ts"
  using assms by (rule listing_rows)

section \<open>Looking up a target by its number\<close>

definition string_property :: "controller \<Rightarrow> u8 list option" where
  "string_property c = (case ctl_props c CONFIG_STRING_PROPERTY of Some (PString s) \<Rightarrow> Some s | _ \<Rightarrow> None)"

lemma get_config_string_found:
  "n < length (fst w) \<Longrightarrow> published (fst w ! n) \<Longrightarrow> get_config_string (int n) (found_service w) = Some (string_property (fst w ! n))"
  by (auto simp: get_config_string_def get_property_found published_def string_property_def
      split: option.splits prop_value.splits)

definition numbered :: "int \<Rightarrow> controller list \<Rightarrow> controller option" where
  "numbered n cs = find (\<lambda>c. prop_int c TARGET_PROPERTY = n) cs"

lemma numbered_distinct:
  assumes "c \<in> set cs" "distinct (map (\<lambda>c. prop_int c TARGET_PROPERTY) cs)"
  shows "numbered (prop_int c TARGET_PROPERTY) cs = Some c"
  using assms by (induction cs) (auto simp: numbered_def)

lemma search_config_string_found:
  assumes "\<forall>c \<in> set (fst w). published c"
  shows "n + m = length (fst w) \<Longrightarrow> search_config_string F u number n m (found_service w) =
    Some (Option.bind (numbered number (drop n (fst w))) string_property)"
proof (induction m arbitrary: n)
  case (Suc m)
  then have n: "n < length (fst w)" "published (fst w ! n)" using assms by auto
  have "drop n (fst w) = fst w ! n # drop (Suc n) (fst w)" using n(1) by (simp add: Cons_nth_drop_Suc)
  then show ?case
    using Suc numbers_found(1) [OF n, of F u] get_config_string_found [OF n] by (simp add: numbered_def)
qed (simp add: numbered_def)

lemma search_bsd_name_found:
  "\<forall>c \<in> set cs. published c \<Longrightarrow> search_bsd_name F disk number cs = Some (Option.bind (numbered number cs) disk)"
proof (induction cs)
  case (Cons c cs)
  then have "prop_bits c TARGET_PROPERTY 16" by (simp add: published_def)
  then have "ctl_props c TARGET_PROPERTY = Some (PNumber (prop_int c TARGET_PROPERTY))"
      "sint (number_value F (prop_int c TARGET_PROPERTY)) = prop_int c TARGET_PROPERTY"
    using prop_bits_int [of c TARGET_PROPERTY 16] number_value_small by blast+
  then show ?case using Cons by (simp add: numbered_def)
qed (simp add: numbered_def)

text \<open>Looking up a target by its number in the registry finds the one controller with that number: its configuration
  string, or null when it has none, and the disk below it; so the program unmounts the disk of the target whose
  string it removes. A number that no controller has gives null.\<close>

theorem target_lookup:
  assumes "\<forall>c \<in> set (fst w). published c" "distinct (map (\<lambda>c. prop_int c TARGET_PROPERTY) (fst w))"
  shows "(\<forall>c \<in> set (fst w). get_targets_config_string F u (prop_int c TARGET_PROPERTY) (found_service w) = Some (string_property c) \<and>
       get_targets_bsd_name F disk (prop_int c TARGET_PROPERTY) (found_service w) = Some (disk c)) \<and>
    (number \<notin> (\<lambda>c. prop_int c TARGET_PROPERTY) ` set (fst w) \<longrightarrow>
       get_targets_config_string F u number (found_service w) = Some None \<and>
       get_targets_bsd_name F disk number (found_service w) = Some None)"
proof -
  have "get_targets_config_string F u n (found_service w) = Some (Option.bind (numbered n (fst w)) string_property)" for n
    using search_config_string_found [OF assms(1), of 0 "length (fst w)"]
    by (simp add: get_targets_config_string_def prop_number_of_targets_def found_service_def)
  moreover have "get_targets_bsd_name F disk n (found_service w) = Some (Option.bind (numbered n (fst w)) disk)" for n
    using search_bsd_name_found [OF assms(1)] by (simp add: get_targets_bsd_name_def found_service_def)
  moreover have "numbered number (fst w) = None" if "number \<notin> (\<lambda>c. prop_int c TARGET_PROPERTY) ` set (fst w)"
    using that by (auto simp: numbered_def find_None_iff)
  ultimately show ?thesis using numbered_distinct [OF _ assms(2)] by simp
qed

section \<open>Commands\<close>

lemma digits_read:
  "digits n \<noteq> [] \<and> foldl (\<lambda>v x. 10 * v + (int (unat x) - 48)) 0 (digits n) = int n"
proof (induction n rule: digits.induct)
  case (1 n)
  have d: "uint (of_nat (48 + m) :: u8) = 48 + int m" if "m < 10" for m
    using that by (simp add: uint_nat unat_of_nat take_bit_nat_eq_self del: of_nat_add)
  show ?case
  proof (cases "n < 10")
    case True
    then show ?thesis using d [of n] by (simp add: digits.simps [of n])
  next
    case False
    have "10 * int (n div 10) + int (n mod 10) = int n" by (metis mult.commute div_mult_mod_eq of_nat_add of_nat_mult of_nat_numeral)
    then show ?thesis using False 1 d [of "n mod 10"] by (simp add: digits.simps [of n])
  qed
qed

text \<open>The argument as characters.\<close>

definition chars :: "u8 list \<Rightarrow> string" where
  "chars = map (\<lambda>x. char_of (unat x))"

lemma chars_code: "x \<in> set (digits n) \<Longrightarrow> of_char (char_of (unat x)) = unat x"
  using digits_chars [of x n] by (simp add: of_char_of)

lemma digits_value_chars: "digits_value (chars (digits n)) = int n"
proof -
  have "foldl (\<lambda>v c. 10 * v + (of_char c - 48)) v (chars xs) = foldl (\<lambda>v x. 10 * v + (int (unat x) - 48)) v xs"
    if "set xs \<subseteq> set (digits n)" for v xs
    using that
  proof (induction xs arbitrary: v)
    case (Cons x xs)
    then have "of_char (char_of (unat x)) = int (unat x)"
      using chars_code [of x n] of_nat_of_char [of "char_of (unat x)", where 'a = int] by simp
    then show ?case using Cons by (simp add: chars_def)
  qed (simp add: chars_def)
  then show ?thesis using digits_read [of n] by (simp add: digits_value_def)
qed

lemma chars_digits:
  assumes "c \<in> set (chars (digits n))"
  shows "is_digit c" "\<not> is_space c" "c \<noteq> CHR ''-''" "c \<noteq> CHR ''+''" "c \<noteq> CHR '',''"
proof -
  obtain x where x: "x \<in> set (digits n)" "c = char_of (unat x)" using assms by (auto simp: chars_def)
  then have "48 \<le> (of_char c :: nat)" "(of_char c :: nat) \<le> 57" using digits_chars [of x n] chars_code [of x n] by simp_all
  then show "is_digit c" "\<not> is_space c" "c \<noteq> CHR ''-''" "c \<noteq> CHR ''+''" "c \<noteq> CHR '',''"
    by (auto simp: is_digit_def is_space_def)
qed

lemma strtol_decimal:
  assumes "int n \<le> long_max"
  shows "strtol long_max (chars (digits n)) = (int n, None)"
proof -
  obtain c cs where cs: "chars (digits n) = c # cs" using digits_read [of n] by (cases "digits n") (auto simp: chars_def)
  have "takeWhile is_digit (c # cs) = c # cs" using chars_digits(1) [of _ n] cs by (simp add: takeWhile_eq_all_conv)
  moreover have "\<not> is_space c" "c \<noteq> CHR ''-''" "c \<noteq> CHR ''+''" using chars_digits [of c n] cs by simp_all
  ultimately show ?thesis
    using assms cs digits_value_chars [of n] by (simp add: strtol_def Let_def)
qed

lemma split_no_comma: "CHR '','' \<notin> set s \<Longrightarrow> split_commas s = [s]"
  by (induction s) auto

lemma strtok_decimal: "strtok_commas (chars (digits n)) = [chars (digits n)]"
proof -
  have "CHR '','' \<notin> set (chars (digits n))" using chars_digits(5) by blast
  then show ?thesis using digits_read [of n] by (simp add: strtok_commas_def split_no_comma chars_def)
qed

lemma digits_short: "n < 10 ^ k \<Longrightarrow> 0 < k \<Longrightarrow> length (digits n) \<le> k"
proof (induction k arbitrary: n)
  case (Suc k)
  then show ?case by (cases "k = 0") (auto simp: digits.simps [of n] less_mult_imp_div_less)
qed simp

text \<open>A claim argument is read back by \<open>aoed\<close> as one option for one target.\<close>

lemma claim_argument_read:
  assumes "n < 10 ^ 7" "int n \<le> en_long_max env" "c = CHR ''c'' \<or> c = CHR ''C''"
  shows "\<exists>s. getopt_argument (claim_argument c (int n)) = [if c = CHR ''c'' then Opt_c s else Opt_C s] \<and>
    map (number_of env) (strtok_commas s) = [int n]"
proof (intro exI conjI)
  have "length (digits n) \<le> 7" using digits_short [OF assms(1)] by simp
  then have arg: "claim_argument c (int n) = CHR ''-'' # c # chars (digits n)"
    by (simp add: claim_argument_def decimal_def chars_def)
  have "chars (digits n) \<noteq> []" using digits_read [of n] by (simp add: chars_def)
  then show "getopt_argument (claim_argument c (int n)) =
      [if c = CHR ''c'' then Opt_c (chars (digits n)) else Opt_C (chars (digits n))]"
    using assms(3) unfolding arg by (auto simp: getopt_argument_def with_argument_def)
  have "s32 (int n) = int n" using assms(1) by (intro s32_id) simp_all
  then show "map (number_of env) (strtok_commas (chars (digits n))) = [int n]"
    using strtol_decimal [OF assms(2)] by (simp add: strtok_decimal number_of_def)
qed

lemma claim_pressed:
  assumes "ClaimedPressed exists mp service serial reclaim nRow p = Some (Some cmd, p')"
  shows "\<exists>t \<in> set (m_pTargets p). 0 \<le> nRow \<and> nRow < int (length (m_pTargets p)) \<and> t = m_pTargets p ! nat nRow \<and>
    cmd = claim_argument (if pt_claimed t then CHR ''C'' else CHR ''c'') (pt_number t) \<and> pn_authorised p' \<and>
    (pt_claimed t \<longrightarrow> cstr_ours serial (Some (kConfigString t)) = Some 0 \<or> reclaim)"
proof -
  obtain ot where ot: "selected_target nRow p = Some ot"
    using assms by (cases "selected_target nRow p") (simp_all add: ClaimedPressed_def)
  obtain t where t: "ot = Some t"
    using assms ot by (cases ot) (auto simp: ClaimedPressed_def Let_def split: if_split_asm prod.split_asm)
  have row: "t \<in> set (m_pTargets p)" "0 \<le> nRow" "nRow < int (length (m_pTargets p))" "t = m_pTargets p ! nat nRow"
    using ot t by (auto simp: selected_target_def split: if_split_asm)
  have "cmd = claim_argument (if pt_claimed t then CHR ''C'' else CHR ''c'') (pt_number t) \<and> pn_authorised p' \<and>
    (pt_claimed t \<longrightarrow> cstr_ours serial (Some (kConfigString t)) = Some 0 \<or> reclaim)"
    using assms ot t
    by (auto simp: ClaimedPressed_def target_claimed_by_us_def send_to_aoed_def authorised_def Let_def
        split: if_split_asm Option.bind_split_asm)
  then show ?thesis using row by blast
qed

lemma one_target: "each_target f [n] = f n"
proof
  show "each_target f [n] x = f n x" for x by (cases "f n x") simp_all
qed

lemma claim_option:
  assumes "getopt_argument cmd = [if c = CHR ''c'' then Opt_c s else Opt_C s]" "map (number_of env) (strtok_commas s) = [n]"
    "c = CHR ''c'' \<or> c = CHR ''C''"
  shows "options_loop k af F env (getopt_argument cmd) st =
    on_kext ((if c = CHR ''c'' then claim_target k af F env else unclaim_target k af env)
      (snd (connect_to_driver (en_connect env))) n) st"
proof -
  let ?f = "(if c = CHR ''c'' then claim_target k af F env else unclaim_target k af env)
      (snd (connect_to_driver (en_connect env)))"
  have "option_step k af F env (if c = CHR ''c'' then Opt_c s else Opt_C s) st = on_kext (?f n) st"
    using assms(2,3) by (auto simp: option_step_def Let_def one_target)
  then show ?thesis
    unfolding assms(1) by (cases "on_kext (?f n) st") (auto simp: on_kext_def)
qed

lemma claim_row_target:
  assumes "update_target_listings arrange F u True (Some w) row p0 = Some p" "sorts arrange" "\<forall>c \<in> set (fst w). published c"
    "ClaimedPressed exists mp service serial reclaim nRow p = Some (Some cmd, p')" "pt_online (m_pTargets p ! nat nRow)"
    "2 ^ 16 \<le> en_long_max env"
  shows "\<exists>c \<in> set (fst w). shows_target c (m_pTargets p ! nat nRow) \<and> pn_authorised p' \<and>
    (prop_string c \<noteq> [] \<longrightarrow> cstr_ours serial (Some (prop_string c)) = Some 0 \<or> reclaim) \<and>
    (\<forall>k af F' st. options_loop k af F' env (getopt_argument cmd) st =
      on_kext ((if prop_string c = [] then claim_target k af F' env else unclaim_target k af env)
        (snd (connect_to_driver (en_connect env))) (prop_int c TARGET_PROPERTY)) st)"
proof -
  let ?t = "m_pTargets p ! nat nRow"
  from claim_pressed [OF assms(4)] have t: "?t \<in> set (m_pTargets p)"
      "cmd = claim_argument (if pt_claimed ?t then CHR ''C'' else CHR ''c'') (pt_number ?t)" "pn_authorised p'"
      "pt_claimed ?t \<longrightarrow> cstr_ours serial (Some (kConfigString ?t)) = Some 0 \<or> reclaim"
    by auto
  obtain ts where ts: "list_all2 shows_target (fst w) ts" "mset (m_pTargets p) = mset ts"
    using listing_rows [OF assms(1-3)] by blast
  have "?t \<in> set ts" using t(1) ts(2) by (metis set_mset_mset)
  then obtain i where "i < length ts" "ts ! i = ?t" by (auto simp: in_set_conv_nth)
  then have "fst w ! i \<in> set (fst w)" "shows_target (fst w ! i) ?t" using ts(1) by (auto simp: list_all2_conv_all_nth)
  then obtain c where c: "c \<in> set (fst w)" "shows_target c ?t" by blast
  have shown: "pt_number ?t = prop_int c TARGET_PROPERTY" "pt_claimed ?t = (prop_string c \<noteq> [])" "kConfigString ?t = prop_string c"
    using c(2) assms(5) by (auto simp: shows_target_def)
  have "prop_bits c TARGET_PROPERTY 16" using assms(3) c(1) by (simp add: published_def)
  then obtain n where n: "prop_int c TARGET_PROPERTY = int n" "n < 2 ^ 16"
    using prop_bits_int [of c TARGET_PROPERTY 16] by (metis int_eq_iff nat_less_numeral_power_cancel_iff)
  let ?c = "if prop_string c = [] then CHR ''c'' else CHR ''C''"
  have "n < 10 ^ 7" "int n \<le> en_long_max env" using n(2) assms(6) by simp_all
  then obtain s where s: "getopt_argument cmd = [if ?c = CHR ''c'' then Opt_c s else Opt_C s]"
      "map (number_of env) (strtok_commas s) = [int n]"
    using claim_argument_read [of n env ?c] t(2) shown n(1) by (auto split: if_split_asm)
  have "options_loop k af F' env (getopt_argument cmd) st =
      on_kext ((if prop_string c = [] then claim_target k af F' env else unclaim_target k af env)
        (snd (connect_to_driver (en_connect env))) (prop_int c TARGET_PROPERTY)) st" for k af F' st
    using claim_option [OF s, of k af F' st] unfolding n(1) by (cases "prop_string c = []") simp_all
  then show ?thesis using c t(3,4) shown by (intro bexI [of _ c]) auto
qed

text \<open>Pressing the claim button on a row that is online has \<open>aoed\<close> change the configuration string of exactly the
  target of that row, which is one of the registry: it is claimed when its string is empty, and otherwise
  released; that of another computer only after the warning has been accepted; and only when the user
  is authorised.\<close>

theorem claim_names_target:
  assumes "update_target_listings arrange F u True (Some w) row p0 = Some p" "sorts arrange" "\<forall>c \<in> set (fst w). published c"
    "ClaimedPressed exists mp service serial reclaim nRow p = Some (Some cmd, p')" "pt_online (m_pTargets p ! nat nRow)"
    "2 ^ 16 \<le> en_long_max env"
  shows "\<exists>c \<in> set (fst w). shows_target c (m_pTargets p ! nat nRow) \<and> pn_authorised p' \<and>
    (prop_string c \<noteq> [] \<longrightarrow> cstr_ours serial (Some (prop_string c)) = Some 0 \<or> reclaim) \<and>
    (\<forall>k af F' st. options_loop k af F' env (getopt_argument cmd) st =
      on_kext ((if prop_string c = [] then claim_target k af F' env else unclaim_target k af env)
        (snd (connect_to_driver (en_connect env))) (prop_int c TARGET_PROPERTY)) st)"
  using assms by (rule claim_row_target)

text \<open>Two targets, of which the second has no interface; sorted by shelf and slot.\<close>

definition example_target :: "int \<Rightarrow> int \<Rightarrow> controller" where
  "example_target Shelf n = setProperty CONFIG_STRING_PROPERTY (PString [])
     (snd (controller_init example_kernel example_family 1 Shelf 1 3 0 1500 0 n))"

definition example_registry :: world where
  "example_registry = ([example_target 9 1, removeProperty ATTACHED_INTERFACES_PROPERTY (example_target 5 2)],
     snd (dr_world idle_driver))"

definition shelf_order :: arrange where
  "shelf_order key ascending ts = (if key = ''Shelf'' then sort_key (\<lambda>t. if ascending then kShelf t else - kShelf t) ts else ts)"

lemma shelf_order_sorts: "sorts shelf_order"
  by (simp add: sorts_def shelf_order_def)

definition example_listing :: "arrange \<Rightarrow> pane option" where
  "example_listing arrange = update_target_listings arrange example_foundation 0 True (Some example_registry) 0 example_pane"

lemma example_listing_run:
  "case example_listing shelf_order of Some p \<Rightarrow>
     map kShelf (m_pTargets p) = [5, 9] \<and> map pt_online (m_pTargets p) = [False, True] \<and> pn_claim_enabled p \<and>
     (case ClaimedPressed True True (Some example_registry) None False 0 p of Some (cmd, _) \<Rightarrow> cmd = Some ''-c0'' | None \<Rightarrow> False) \<and>
     (case ClaimedPressed True True (Some example_registry) None False 1 p of Some (cmd, _) \<Rightarrow> cmd = Some ''-c1'' | None \<Rightarrow> False)
   | None \<Rightarrow> False"
  by code_simp

lemma example_registry_published: "\<forall>c \<in> set (fst example_registry). published c"
proof -
  have p: "published (example_target Shelf n)" for Shelf n
    using init_published [of example_kernel example_family 1 Shelf 1 3 0 1500 0 n]
    by (simp add: example_target_def published_def prop_bits_def setProperty_def)
  then have "published (removeProperty ATTACHED_INTERFACES_PROPERTY (example_target Shelf n))" for Shelf n
    using p [of Shelf n] by (simp add: published_def prop_bits_def removeProperty_def)
  then show ?thesis using p by (simp add: example_registry_def)
qed

lemma example_listing_done:
  "\<exists>p. update_target_listings shelf_order example_foundation 0 True (Some example_registry) 0 example_pane = Some p \<and>
    map kShelf (m_pTargets p) = [5, 9] \<and> map pt_online (m_pTargets p) = [False, True] \<and> pn_claim_enabled p \<and>
    (\<exists>p'. ClaimedPressed True True (Some example_registry) None False 0 p = Some (Some ''-c0'', p')) \<and>
    (\<exists>p'. ClaimedPressed True True (Some example_registry) None False 1 p = Some (Some ''-c1'', p'))"
proof -
  obtain p where p: "example_listing shelf_order = Some p"
    using example_listing_run by (cases "example_listing shelf_order") simp_all
  have sent: "\<exists>p'. r = Some (cmd, p')" if "case r of Some (cmd', _) \<Rightarrow> cmd' = cmd | None \<Rightarrow> False" for r :: "('x \<times> 'y) option" and cmd
    using that by (cases r) auto
  show ?thesis
    using example_listing_run unfolding p option.case unfolding p [unfolded example_listing_def]
    by (elim conjE, intro exI [of _ p] conjI sent refl)
qed

theorem listing_shows_registry_witness:
  "\<exists>p ts. update_target_listings shelf_order example_foundation 0 True (Some example_registry) 0 example_pane = Some p \<and>
    map kShelf (m_pTargets p) = [5, 9] \<and> list_all2 shows_target (fst example_registry) ts \<and> mset (m_pTargets p) = mset ts"
proof -
  obtain p where p: "update_target_listings shelf_order example_foundation 0 True (Some example_registry) 0 example_pane = Some p"
      "map kShelf (m_pTargets p) = [5, 9]"
    using example_listing_done by (elim exE conjE) (rule that)
  obtain ts where "list_all2 shows_target (fst example_registry) ts" "mset (m_pTargets p) = mset ts"
    using listing_shows_registry [OF p(1) shelf_order_sorts example_registry_published] by (elim exE conjE) (rule that)
  with p show ?thesis by (intro exI conjI)
qed

theorem claim_names_target_witness:
  "\<exists>p p' cmd. update_target_listings shelf_order example_foundation 0 True (Some example_registry) 0 example_pane = Some p \<and>
    ClaimedPressed True True (Some example_registry) None False 1 p = Some (Some cmd, p') \<and>
    (\<exists>c. shows_target c (m_pTargets p ! 1) \<and> prop_int c SHELF_PROPERTY = 9 \<and> (\<forall>k af st.
      options_loop k af example_foundation example_environment (getopt_argument cmd) st =
        on_kext ((if prop_string c = [] then claim_target k af example_foundation example_environment
          else unclaim_target k af example_environment)
          (snd (connect_to_driver (en_connect example_environment))) (prop_int c TARGET_PROPERTY)) st))"
proof -
  obtain p p' where p: "update_target_listings shelf_order example_foundation 0 True (Some example_registry) 0 example_pane = Some p"
      "map kShelf (m_pTargets p) = [5, 9]" "map pt_online (m_pTargets p) = [False, True]"
      "ClaimedPressed True True (Some example_registry) None False 1 p = Some (Some ''-c1'', p')"
    using example_listing_done by (elim exE conjE) (rule that)
  have row: "pt_online (m_pTargets p ! nat 1)" "kShelf (m_pTargets p ! 1) = 9"
    using p(2,3) by (auto simp: map_eq_Cons_conv)
  have "2 ^ 16 \<le> en_long_max example_environment" by (simp add: example_environment_def)
  note claim = claim_names_target [OF p(1) shelf_order_sorts example_registry_published p(4) row(1) this]
  from claim obtain c where c: "shows_target c (m_pTargets p ! nat 1)" "\<forall>k af F' (st :: cf daemon).
      options_loop k af F' example_environment (getopt_argument ''-c1'') st =
        on_kext ((if prop_string c = [] then claim_target k af F' example_environment
          else unclaim_target k af example_environment)
          (snd (connect_to_driver (en_connect example_environment))) (prop_int c TARGET_PROPERTY)) st"
    by (elim bexE conjE) (rule that)
  have shown: "shows_target c (m_pTargets p ! 1)" using c(1) by simp
  have "prop_int c SHELF_PROPERTY = 9" using shown row(2) by (simp add: shows_target_def)
  with p(1,4) shown c(2) show ?thesis by (intro exI conjI allI) (assumption | elim allE)+
qed

theorem target_lookup_witness:
  "get_targets_config_string example_foundation 0 2 (found_service example_registry) = Some (Some []) \<and>
   get_targets_config_string example_foundation 0 7 (found_service example_registry) = Some None"
proof -
  let ?c = "removeProperty ATTACHED_INTERFACES_PROPERTY (example_target 5 2)"
  have "distinct (map (\<lambda>c. prop_int c TARGET_PROPERTY) (fst example_registry))"
    "?c \<in> set (fst example_registry)" "prop_int ?c TARGET_PROPERTY = 2" "string_property ?c = Some []"
    "7 \<notin> (\<lambda>c. prop_int c TARGET_PROPERTY) ` set (fst example_registry)"
    by (simp add: example_registry_def, code_simp, simp add: example_registry_def, code_simp, code_simp,
        simp add: example_registry_def, code_simp)
  then show ?thesis
    using target_lookup [OF example_registry_published, of example_foundation 0 "\<lambda>_. None" 7] by fastforce
qed

end
