(* ===== verification/RegistryShown.thy ===== *)
theory RegistryShown
  imports PaneTargets
begin

unbundle bit_operations_syntax

text \<open>
  What the controllers of the driver publish in the registry of the operating system is true: number, shelf
  and slot of their target, and its interfaces (\<open>true_props\<close>), after every event of the
  registry (\<open>registry_step_true\<close>).
\<close>

section \<open>What a controller publishes\<close>

definition true_props :: "controller \<Rightarrow> bool" where
  "true_props c \<longleftrightarrow>
     ctl_props c TARGET_PROPERTY = Some (PNumber (take_bit 16 (uint (nTargetNumber (m_target c))))) \<and>
     ctl_props c SHELF_PROPERTY = Some (PNumber (take_bit 16 (uint (nShelf (m_target c))))) \<and>
     ctl_props c SLOT_PROPERTY = Some (PNumber (take_bit 8 (uint (nSlot (m_target c))))) \<and>
     prop_bits c CAPACITY_PROPERTY 64 \<and>
     (\<forall>v. ctl_props c CONFIG_STRING_PROPERTY = Some v \<longrightarrow> (\<exists>s. v = PString s)) \<and>
     ctl_props c ATTACHED_INTERFACES_PROPERTY \<in>
       {None, Some (PArray (take (nNumberOfInterfaces (m_target c)) (aInterfaceNum (m_target c))))}"

text \<open>What this depends on, and the operations that leave it alone. The base class knows none of these properties.\<close>

definition view :: "controller \<Rightarrow> (prop_key \<Rightarrow> prop_value option) \<times> (u32 \<times> u32 \<times> u32) \<times> nat \<times> u32 list" where
  "view c = (ctl_props c, identity c, nNumberOfInterfaces (m_target c), aInterfaceNum (m_target c))"

definition family_silent :: "ata_family \<Rightarrow> bool" where
  "family_silent af \<longleftrightarrow> (\<forall>err cp. view (fst (af_completeIO af err cp)) = view (fst cp)) \<and>
     (\<forall>cp r c p. af_asyncIO af cp = Some (r, c, p) \<longrightarrow> view c = view (fst cp))"

lemma view_true: "view c' = view c \<Longrightarrow> true_props c' = true_props c"
  by (simp add: view_def true_props_def prop_bits_def identity_def)

lemma view_cong: "m_target d = m_target c \<Longrightarrow> ctl_props d = ctl_props c \<Longrightarrow> view d = view c"
  by (simp add: view_def identity_def)

section \<open>Operations that publish nothing\<close>

lemma send_aoe_packet_view: "send_aoe_packet k m Tag cp = Some (r, cp') \<Longrightarrow> view (fst cp') = view (fst cp)"
  by (cases cp) (auto simp: send_aoe_packet_def view_def identity_def split: prod.splits Option.bind_splits dest!: send_packet_keeps)

lemma send_ata_packet_view: "send_ata_packet k af m Tag cp = Some (r, cp') \<Longrightarrow> view (fst cp') = view (fst cp)"
  using send_aoe_packet_view by (cases cp) (auto simp: send_ata_packet_def view_def split: aoe_body.splits if_splits)

lemma send_identify_view:
  assumes "send_identify k af (c, p) = Some (r, cp')"
  shows "view (fst cp') = view c"
proof -
  obtain Tag q where tag: "next_tag p = (Tag, q)" by (cases "next_tag p")
  show ?thesis
  proof (cases "create_mbuf_for_transfer k Tag True (m_target c)")
    case None
    then show ?thesis using assms by (auto simp: send_identify_def tag view_def identity_def)
  next
    case (Some m)
    then obtain m' result c1 p1 where "send_ata_packet k af m' Tag (c\<lparr>m_nOutstandingIdentTag := 0\<rparr>, q) = Some (result, c1, p1)"
        "cp' = (if result = 0 then c1\<lparr>m_nOutstandingIdentTag := Tag\<rparr> else c1, p1)"
      using assms by (auto simp: send_identify_def tag Let_def split: Option.bind_splits prod.splits if_splits)
    then show ?thesis by (auto dest!: send_ata_packet_view simp: view_def identity_def)
  qed
qed

lemma set_config_string_view:
  assumes "set_config_string k s n (c, p) = Some (r, cp')"
  shows "view (fst cp') = view c"
proof -
  obtain Tag q where tag: "next_tag p = (Tag, q)" by (cases "next_tag p")
  show ?thesis
  proof (cases "create_mbuf_for_transfer k Tag False (m_target c)")
    case None
    then show ?thesis using assms by (auto simp: set_config_string_def tag view_def identity_def)
  next
    case (Some m)
    then obtain m' s' where "send_aoe_packet k m' Tag (c\<lparr>m_aConfigString := s'\<rparr>, q) = Some (r, cp')"
      using assms by (auto simp: set_config_string_def tag Let_def split: Option.bind_splits prod.splits if_splits)
    then show ?thesis by (auto dest!: send_aoe_packet_view simp: view_def identity_def)
  qed
qed

lemma force_packet_view: "controller_force_packet_send k af f cp = Some (r, cp') \<Longrightarrow> view (fst cp') = view (fst cp)"
  using send_ata_packet_view send_aoe_packet_view
  by (cases cp) (auto simp: controller_force_packet_send_def view_def Let_def split: if_splits)

lemma map_command_view [simp]: "view (map_command f c) = view c"
  by (simp add: view_def map_command_def identity_def)

lemma append_write_data_view: "append_write_data k m c = Some (r, m', c') \<Longrightarrow> view c' = view c"
  by (auto simp: append_write_data_def Let_def split: option.splits if_splits Option.bind_splits prod.splits)

lemma issueCommand_view:
  assumes "issueCommand k af (c, p) = Some (r, cp')"
  shows "view (fst cp') = view c"
proof -
  obtain Tag q where tag: "next_tag p = (Tag, q)" by (cases "next_tag p")
  show ?thesis
  proof (cases "currentCommand c")
    case None
    then show ?thesis using assms by (auto simp: issueCommand_def)
  next
    case x: (Some x)
    let ?c = "if m_unReadBaseTag c = 0 then c\<lparr>m_unReadBaseTag := Tag\<rparr> else c"
    have v: "view ?c = view c" by (simp add: view_def identity_def)
    show ?thesis
    proof (cases "create_mbuf_for_transfer k Tag True (m_target c) = None \<or> (\<exists>e. command_registers af x = Some (Inl e))")
      case True
      then show ?thesis using assms by (auto simp: issueCommand_def tag x Let_def view_def identity_def split: option.splits)
    next
      case False
      then obtain m' c1 result c2 p2 where send: "send_ata_packet k af m' Tag (c1, q) = Some (result, c2, p2)"
          "cp' = (c2, p2)" "view c1 = view ?c"
        using assms append_write_data_view
        by (auto simp: issueCommand_def tag x Let_def split: Option.bind_splits prod.splits sum.splits if_splits)
      from send_ata_packet_view [OF send(1)] show ?thesis unfolding send(2) using send(3) v by simp
    qed
  qed
qed

lemma issue_rounds_view:
  "issue_rounds k af set_count inc n (err, c, p) = Some (r, cp') \<Longrightarrow> view (fst cp') = view c"
proof (induction n arbitrary: err c p)
  case (Suc n)
  then obtain e c1 p1 where step: "issueCommand k af (map_command set_count c, p) = Some (e, c1, p1)"
      "issue_rounds k af set_count inc n (e, map_command inc c1, p1) = Some (r, cp')"
    by (auto split: Option.bind_splits)
  from issueCommand_view [OF step(1)] Suc.IH [OF step(2)] show ?case by simp
qed auto

lemma rounds_bind_view:
  assumes "Option.bind (issue_rounds k af a b n (u, c1, p)) f = Some (r, cp')" "view c1 = view c"
    "\<And>e c2 p2. f (e, c2, p2) = Some (r, cp') \<Longrightarrow> view (fst cp') = view c2"
  shows "view (fst cp') = view c"
  using assms(1,2) by (cases "issue_rounds k af a b n (u, c1, p)") (auto dest!: issue_rounds_view assms(3))

lemma block_transfer_view:
  assumes "block_transfer k af m sc inc x (c, p) = Some (r, cp')"
  shows "view (fst cp') = view c"
proof -
  have v: "view (c\<lparr>m_nReadWriteRepliesRequired := n\<rparr>) = view c" for c n
    by (simp add: view_def identity_def)
  have last: "view (fst cp') = view c2"
    if "issue_rounds k af a b m (e, c2\<lparr>m_nReadWriteRepliesRequired := n\<rparr>, p2) = Some (r, cp')" for a b m e c2 p2 n
    using issue_rounds_view [OF that] v by simp
  show ?thesis
    using assms unfolding block_transfer_def Let_def
    by (simp only: split_conv split: if_split_asm)
      (simp, erule rounds_bind_view, rule v, auto split: if_split_asm simp del: issue_rounds.simps intro: last)
qed

lemma async_prologue_view: "async_prologue af x c = Some (x1, c1) \<Longrightarrow> view c1 = view c"
  by (auto simp: async_prologue_def view_def identity_def Let_def split: if_splits)

lemma set_command_view: "view (c\<lparr>currentCommand := x\<rparr>) = view c"
  by (simp add: view_def identity_def)

lemma async_ext_view: "async_ext k af x (c, p) = Some (r, cp') \<Longrightarrow> view (fst cp') = view c"
  unfolding async_ext_def Let_def
  by (auto split: if_split_asm dest!: issueCommand_view block_transfer_view simp: set_command_view)

lemma async_tf_view: "async_tf k af x (c, p) = Some (r, cp') \<Longrightarrow> view (fst cp') = view c"
  unfolding async_tf_def Let_def
  by (auto split: if_split_asm dest!: issueCommand_view block_transfer_view simp: set_command_view)

lemma async_epilogue_view: "view (async_epilogue c) = view c"
  by (simp add: async_epilogue_def set_state_def split: option.split)

lemma asyncCommand_view:
  assumes "asyncCommand k af (c, p) = Some (r, cp')"
  shows "view (fst cp') = view c"
proof (cases "currentCommand c = None \<or> nNumberOfInterfaces (m_target c) = 0")
  case True
  then show ?thesis using assms by (auto simp: asyncCommand_def split: option.splits)
next
  case False
  then obtain x x1 c1 err c2 p2 where pro: "async_prologue af x c = Some (x1, c1)"
      and run: "(if is_extended_command x1 then async_ext k af x1 (c1, p)
                 else async_tf k af x1 (c1, p)) = Some (err, c2, p2)"
      and cp': "cp' = (if err = kATANoErr then async_epilogue c2 else c2, p2)"
    using assms by (auto simp: asyncCommand_def split: Option.bind_splits if_split_asm)
  have "view c2 = view c1"
    using run async_ext_view async_tf_view by (auto split: if_split_asm)
  then show ?thesis unfolding cp' using async_prologue_view [OF pro] async_epilogue_view by simp
qed

lemma set_state_view [simp]: "view (set_state st c) = view c"
  by (simp add: set_state_def)

lemma log_event_view [simp]: "view (log_event e c) = view c"
  by (simp add: log_event_def view_def identity_def)

lemma state_event_view: "view (c\<lparr>m_ATAState := e\<rparr>) = view c"
  by (simp add: view_def identity_def)

lemma cancel_command_view:
  assumes "family_silent af"
  shows "view (fst (cancel_command af f (c, p))) = view c"
proof -
  have "view (fst (af_completeIO af err (d, p))) = view d" for err d using assms by (simp add: family_silent_def)
  then show ?thesis by (simp add: cancel_command_def state_event_view Let_def split: prod.split) (metis fst_conv set_state_view log_event_view)
qed

lemma copied_view: "view (c\<lparr>currentCommand := x, m_ReceivedMBufCont := l\<rparr>) = view c"
  by (simp add: view_def identity_def)

lemma completeDataRead_view: "completeDataRead af c = Some (r, f, c') \<Longrightarrow> view c' = view c"
  by (auto simp: completeDataRead_def copied_view Let_def split: option.splits if_split_asm Option.bind_splits prod.splits)

lemma write_reply_view: "write_reply h c = (f, c') \<Longrightarrow> view c' = view c"
  by (auto simp: write_reply_def view_def identity_def Let_def split: if_split_asm)

lemma read_reply_view: "read_reply af c = Some (f, c') \<Longrightarrow> view c' = view c"
  by (auto simp: read_reply_def Let_def split: Option.bind_splits option.splits dest!: completeDataRead_view)
    (simp_all add: view_def identity_def)

lemma handleDeviceInterrupt_view:
  assumes "family_silent af" "handleDeviceInterrupt af cp = Some (r, cp')"
  shows "view (fst cp') = view (fst cp)"
  using assms by (cases cp; cases cp') (auto simp: handleDeviceInterrupt_def family_silent_def split: if_split_asm, metis)

section \<open>Operations that publish\<close>

lemma view_trueI: "true_props c \<Longrightarrow> view c' = view c \<Longrightarrow> true_props c'"
  using view_true by blast

lemma true_props_cong:
  "m_target c' = m_target c \<Longrightarrow> ctl_props c' = ctl_props c \<Longrightarrow> true_props c' = true_props c"
  by (intro view_true view_cong)

lemma set_other_property:
  "key \<notin> {TARGET_PROPERTY, SHELF_PROPERTY, SLOT_PROPERTY, CAPACITY_PROPERTY, CONFIG_STRING_PROPERTY, ATTACHED_INTERFACES_PROPERTY}
    \<Longrightarrow> true_props (setProperty key v c) = true_props c"
  by (cases key) (simp_all add: true_props_def prop_bits_def setProperty_def)

lemma set_config_property: "true_props c \<Longrightarrow> true_props (setProperty CONFIG_STRING_PROPERTY (PString s) c)"
  by (simp add: true_props_def prop_bits_def setProperty_def)

text \<open>All but the list of interfaces.\<close>

definition true_but_ports :: "controller \<Rightarrow> bool" where
  "true_but_ports c \<longleftrightarrow> true_props (removeProperty ATTACHED_INTERFACES_PROPERTY c)"

lemma update_interface_property_true: "true_but_ports c \<Longrightarrow> true_props (update_interface_property k c)"
  by (simp add: true_but_ports_def true_props_def prop_bits_def update_interface_property_def setProperty_def
      removeProperty_def Let_def)

lemma true_but_portsI:
  assumes "true_props c" "(nTargetNumber t, nShelf t, nSlot t) = identity c"
  shows "true_but_ports (c\<lparr>m_target := t\<rparr>)"
  using assms by (simp add: true_but_ports_def true_props_def prop_bits_def removeProperty_def identity_def)

lemma update_target_info_true:
  assumes "update_target_info k ifn mac True c = Some (r, c')" "true_props c"
  shows "true_props c'"
proof -
  obtain b t where t: "update_target_list k ifn mac True (m_target c) = Some (b, t)"
      "c' = (let c1 = (if b then (c\<lparr>m_target := t\<rparr>)\<lparr>m_time_since_last_comm := uptime k\<rparr> else c\<lparr>m_target := t\<rparr>)
        in if (find_target_if ifn (m_target c) \<noteq> None) \<noteq> True then update_interface_property k c1 else c1)"
    using assms(1) by (auto simp: update_target_info_def Let_def split: Option.bind_split_asm)
  have id: "(nTargetNumber t, nShelf t, nSlot t) = identity c"
    using update_target_list_ok [OF t(1)] by (simp add: identity_def)
  let ?c = "if b then (c\<lparr>m_target := t\<rparr>)\<lparr>m_time_since_last_comm := uptime k\<rparr> else c\<lparr>m_target := t\<rparr>"
  have ports: "true_but_ports ?c"
    using true_but_portsI [OF assms(2) id] true_but_portsI [of "c\<lparr>m_time_since_last_comm := uptime k\<rparr>" t] id assms(2)
    by (simp add: true_but_ports_def true_props_def prop_bits_def removeProperty_def)
  show ?thesis
  proof (cases "find_target_if ifn (m_target c)")
    case None
    then show ?thesis using t(2) update_interface_property_true [OF ports] by (simp add: Let_def)
  next
    case (Some n)
    then have "t = m_target c" using t(1) by (simp add: update_target_list_def)
    then show ?thesis using t(2) Some assms(2) by (auto simp: Let_def intro: view_trueI simp: view_def identity_def)
  qed
qed

lemma handle_aoe_cmd_true:
  assumes "handle_aoe_cmd ifn cfg ac (c, p) = Some (c', p')" "true_props c"
  shows "true_props c'"
proof -
  let ?c = "\<lambda>n v. setProperty BUFFER_COUNT_PROPERTY v (c\<lparr>m_nBufferCount := n\<rparr>)"
  have b: "true_props (?c n v)" for n v
    using assms(2) set_other_property [of BUFFER_COUNT_PROPERTY v "c\<lparr>m_nBufferCount := n\<rparr>"]
      view_trueI [OF assms(2), of "c\<lparr>m_nBufferCount := n\<rparr>"] by (simp add: view_def identity_def)
  have "true_props ((?c n v)\<lparr>m_aConfigString := s\<rparr>)" for n v s
    by (rule view_trueI [OF b]) (simp add: view_def identity_def)
  then show ?thesis
    using assms(1) b by (auto simp: handle_aoe_cmd_def Let_def split: if_split_asm Option.bind_split_asm intro: set_config_property)
qed

lemma config_update_true:
  assumes "config_update k ifn mac cfg ac (c, p) = Some (c', p')" "true_props c"
  shows "true_props c'"
  using assms handle_aoe_cmd_true update_target_info_true
  by (fastforce simp: config_update_def split: Option.bind_split_asm)

lemma controller_init_true: "true_props (snd (controller_init k af this Shelf Slot i mac MTU m n))"
  by (simp add: controller_init_def true_props_def prop_bits_def update_interface_property_def setProperty_def
      removeProperty_def withNumber_def target_init_def unsigned_of_int take_bit_take_bit Let_def)

section \<open>Replies\<close>

text \<open>A target whose removal has been requested publishes nothing any more; every other one goes on.\<close>

lemma remove_self_requests: "remove_self k af cp = Some (c', p') \<Longrightarrow> removed_targets p' \<noteq> []"
  by (auto simp: remove_self_def split: Option.bind_split_asm prod.splits)

lemma set_identified_capacity_true:
  assumes "set_identified_capacity k af d (c, p) = Some (c', p')" "true_props c" "removed_targets p' = []"
  shows "true_props c'"
proof -
  have i: "true_props (e\<lparr>m_IdentifiedCapacity := n\<rparr>) = true_props e" for e n by (rule true_props_cong) simp_all
  show ?thesis
    using assms(1,3) set_other_property [of IDENT_CAPACITY_PROPERTY] assms(2)
    by (auto simp: set_identified_capacity_def i Let_def dest: remove_self_requests
        split: prod.splits if_split_asm Option.bind_split_asm)
qed

lemma publish_identify_true:
  assumes "publish_identify k af d (c, p) = Some (d', c', p')" "true_props c" "removed_targets p' = []"
  shows "true_props c'"
proof -
  obtain d1 c1 m1 m2 where "set_identified_capacity k af d1 (c, p) = Some (c1, p')"
      "c' = setProperty IDENT_SERIAL_PROPERTY m2 (setProperty IDENT_MODEL_PROPERTY m1 c1)"
    using assms(1) by (auto simp: publish_identify_def Let_def split: Option.bind_splits)
  with set_identified_capacity_true assms(2,3) show ?thesis by (simp add: set_other_property)
qed

lemma set_received_data_view: "view (set_received_data d c) = view c"
  by (simp add: set_received_data_def view_def identity_def)

lemma ident_tag_view: "view (c\<lparr>m_nOutstandingIdentTag := n\<rparr>) = view c"
  by (simp add: view_def identity_def)

lemma handle_identify_true:
  assumes "handle_identify k af (c, p) = Some (f, c', p')" "true_props c" "removed_targets p' = []"
  shows "true_props c'"
proof -
  have r: "true_props e \<Longrightarrow> true_props (set_received_data d e)" for d e by (rule view_trueI [OF _ set_received_data_view])
  have t: "true_props (c\<lparr>m_nOutstandingIdentTag := 0\<rparr>)" by (rule view_trueI [OF assms(2) ident_tag_view])
  show ?thesis
    using assms(1,2) publish_identify_true [OF _ t assms(3)]
    by (auto simp: handle_identify_def Let_def split: option.splits if_split_asm Option.bind_split_asm intro!: r)
qed

lemma store_received_view: "view (store_received rcv m Tag c) = view c"
  by (simp add: store_received_def view_def identity_def)

lemma command_reply_true:
  assumes "command_reply k af h x (c, p) = Some (f, c', p')" "true_props c" "removed_targets p' = []"
  shows "true_props c'"
  using assms(1,2) handle_identify_true [OF _ assms(2,3)]
  by (auto simp: command_reply_def Let_def split: if_split_asm prod.splits
      dest: view_trueI [OF assms(2) write_reply_view] view_trueI [OF assms(2) read_reply_view])

lemma ata_response_true:
  assumes "family_keeps af" "family_silent af" "ata_response k af rcv m Tag (c, p) = Some (r, c', p')"
    "true_props c" "removed_targets p' = []"
  shows "true_props c'"
proof -
  let ?c = "store_received rcv m Tag c"
  have t: "true_props ?c" by (rule view_trueI [OF assms(4) store_received_view])
  obtain f c1 p1 where body:
      "(case currentCommand ?c of
          Some x \<Rightarrow> command_reply k af (fst rcv) x (?c, p)
        | None \<Rightarrow>
            if m_nOutstandingIdentTag ?c = m_unReceivedTag ?c then do {
              (_, c, p) \<leftarrow> handle_identify k af (?c, p);
              Some (False, c\<lparr>m_nOutstandingIdentTag := 0\<rparr>, p) }
            else Some (False, ?c, p)) = Some (f, c1, p1)"
    and rest: "(if f then handleDeviceInterrupt af (c1, p1) else Some (kATANoErr, c1, p1)) = Some (r, c', p')"
    using assms(3) unfolding ata_response_def Let_def split_conv by (auto split: Option.bind_split_asm)
  have "keeps (c1, p1) (c', p')" "view c' = view c1"
    using rest handleDeviceInterrupt_keeps [OF assms(1)] handleDeviceInterrupt_view [OF assms(2)]
    by (auto split: if_split_asm)
  then have p1: "removed_targets p1 = []" "view c' = view c1" using assms(5) by (simp_all add: keeps_def)
  have "true_props c1"
    using body command_reply_true [OF _ t p1(1)] handle_identify_true [OF _ t p1(1)] t
    by (auto split: option.splits if_split_asm Option.bind_split_asm intro: view_trueI [OF _ ident_tag_view])
  then show ?thesis by (rule view_trueI [OF _ p1(2)])
qed

section \<open>The registry\<close>

definition all_true :: "world \<Rightarrow> bool" where
  "all_true w \<longleftrightarrow> (\<forall>c \<in> set (fst w). true_props c)"

text \<open>After a loop over the controllers: all publish the truth, but for one whose removal has been requested.\<close>

definition true_but_removed :: "world \<Rightarrow> bool" where
  "true_but_removed w \<longleftrightarrow> (case w of (cs, p) \<Rightarrow> removed_targets p = [] \<and> all_true w \<or>
     (\<exists>n. removed_targets p = [n] \<and> (\<forall>c \<in> set cs. true_props c \<or> nTargetNumber (m_target c) = n)))"

lemma each_true:
  assumes "\<And>c p c' p'. f (c, p) = Some (c', p') \<Longrightarrow> keeps_or_removes (c, p) (c', p')"
    "\<And>c p c' p'. f (c, p) = Some (c', p') \<Longrightarrow> true_props c \<Longrightarrow> removed_targets p' = [] \<Longrightarrow> true_props c'"
  shows "each sel f (cs, p) = Some w' \<Longrightarrow> all_true (cs, p) \<Longrightarrow> removed_targets p = [] \<Longrightarrow> true_but_removed w'"
proof (induction cs arbitrary: p w')
  case (Cons c cs)
  obtain c1 p1 where c1: "(if sel c then f (c, p) else Some (c, p)) = Some (c1, p1)"
    using Cons.prems(1) by (auto split: Option.bind_split_asm)
  have c: "true_props c" "all_true (cs, p1)" using Cons.prems(2) by (simp_all add: all_true_def)
  have k: "keeps_or_removes (c, p) (c1, p1)"
    using c1 assms(1) by (auto split: if_split_asm intro: keeps_imp_or)
  show ?case
  proof (cases "removed_targets p1 = []")
    case True
    then obtain cs1 p2 where w': "each sel f (cs, p1) = Some (cs1, p2)" "w' = (c1 # cs1, p2)"
      using Cons.prems(1) c1 by (auto split: Option.bind_split_asm)
    have "true_props c1" using c1 assms(2) c(1) True by (auto split: if_split_asm)
    then show ?thesis
      using Cons.IH [OF w'(1) c(2) True] by (auto simp: w'(2) true_but_removed_def all_true_def)
  next
    case False
    then have "w' = (c1 # cs, p1)" using Cons.prems(1) c1 by simp
    moreover have "removed_targets p1 = [nTargetNumber (m_target c1)]"
      using k False Cons.prems(3) by (auto simp: keeps_or_removes_def identity_def)
    ultimately show ?thesis using c(2) by (simp add: true_but_removed_def all_true_def)
  qed
qed (auto simp: true_but_removed_def)

lemma remove_numbered_gone:
  assumes "distinct (map (fst \<circ> identity) cs)" "c \<in> set (remove_numbered n cs)"
  shows "c \<in> set cs \<and> nTargetNumber (m_target c) \<noteq> n"
proof (cases "first_index (\<lambda>c. nTargetNumber (m_target c) = n) cs")
  case None
  then have "remove_numbered n cs = cs" by (simp add: remove_numbered_def)
  then show ?thesis using assms(2) None by (auto simp: first_index_None)
next
  case (Some i)
  have i: "i < length cs" "nTargetNumber (m_target (cs ! i)) = n"
    using first_index_less [OF Some] first_index_Some [OF Some] by auto
  have cs: "take i cs @ cs ! i # drop (Suc i) cs = cs" using i(1) by (simp add: id_take_nth_drop [symmetric])
  have "distinct (map (fst \<circ> identity) (take i cs @ cs ! i # drop (Suc i) cs))" using assms(1) cs by simp
  then have "fst (identity (cs ! i)) \<notin> (fst \<circ> identity) ` set (take i cs @ drop (Suc i) cs)" by auto
  moreover have c: "c \<in> set (take i cs @ drop (Suc i) cs)" using assms(2) Some by (simp add: remove_numbered_def)
  ultimately have "fst (identity c) \<noteq> fst (identity (cs ! i))" by (metis comp_apply imageI)
  then have "nTargetNumber (m_target c) \<noteq> n" using i(2) by (simp add: identity_def)
  then show ?thesis using c by (auto dest: in_set_takeD in_set_dropD)
qed

lemma apply_removals_true:
  assumes "true_but_removed w" "ids_ok (fst w)"
  shows "all_true (apply_removals w)"
proof -
  obtain cs p where w: "w = (cs, p)" by (cases w)
  have gone: "c \<in> set cs \<and> nTargetNumber (m_target c) \<noteq> n" if "c \<in> set (remove_numbered n cs)" for c n
    using assms(2) that by (intro remove_numbered_gone) (simp_all add: w ids_ok_def)
  show ?thesis
  proof (cases "removed_targets p = []")
    case True
    then show ?thesis using assms(1) by (simp add: w apply_removals_def all_true_def true_but_removed_def)
  next
    case False
    then obtain n where n: "removed_targets p = [n]" "\<forall>c \<in> set cs. true_props c \<or> nTargetNumber (m_target c) = n"
      using assms(1) by (auto simp: w true_but_removed_def)
    have "true_props c" if "c \<in> set (remove_numbered n cs)" for c using gone [OF that] n(2) by blast
    then show ?thesis by (simp add: w n(1) apply_removals_def all_true_def)
  qed
qed

lemma all_true_sub: "all_true w \<Longrightarrow> set (fst w') \<subseteq> set (fst w) \<Longrightarrow> all_true w'"
  by (auto simp: all_true_def)

lemma remove_target_true:
  assumes "remove_target k af n w = Some (r, w')" "all_true w"
  shows "all_true w'"
proof -
  have "set (fst w') \<subseteq> set (fst w)"
    using assms(1) by (auto simp: remove_target_def dest: in_set_takeD in_set_dropD
        split: prod.splits option.splits Option.bind_split_asm)
  then show ?thesis by (rule all_true_sub [OF assms(2)])
qed

lemma config_each_true:
  "config_each k af ifn mac h cfg ac seen fFound (cs, p) = Some (ret, found, w') \<Longrightarrow> all_true (seen @ cs, p) \<Longrightarrow> all_true w'"
proof (induction cs arbitrary: seen fFound p)
  case (Cons c cs)
  show ?case
  proof (cases "addressed h c")
    case False
    then show ?thesis using Cons.IH [of "seen @ [c]" fFound p] Cons.prems by simp
  next
    case True
    then obtain c1 p1 where u: "config_update k ifn mac cfg ac (c, p) = Some (c1, p1)"
      and rest: "(if \<not> is_ours p1 c1 \<and> is_registered c1 = 0
         then do { (_, w) \<leftarrow> remove_target k af (target_number c1) (seen @ c1 # cs, p1); Some (True, True, w) }
         else config_each k af ifn mac h cfg ac (seen @ [c1]) True (cs, p1)) = Some (ret, found, w')"
      using Cons.prems(1) by (auto split: Option.bind_split_asm)
    have "all_true (seen @ c1 # cs, p1)"
      using Cons.prems(2) config_update_true [OF u] by (simp add: all_true_def)
    then show ?thesis
      using rest remove_target_true Cons.IH [of "seen @ [c1]" True p1]
      by (auto split: if_split_asm Option.bind_split_asm)
  qed
qed (simp add: all_true_def)

lemma attach_device_view: "attach_device af c = Some c' \<Longrightarrow> view c' = view c"
  by (auto simp: attach_device_def view_def identity_def Let_def split: if_split_asm)

lemma registerDiskService_view [simp]: "view (registerDiskService c) = view c"
  by (simp add: registerDiskService_def log_event_def view_def identity_def Let_def)

lemma device_online_view: "view (device_online c) = view c"
  by (simp add: device_online_def log_event_def view_def identity_def Let_def)

lemma set_mtu_view: "view (set_mtu_size n c) = view c"
  by (simp add: set_mtu_size_def view_def identity_def Let_def)

lemma add_target_true:
  assumes "add_target k af this ifn mac h cfg ac w = Some (r, w')" "all_true w"
  shows "all_true w'"
proof -
  obtain cs p where w: "w = (cs, p)" by (cases w)
  show ?thesis
  proof (cases "w' = w")
    case False
    then obtain id where id: "this = Some id" "af_controller_attach af" "af_controller_start af"
      using assms(1) by (auto simp: add_target_def w split: option.splits if_split_asm)
    let ?c0 = "snd (controller_init k af id (uint (AOE_HEADER_GETMAJOR h)) (uint (AOE_HEADER_GETMINOR h)) ifn mac
      (m_Min_MTU (m_pInterfaces (m_pAoEService p))) (ci_nMaxTransferSize p) (get_next_target_number cs))"
    obtain r1 c1 c2 p2 c3 where run: "update_target_info k ifn mac True ?c0 = Some (r1, c1)"
        "handle_aoe_cmd ifn cfg ac (c1, p) = Some (c2, p2)" "attach_device af c2 = Some c3"
        "w' = (cs @ [if is_ours p2 c3 then registerDiskService c3 else c3], p2)"
      using assms(1) by (auto simp: add_target_def w id case_prod_beta split: Option.bind_split_asm)
    have "true_props c2" using handle_aoe_cmd_true [OF run(2)] update_target_info_true [OF run(1) controller_init_true] .
    then have "true_props c3" by (rule view_trueI) (rule attach_device_view [OF run(3)])
    then show ?thesis
      using assms(2) unfolding run(4) w all_true_def by (auto intro: view_trueI)
  qed (use assms(2) in simp)
qed

lemma each_still_true:
  assumes "\<And>c p c' p'. f (c, p) = Some (c', p') \<Longrightarrow> keeps (c, p) (c', p') \<and> view c' = view c"
    "each sel f w = Some w'" "all_true w" "registry_ok w"
  shows "all_true w'"
proof -
  obtain cs p where w: "w = (cs, p)" by (cases w)
  have "true_but_removed w'"
    using assms(1,3,4) w
    by (intro each_true [OF _ _ assms(2) [unfolded w]]) (auto simp: registry_ok_def intro: keeps_imp_or view_trueI)
  moreover have "registry_ok w'" using each_keeps_registry [OF assms(2,4)] assms(1) by blast
  ultimately show ?thesis by (cases w') (auto simp: true_but_removed_def registry_ok_def)
qed

lemma identify_all_true: "identify_all_targets k af w = Some w' \<Longrightarrow> registry_ok w \<Longrightarrow> all_true w \<Longrightarrow> all_true w'"
  unfolding identify_all_targets_def
  by (rule each_still_true) (auto dest: send_identify_keeps send_identify_view)

lemma aoe_search_all_true:
  assumes "aoe_search_all k af w = Some (r, w')" "registry_ok w" "all_true w"
  shows "all_true w'"
proof -
  obtain cs p e q where w: "w = (cs, p)" and s: "search_from k [0..<length (m_aInterfaces (m_pInterfaces (m_pAoEService p)))] p = Some (e, q)"
    using assms(1) by (cases w) (auto simp: aoe_search_all_def split: Option.bind_split_asm)
  have "registry_ok (cs, q)" "all_true (cs, q)"
    using assms(2,3) search_from_removed [OF s] by (simp_all add: w registry_ok_def all_true_def)
  then show ?thesis
    using assms(1) s by (auto simp: aoe_search_all_def w split: if_split_asm Option.bind_split_asm dest: identify_all_true)
qed

lemma cstring_each_true:
  "cstring_each k af n s len seen nRet (cs, p) = Some (r, w') \<Longrightarrow> all_true (seen @ cs, p) \<Longrightarrow> all_true w'"
proof (induction cs arbitrary: seen nRet p)
  case (Cons c cs)
  show ?case
  proof (cases "n = target_number c")
    case False
    then show ?thesis using Cons.IH [of "seen @ [c]" nRet p] Cons.prems by simp
  next
    case True
    then obtain e c1 p1 where u: "set_config_string k s len (c, p) = Some (e, c1, p1)"
      and rest: "(if e \<noteq> 0 then cstring_each k af n s len (seen @ [c1]) (- 1) (cs, p1)
         else if is_registered c1 = 0 \<and> \<not> is_ours p1 c1
         then do { (_, w) \<leftarrow> remove_target k af (target_number c1) (seen @ c1 # cs, p1); Some (nRet, w) }
         else if is_registered c1 \<noteq> 0 \<and> is_ours p1 c1 then Some (nRet, seen @ registerDiskService c1 # cs, p1)
         else cstring_each k af n s len (seen @ [c1]) nRet (cs, p1)) = Some (r, w')"
      using Cons.prems(1) by (auto split: Option.bind_split_asm)
    have "view c1 = view c" "true_props c" using set_config_string_view [OF u] Cons.prems(2) by (simp_all add: all_true_def)
    then have "true_props c1" "true_props (registerDiskService c1)"
      by (simp_all add: view_trueI [of c] view_trueI [of c "registerDiskService c1"])
    then have "all_true (seen @ c1 # cs, p1)" "all_true (seen @ registerDiskService c1 # cs, p1)"
      using Cons.prems(2) by (auto simp: all_true_def)
    then show ?thesis
      using rest remove_target_true Cons.IH [of "seen @ [c1]" _ p1]
      by (auto split: if_split_asm Option.bind_split_asm)
  qed
qed (simp add: all_true_def)

lemma all_true_update: "all_true (cs, p) \<Longrightarrow> true_props c \<Longrightarrow> all_true (cs[i := c], q)"
  using set_update_subset_insert [of cs i c] by (auto simp: all_true_def)

lemma all_true_map: "all_true (cs, p) \<Longrightarrow> (\<And>c. view (f c) = view c) \<Longrightarrow> all_true (map f cs, q)"
  by (auto simp: all_true_def intro: view_trueI)

lemma registry_step_true:
  assumes "family_keeps af" "family_silent af" "registry_step af w w'" "registry_ok w" "all_true w"
  shows "all_true w'"
  using assms(3-5)
proof (induction rule: registry_step.induct)
  case (rs_ata k h rcv mb w r w')
  then obtain v where v: "each (addressed h)
      (\<lambda>cp. map_option snd (ata_response k af rcv (Some mb) (AOE_HEADER_GETTAG h) cp)) w = Some v" "w' = apply_removals v"
    by (auto simp: aoe_ata_receive_def split: Option.bind_split_asm)
  obtain cs p where w: "w = (cs, p)" by (cases w)
  have step: "keeps_or_removes (c, q) (c', q') \<and> (true_props c \<longrightarrow> removed_targets q' = [] \<longrightarrow> true_props c')"
    if "map_option snd (ata_response k af rcv (Some mb) (AOE_HEADER_GETTAG h) (c, q)) = Some (c', q')" for c q c' q'
  proof -
    from that obtain e where "ata_response k af rcv (Some mb) (AOE_HEADER_GETTAG h) (c, q) = Some (e, c', q')" by auto
    then show ?thesis using ata_response_or [OF assms(1)] ata_response_true [OF assms(1,2)] by blast
  qed
  have "all_true (cs, p)" "removed_targets p = []" using rs_ata.prems by (simp_all add: w registry_ok_def)
  with v(1) have "true_but_removed v" unfolding w by (rule each_true [rotated 2]) (use step in blast)+
  moreover have "ids_ok (fst v)"
    using each_registry [OF v(1) rs_ata.prems(1)] ata_response_or [OF assms(1)] by fastforce
  ultimately show ?case unfolding v(2) by (rule apply_removals_true)
next
  case (rs_config k this ifn mac h cfg ac w r w')
  then obtain ret found v where v: "config_each k af ifn mac h cfg ac [] False w = Some (ret, found, v)"
      "(if ret \<or> found then Some (0, v) else add_target k af this ifn mac h cfg ac v) = Some (r, w')"
    by (auto simp: aoe_config_receive_def split: Option.bind_split_asm)
  have "all_true v"
    using config_each_true [of k af ifn mac h cfg ac "[]" False "fst w" "snd w"] v(1) rs_config.prems by simp
  then show ?case using v(2) add_target_true by (auto split: if_split_asm)
next
  case (rs_fake k w w')
  show ?case
  proof (cases "m_pControllerToFakeResponse (snd w)")
    case None
    then show ?thesis using rs_fake by (auto simp: FakeReturnTimer_def all_true_def split: prod.splits)
  next
    case (Some this)
    then obtain cs p p' i rcv e c q where w: "w = (cs, p')" "first_index (\<lambda>c. ctl_id c = this) cs = Some i"
        "ata_response k af rcv None 0 (cs ! i, p) = Some (e, c, q)" "w' = apply_removals (cs[i := c], q)"
        "p = p'\<lparr>m_pFakeReturnTimer := Stopped\<rparr>"
      using rs_fake.hyps by (cases w) (auto simp: FakeReturnTimer_def Let_def split: option.splits Option.bind_split_asm)
    note i = first_index_less [OF w(2)] and k = ata_response_or [OF assms(1) w(3)]
    have t: "true_props (cs ! i)" "\<forall>d \<in> set cs. true_props d" using rs_fake.prems(2) i w(1) by (simp_all add: all_true_def)
    have "true_but_removed (cs[i := c], q)"
    proof (cases "removed_targets q = []")
      case True
      then show ?thesis
        using all_true_update [of cs p' c i q] rs_fake.prems(2) ata_response_true [OF assms(1,2) w(3) t(1)]
        by (simp add: w(1) true_but_removed_def)
    next
      case False
      then have "removed_targets q = [nTargetNumber (m_target c)]"
        using k rs_fake.prems(1) w(1,5) by (auto simp: keeps_or_removes_def registry_ok_def identity_def)
      then show ?thesis using t(2) set_update_subset_insert [of cs i c] by (auto simp: true_but_removed_def)
    qed
    moreover have "ids_ok (cs[i := c])"
      using rs_fake.prems(1) w(1) ids_ok_list_update [OF _ i k] by (simp add: registry_ok_def)
    ultimately show ?thesis unfolding w(4) by (intro apply_removals_true) simp_all
  qed
next
  case (rs_timer k w w')
  then obtain v r cs p where v: "check_down_targets k af w = Some v" "aoe_search_all k af v = Some (r, cs, p)"
      "w' = (cs, p\<lparr>m_pStateUpdateTimer := Armed (60 * 1000)\<rparr>)"
    by (auto simp: StateUpdateTimer_def split: Option.bind_split_asm)
  have "registry_ok v \<and> all_true v"
    using v(1) rs_timer.prems remove_target_ok [OF assms(1)] remove_target_true
    by (auto simp: check_down_targets_def split: prod.splits option.splits)
  then have "all_true (cs, p)" by (blast intro: aoe_search_all_true [OF v(2)])
  then show ?case by (simp add: v(3) all_true_def)
next
  case (rs_cancel ifn w r w')
  obtain cs p where w: "w = (cs, p)" by (cases w)
  have "all_true (cs[i := c], q)" if "i < length cs" "cancel_command af False (cs ! i, p) = (c, q)" for i c q
    using cancel_command_view [OF assms(2), of False "cs ! i" p] that rs_cancel.prems(2)
    by (intro all_true_update [of cs p]) (auto simp: w all_true_def intro: view_trueI [of "cs ! i"])
  then show ?case
    using rs_cancel w by (auto simp: cancel_commands_on_interface_def dest: first_index_less
        split: option.splits prod.splits)
next
  case (rs_force k f w r w')
  then show ?case
    by (auto simp: interface_force_packet_send_def dest: force_packet_keeps force_packet_view split: Option.bind_split_asm
        elim!: each_still_true [rotated])
next
  case (rs_command i cs k p r c p')
  have "view c = view (cs ! i)" using asyncCommand_view [OF rs_command.hyps(2)] by simp
  then show ?case
    using rs_command by (intro all_true_update [of cs p]) (auto simp: all_true_def intro: view_trueI [of "cs ! i"])
next
  case (rs_cstring k n s len w r w')
  then show ?case
    using cstring_each_true [of k af n s len "[]" 0 "fst w" "snd w"] by (simp add: interface_set_targets_cstring_def)
next
  case (rs_search k w r w')
  then show ?case by (blast intro: aoe_search_all_true)
next
  case (rs_remove k n w r w')
  then show ?case by (blast intro: remove_target_true)
qed (auto simp: reenable_controllers_def adjust_mtu_sizes_def start_lun_search_def interface_set_max_transfer_size_def
      set_max_outstanding_def all_true_def split: Option.bind_split_asm intro: view_trueI device_online_view set_mtu_view)

end
