(* ===== verification/DriverRefine.thy ===== *)
theory DriverRefine
  imports PortProps
begin

unbundle bit_operations_syntax

text \<open>
  All events of the driver as one step relation, its refinement of the registry of targets, and the outcome
  of the start.
\<close>

section \<open>All events of the driver\<close>

text \<open>Received packets, events of an interface, the five timers, options of the user interface, and the commands
  of the ATA family.\<close>

inductive driver_step :: "ata_family \<Rightarrow> driver \<Rightarrow> driver \<Rightarrow> bool" for af where
  ds_input: "aoefilter_input_func k freed af this alloc ifn protocol (m, d) = Some (r, m', d') \<Longrightarrow> driver_step af d d'"
| ds_event: "aoefilter_event_func k af ifn ev d = Some d' \<Longrightarrow> driver_step af d d'"
| ds_get: "aoeinterface_get k af opt data len (prefs, d) = Some (r, v, d') \<Longrightarrow> driver_step af d d'"
| ds_set: "aoeinterface_set k af fString pData (prefs, d) = Some (r, prefs', d') \<Longrightarrow> driver_step af d d'"
| ds_update: "StateUpdateTimer k af (dr_world d) = Some w \<Longrightarrow> driver_step af d (d\<lparr>dr_world := w\<rparr>)"
| ds_fake: "FakeReturnTimer k af (dr_world d) = Some w \<Longrightarrow> driver_step af d (d\<lparr>dr_world := w\<rparr>)"
| ds_transmit: "TransmitTimer k (service_of (dr_world d)) = Some s \<Longrightarrow>
    driver_step af d (d\<lparr>dr_world := on_service (\<lambda>_. s) (dr_world d)\<rparr>)"
| ds_retransmit: "RetransmitTimer k freed nTargets (service_of (dr_world d)) = Some s \<Longrightarrow>
    driver_step af d (d\<lparr>dr_world := on_service (\<lambda>_. s) (dr_world d)\<rparr>)"
| ds_idle: "driver_step af d (d\<lparr>dr_world := on_service (IdleTimer k) (dr_world d)\<rparr>)"
| ds_command: "dr_world d = (cs, p) \<Longrightarrow> i < length cs \<Longrightarrow> asyncCommand k af (cs ! i, p) = Some (r, c, p') \<Longrightarrow>
    driver_step af d (d\<lparr>dr_world := (cs[i := c], p')\<rparr>)"

text \<open>Seen from the registry of targets, every event of the driver is a sequence of steps of the registry.\<close>

abbreviation (input) registry_steps :: "ata_family \<Rightarrow> world \<Rightarrow> world \<Rightarrow> bool" where
  "registry_steps af \<equiv> (registry_step af)\<^sup>*\<^sup>*"

lemma one_step: "registry_step af w w' \<Longrightarrow> registry_steps af w w'"
  by (rule r_into_rtranclp)

lemma service_steps: "registry_steps af w (on_service f w)"
  by (cases w) (auto simp: on_service_def intro: r_into_rtranclp rs_service)

lemma service_eq_steps: "on_service f w = w' \<Longrightarrow> registry_steps af w w'"
  using service_steps by blast

lemma interfaces_steps: "registry_steps af w (set_interfaces I w)"
  by (simp add: set_interfaces_def service_steps)

lemma online_steps: "registry_steps af w (reenable_controllers (adjust_mtu_sizes m w))"
  by (meson rs_mtu rs_reenable r_into_rtranclp rtranclp.rtrancl_into_rtrancl)

lemma enable_steps:
  assumes "cg_enable_interface k n (w, t) = Some (w', t')"
  shows "registry_steps af w w'"
proof -
  obtain r I where "w' = (if r = KERN_SUCCESS then start_lun_search True (reenable_controllers
      (adjust_mtu_sizes (sint (get_mtu (service_of (set_interfaces I w)))) (set_interfaces I w))) else set_interfaces I w)"
    using assms by (auto simp: cg_enable_interface_def Let_def split: Option.bind_split_asm)
  moreover have "registry_steps af w (start_lun_search True (reenable_controllers (adjust_mtu_sizes m (set_interfaces I w))))" for m
    by (rule rtranclp_trans [OF interfaces_steps rtranclp_trans [OF online_steps one_step [OF rs_lun]]])
  ultimately show ?thesis using interfaces_steps by simp
qed

lemma disable_steps:
  assumes "cg_disable_interface k af n w = Some w'"
  shows "registry_steps af w w'"
proof -
  obtain r I where w': "w' = snd (cancel_commands_on_interface af r (on_service (enable_retransmit_timer \<circ> enable_transmit_timer 3)
      (on_service (purge_sent \<circ> purge_to_send) (set_interfaces I (on_service stop_timers w)))))"
    using assms by (auto simp: cg_disable_interface_def Let_def split: Option.bind_split_asm)
  show ?thesis unfolding w'
    by (rule rtranclp_trans [OF service_steps rtranclp_trans [OF interfaces_steps rtranclp_trans [OF service_steps
        rtranclp_trans [OF service_steps one_step [OF rs_cancel [OF prod.collapse [symmetric]]]]]]])
qed

lemma interface_disconnected_steps:
  "interface_disconnected k af n d = Some d' \<Longrightarrow> registry_steps af (dr_world d) (dr_world d')"
  by (auto simp: interface_disconnected_def dest: disable_steps split: if_split_asm)

lemma interface_reconnected_steps:
  "interface_reconnected k n r d = Some d' \<Longrightarrow> registry_steps af (dr_world d) (dr_world d')"
  by (auto simp: interface_reconnected_def Let_def split: Option.bind_split_asm
      intro: rtranclp_trans [OF interfaces_steps online_steps])

lemma event_steps:
  "aoefilter_event_func k af r ev d = Some d' \<Longrightarrow> registry_steps af (dr_world d) (dr_world d')"
  by (auto simp: aoefilter_event_func_def Let_def split: kev_event.split_asm if_split_asm
      dest: interface_disconnected_steps interface_reconnected_steps)

lemma dispatch_steps:
  assumes "dispatch k af this ifp shost h mb w = Some w'"
  shows "registry_steps af w w'"
  using assms
  by (auto simp: dispatch_def count_unexpected_def split: if_split_asm Option.bind_split_asm
      intro: one_step rs_ata rs_config service_steps)

lemma incoming_steps:
  assumes "cg_aoe_incoming k freed af this ifp shost mb w = Some w'"
  shows "registry_steps af w w'"
proof -
  obtain h where h: "aoe_header_at (rx_mem mb) = Some h"
    using assms by (auto simp: cg_aoe_incoming_def split: Option.bind_split_asm)
  show ?thesis
  proof (cases "AOE_HEADER_GETFLAG h AND AOE_FLAG_RESPONSE = 0")
    case True
    then show ?thesis using assms h by (simp add: cg_aoe_incoming_def)
  next
    case False
    then obtain found s where s: "response_found k freed (AOE_HEADER_GETTAG h) (service_of w) = Some (found, s)"
      using assms h by (auto simp: cg_aoe_incoming_def Let_def split: Option.bind_split_asm)
    let ?w = "on_service (\<lambda>_. s) w"
    show ?thesis
    proof (cases "AOE_HEADER_GETFLAG h AND AOE_FLAG_ERROR = 0")
      case True
      then obtain w1 where w1: "(if expected found (AOE_HEADER_GETTAG h) then dispatch k af this ifp shost h mb ?w
            else Some (count_unexpected ?w)) = Some w1"
          "w' = (if found \<and> m_to_send_queue (service_of w1) \<noteq> [] then on_service (enable_transmit_timer 3) w1 else w1)"
        using assms h s False by (auto simp: cg_aoe_incoming_def Let_def split: Option.bind_split_asm)
      have "registry_steps af ?w w1"
        using w1(1) by (auto simp: count_unexpected_def dest: dispatch_steps intro: service_steps split: if_split_asm)
      moreover have "registry_steps af w1 w'" using w1(2) service_steps by simp
      ultimately show ?thesis using service_steps rtranclp_trans by metis
    next
      case err: False
      then have "w' = count_unexpected ?w" using assms h s False by (simp add: cg_aoe_incoming_def Let_def)
      then show ?thesis using rtranclp_trans [OF service_steps service_steps] by (simp add: count_unexpected_def)
    qed
  qed
qed

lemma input_steps:
  "aoefilter_input_func k freed af this alloc ifn protocol (m, d) = Some (r, m', d') \<Longrightarrow>
   registry_steps af (dr_world d) (dr_world d')"
  by (auto simp: aoefilter_input_func_def c_aoe_incoming_def aoe_incoming_def Let_def dest: incoming_steps
      split: if_split_asm Option.bind_split_asm prod.split_asm)

lemma update_steps:
  "c_update_target k af d = Some (r, n, d') \<Longrightarrow> registry_steps af (dr_world d) (dr_world d')"
  by (auto simp: c_update_target_def find_targets_def dest!: one_step [OF rs_search]
      split: if_split_asm Option.bind_split_asm)

lemma get_steps:
  "aoeinterface_get k af opt data len (prefs, d) = Some (r, v, d') \<Longrightarrow> registry_steps af (dr_world d) (dr_world d')"
  by (auto simp: aoeinterface_get_def reply_value_def Let_def dest: update_steps
      split: get_option.split_asm Option.bind_split_asm if_split_asm prod.split_asm)

lemma enable_added_steps:
  "enable_added k prev new d = Some d' \<Longrightarrow> registry_steps af (dr_world d) (dr_world d')"
proof (induction new arbitrary: d)
  case (Cons n new)
  then obtain d1 where d1: "(if n \<in> set prev then Some d else c_enable_interface k (sint n) d) = Some d1"
      "enable_added k prev new d1 = Some d'" by (auto split: Option.bind_split_asm)
  have "registry_steps af (dr_world d) (dr_world d1)"
    using d1(1) by (auto simp: c_enable_interface_def enable_interface_def dest: enable_steps split: if_split_asm)
  then show ?case using Cons.IH [OF d1(2)] by (rule rtranclp_trans)
qed simp

lemma disable_removed_steps:
  "disable_removed k af new prev d = Some d' \<Longrightarrow> registry_steps af (dr_world d) (dr_world d')"
proof (induction prev arbitrary: d)
  case (Cons n prev)
  then obtain d1 where d1: "(if n \<in> set new then Some d else map_option snd (c_disable_interface k af (sint n) d)) = Some d1"
      "disable_removed k af new prev d1 = Some d'" by (auto split: Option.bind_split_asm)
  have "registry_steps af (dr_world d) (dr_world d1)"
    using d1(1) by (auto simp: c_disable_interface_def disable_interface_def dest: interface_disconnected_steps
        split: if_split_asm Option.bind_split_asm)
  then show ?case using Cons.IH [OF d1(2)] by (rule rtranclp_trans)
qed simp

lemma settings_steps:
  "registry_steps af (dr_world d) (dr_world (snd (c_set_max_transfer_size n d)))"
  "registry_steps af (dr_world d) (dr_world (snd (c_set_user_window n d)))"
  "c_set_ourcstring f s d = Some (r, d') \<Longrightarrow> registry_steps af (dr_world d) (dr_world d')"
  by (auto simp: c_set_max_transfer_size_def c_set_user_window_def c_set_ourcstring_def set_user_window_def
      set_our_cstring_def intro: one_step rs_max service_steps
      split: if_split_asm Option.bind_split_asm dest: service_eq_steps)

lemma preferences_steps:
  assumes "set_preferences k af f given (previous, d) = Some (prefs, d')"
  shows "registry_steps af (dr_world d) (dr_world d')"
proof -
  obtain d1 d2 r4 d4 r5 n where run: "enable_added k (ports previous) (ports (clamp_ports given)) d = Some d1"
      "disable_removed k af (ports (clamp_ports given)) (ports previous) d1 = Some d2"
      "c_set_ourcstring f (aszComputerConfigString (clamp_ports given))
        (snd (c_set_user_window (sint (nUserBlockCountWindow (clamp_ports given)))
          (snd (c_set_max_transfer_size (sint (pf_nMaxTransferSize (clamp_ports given))) d2)))) = Some (r4, d4)"
      "c_update_target k af d4 = Some (r5, n, d')"
    using assms by (auto simp: set_preferences_def Let_def split: Option.bind_split_asm)
  show ?thesis
    by (rule rtranclp_trans [OF enable_added_steps [OF run(1)] rtranclp_trans [OF disable_removed_steps [OF run(2)]
        rtranclp_trans [OF settings_steps(1) rtranclp_trans [OF settings_steps(2)
        rtranclp_trans [OF settings_steps(3) [OF run(3)] update_steps [OF run(4)]]]]]])
qed

lemma set_steps:
  assumes "aoeinterface_set k af f pData (previous, d) = Some (r, prefs, d')"
  shows "registry_steps af (dr_world d) (dr_world d')"
  using assms
  by (auto simp: aoeinterface_set_def c_set_logging_def c_force_packet_def c_set_targets_cstring_def
      dest!: preferences_steps one_step [OF rs_force] one_step [OF rs_cstring] intro!: service_steps
      split: option.split_asm set_option.split_asm if_split_asm)

lemma driver_step_steps:
  assumes "driver_step af a b"
  shows "registry_steps af (dr_world a) (dr_world b)"
  using assms
proof cases
  case (ds_command cs p i k r c p')
  then show ?thesis by (auto intro: one_step rs_command)
qed (auto dest: input_steps event_steps get_steps set_steps intro: service_steps one_step rs_timer rs_fake)

definition driver_event :: "driver \<Rightarrow> driver \<Rightarrow> bool" where
  "driver_event a b \<longleftrightarrow> (\<exists>af. family_keeps af \<and> driver_step af a b)"

lemma registry_events: "family_keeps af \<Longrightarrow> registry_steps af w w' \<Longrightarrow> registry_event\<^sup>*\<^sup>* w w'"
  by (rule rtranclp_mono [THEN predicate2D, rotated]) (auto simp: registry_event_def)

interpretation driver: refined_machine registry_event registry_ok driver_event dr_world
  by unfold_locales (auto simp: driver_event_def dest: driver_step_steps registry_events)

lemma driver_events: "family_keeps af \<Longrightarrow> (driver_step af)\<^sup>*\<^sup>* a b \<Longrightarrow> driver_event\<^sup>*\<^sup>* a b"
  by (rule rtranclp_mono [THEN predicate2D, rotated]) (auto simp: driver_event_def)

lemma registry_ok_start: "registry_ok (dr_world (snd (driver_start u t)))"
  by (simp add: driver_start_def registry_ok_def ids_ok_def interface_init_def Let_def split: prod.split)

text \<open>C3: the driver refines the registry of targets: every event of the driver, be it a packet, a change of a
  link, a timer, a query or new preferences, is for the list of targets a sequence of events of the
  registry. So whatever happens after the driver has started, no two targets share a number or an address.\<close>

theorem driver_refines_registry:
  assumes "family_keeps af" "(driver_step af)\<^sup>*\<^sup>* (snd (driver_start u t)) d"
  shows "registry_event\<^sup>*\<^sup>* (dr_world (snd (driver_start u t))) (dr_world d) \<and>
    distinct (map target_number (fst (dr_world d))) \<and>
    distinct (map (\<lambda>c. (nShelf (m_target c), nSlot (m_target c))) (fst (dr_world d)))"
proof -
  have run: "driver_event\<^sup>*\<^sup>* (snd (driver_start u t)) d" using assms by (rule driver_events)
  have "registry_ok (dr_world d)" using driver.events_inv [OF run registry_ok_start] .
  then show ?thesis
    using driver.events_steps [OF run] registry_ok_distinct [of "fst (dr_world d)" "snd (dr_world d)"] by simp
qed

definition example_start :: start_setup where
  "example_start = \<lparr>st_super = True, st_ctl = True, st_interface = example_setup, st_attach = True,
     st_start = True, st_timers = replicate 6 True, st_gate = True\<rparr>"

text \<open>A reply to a search from target 2.0, as it comes in from the network.\<close>

definition config_frame :: frame where
  "config_frame = \<lparr>fr_mark = None, fr_ether_type = htons ETHERTYPE_AOE, fr_ether_shost = 17,
     fr_mbuf = \<lparr>rx_mem = aoe_header_mem ((aoe_header_to 2 0 AOE_CFG_COMMAND 0x40000001)
       \<lparr>ah_verflagserr := AOE_HEADER_SETVERFLAGERR 1 8 0\<rparr>) @ replicate 8 0, rx_chain = []\<rparr>\<rparr>"

lemma example_interface_init:
  "fst (interface_init example_setup service_start)"
  by code_simp

lemma example_started:
  "snd (driver_start example_start t) = \<lparr>dr_world = snd (interface_init example_setup service_start),
     dr_filters = filter_init t, m_pCmdGate = True, g_pController = True, ctl_registered = True\<rparr>"
  using example_interface_init
  by (auto simp: driver_start_def example_start_def example_setup_def Let_def list_all_iff split: prod.split)

abbreviation (input) config_header :: aoe_header where
  "config_header \<equiv> (aoe_header_to 2 0 AOE_CFG_COMMAND 0x40000001)\<lparr>ah_verflagserr := AOE_HEADER_SETVERFLAGERR 1 8 0\<rparr>"

lemma config_headers:
  "aoe_header_at (rx_mem (fr_mbuf config_frame)) = Some config_header"
  "aoe_cfghdr_at (drop 10 (rx_mem (fr_mbuf config_frame))) = Some clear_cfghdr"
  "drop 18 (rx_mem (fr_mbuf config_frame)) = []"
  by code_simp+

lemma config_frame_fields [simp]:
  "fr_mark config_frame = None" "fr_ether_type config_frame = htons ETHERTYPE_AOE" "fr_ether_shost config_frame = 17"
  by (simp_all add: config_frame_def)

lemma config_fields:
  "AOE_HEADER_GETFLAG config_header AND AOE_FLAG_RESPONSE \<noteq> 0"
  "AOE_HEADER_GETFLAG config_header AND AOE_FLAG_ERROR = 0"
  "AOE_HEADER_GETCMD config_header = AOE_CFG_COMMAND"
  "expected False (AOE_HEADER_GETTAG config_header)"
  "m_sent_queue (service_of (snd (interface_init example_setup service_start))) = []"
  by code_simp+

lemma config_dispatched:
  "case aoe_config_receive example_kernel example_family (Some 1) 2 17 config_header clear_cfghdr []
      (snd (interface_init example_setup service_start)) of
     Some (_, w) \<Rightarrow> map (\<lambda>c. (nShelf (m_target c), nSlot (m_target c))) (fst w) = [(2, 0)]
   | None \<Rightarrow> False"
  by code_simp

lemma config_frame_received:
  assumes "aoe_config_receive example_kernel example_family (Some 1) 2 17 config_header clear_cfghdr []
      (snd (interface_init example_setup service_start)) = Some (r, w)"
  shows "\<exists>m' d. aoefilter_input_func example_kernel (\<lambda>i. i) example_family (Some 1) 0 2 AF_UNSPEC
      (config_frame, snd (driver_start example_start example_filters)) = Some (0, m', d) \<and> dr_world d = w"
  using config_fields assms
  by (simp add: example_started aoefilter_input_func_def c_aoe_incoming_def aoe_incoming_def cg_aoe_incoming_def
      config_headers response_found_def dispatch_def CheckTag_def SetTag_def on_service_same)

lemma target_appears:
  "\<exists>m' d. aoefilter_input_func example_kernel (\<lambda>i. i) example_family (Some 1) 0 2 AF_UNSPEC
      (config_frame, snd (driver_start example_start example_filters)) = Some (0, m', d) \<and>
     map (\<lambda>c. (nShelf (m_target c), nSlot (m_target c))) (fst (dr_world d)) = [(2, 0)]"
  using config_dispatched config_frame_received by (fastforce split: option.split_asm)

theorem driver_refines_registry_witness:
  "\<exists>d. (driver_step example_family)\<^sup>*\<^sup>* (snd (driver_start example_start example_filters)) d \<and>
     map (\<lambda>c. (nShelf (m_target c), nSlot (m_target c))) (fst (dr_world d)) = [(2, 0)] \<and>
     distinct (map target_number (fst (dr_world d)))"
proof -
  obtain m' d where "aoefilter_input_func example_kernel (\<lambda>i. i) example_family (Some 1) 0 2 AF_UNSPEC
      (config_frame, snd (driver_start example_start example_filters)) = Some (0, m', d)"
      and target: "map (\<lambda>c. (nShelf (m_target c), nSlot (m_target c))) (fst (dr_world d)) = [(2, 0)]"
    using target_appears by (elim exE conjE) (rule that)
  then have run: "(driver_step example_family)\<^sup>*\<^sup>* (snd (driver_start example_start example_filters)) d"
    by (intro r_into_rtranclp ds_input)
  show ?thesis
    using driver_refines_registry [OF example_family_keeps run] run target by (intro exI [of _ d] conjI) simp_all
qed

section \<open>Start\<close>

text \<open>\<open>start\<close> reports success exactly when everything has been set up, or when the controller interface
  could not be attached, or when there is no work loop. In the last two cases there is no command gate, and
  the first packet or preference change that reaches the driver traps. When it reports failure after the
  control socket was opened, both C files keep the pointer to the service.\<close>

theorem start_outcome:
  assumes "driver_start u t = (ok, d)" "st_super u" "st_ctl u"
  shows "g_pController d \<and>
    (ok \<longleftrightarrow> fst (interface_init (st_interface u) service_start) \<and> (\<not> st_attach u \<or>
      st_start u \<and> (\<not> su_workloop (st_interface u) \<or> list_all (\<lambda>ok. ok) (st_timers u) \<and> st_gate u))) \<and>
    (m_pCmdGate d \<longleftrightarrow> ok \<and> st_attach u \<and> su_workloop (st_interface u)) \<and>
    (\<not> m_pCmdGate d \<longrightarrow> c_aoe_incoming k freed af this ifn shost mb d = None \<and> c_enable_interface k n d = None)"
  using assms
  by (auto simp: driver_start_def Let_def c_aoe_incoming_def aoe_incoming_def c_enable_interface_def
      enable_interface_def split: prod.split_asm if_split_asm)

theorem start_outcome_witness:
  "\<exists>d. driver_start (example_start\<lparr>st_attach := False\<rparr>) example_filters = (True, d) \<and>
     c_enable_interface example_kernel 0 d = None"
proof -
  obtain ok d where run: "driver_start (example_start\<lparr>st_attach := False\<rparr>) example_filters = (ok, d)"
    by (cases "driver_start (example_start\<lparr>st_attach := False\<rparr>) example_filters")
  have "st_super (example_start\<lparr>st_attach := False\<rparr>)" "st_ctl (example_start\<lparr>st_attach := False\<rparr>)"
      "\<not> st_attach (example_start\<lparr>st_attach := False\<rparr>)"
      "fst (interface_init (st_interface (example_start\<lparr>st_attach := False\<rparr>)) service_start)" by code_simp+
  then show ?thesis
    using start_outcome [OF run] run by (intro exI [of _ d]) auto
qed

end
