(* ===== verification/PaneDriver.thy ===== *)
theory PaneDriver
  imports RegistryShown DriverRefine
begin

unbundle bit_operations_syntax

text \<open>
  The preference pane and the driver: what the controllers publish is true in every reachable state of the driver
  (\<open>driver_shown\<close>), so the list of the pane shows the targets the driver has, and a claim reaches the target of its
  row.
\<close>

section \<open>What the driver publishes\<close>

definition shown_event :: "world \<Rightarrow> world \<Rightarrow> bool" where
  "shown_event w w' \<longleftrightarrow> (\<exists>af. family_keeps af \<and> family_silent af \<and> registry_step af w w')"

definition shown_driver_event :: "driver \<Rightarrow> driver \<Rightarrow> bool" where
  "shown_driver_event d d' \<longleftrightarrow> (\<exists>af. family_keeps af \<and> family_silent af \<and> driver_step af d d')"

definition shown_ok :: "world \<Rightarrow> bool" where
  "shown_ok w \<longleftrightarrow> registry_ok w \<and> all_true w"

interpretation shown: refined_machine shown_event shown_ok shown_driver_event dr_world
proof
  show "shown_ok w'" if "shown_event w w'" "shown_ok w" for w w'
    using that registry_step_ok registry_step_true unfolding shown_event_def shown_ok_def by blast
  show "shown_event\<^sup>*\<^sup>* (dr_world d) (dr_world d')" if event: "shown_driver_event d d'" for d d'
  proof -
    obtain af where af: "family_keeps af" "family_silent af" "driver_step af d d'"
      using event by (auto simp: shown_driver_event_def)
    have "registry_step af \<le> shown_event" using af(1,2) by (auto simp: shown_event_def)
    then show ?thesis using driver_step_steps [OF af(3)] by (rule rtranclp_mono [THEN predicate2D])
  qed
qed

lemma shown_start: "shown_ok (dr_world (snd (driver_start u t)))"
  unfolding shown_ok_def using registry_ok_start
  by (simp add: driver_start_def all_true_def interface_init_def Let_def split: prod.split)

lemma driver_shown:
  assumes "family_keeps af" "family_silent af" "(driver_step af)\<^sup>*\<^sup>* (snd (driver_start u t)) d"
  shows "shown_ok (dr_world d)"
proof -
  have "driver_step af \<le> shown_driver_event" using assms(1,2) by (auto simp: shown_driver_event_def)
  then have "shown_driver_event\<^sup>*\<^sup>* (snd (driver_start u t)) d"
    using assms(3) by (rule rtranclp_mono [THEN predicate2D])
  then show ?thesis by (rule shown.events_inv) (rule shown_start)
qed

text \<open>What publishes the truth is typed, and its numbers are those of the target.\<close>

definition target_address :: "controller \<Rightarrow> int \<times> int" where
  "target_address c = (uint (nShelf (m_target c)), uint (nSlot (m_target c)))"

definition target_ports :: "controller \<Rightarrow> int list" where
  "target_ports c = map sint (take (nNumberOfInterfaces (m_target c)) (aInterfaceNum (m_target c)))"

lemma shown_controller:
  assumes "shown_ok w" "c \<in> set (fst w)"
  shows "published c" "(prop_int c SHELF_PROPERTY, prop_int c SLOT_PROPERTY) = target_address c"
    "prop_int c TARGET_PROPERTY = target_number c mod 2 ^ 16" "prop_ports c \<in> {[], target_ports c}"
proof -
  have t: "true_props c" using assms by (simp add: shown_ok_def all_true_def)
  have ok: "target_ok (m_target c)" "0 < target_number c" "nShelf (m_target c) < 0x10000" "nSlot (m_target c) < 0x100"
    using assms by (auto simp: shown_ok_def registry_ok_def ids_ok_def)
  have bits: "0 \<le> take_bit b i \<and> take_bit b i < 2 ^ b" for b and i :: int by simp
  show "published c"
    using t ok(1) bits [of 16] bits [of 8]
    by (auto simp: true_props_def published_def prop_bits_def target_ok_def split: option.split prop_value.split)
  have "uint (nShelf (m_target c)) < 2 ^ 16" "uint (nSlot (m_target c)) < 2 ^ 8"
    using ok(3,4) by (simp_all add: word_less_def)
  then show "(prop_int c SHELF_PROPERTY, prop_int c SLOT_PROPERTY) = target_address c"
    using t by (simp add: true_props_def prop_int_def target_address_def take_bit_int_eq_self)
  have "take_bit 16 (uint n) = sint n mod 2 ^ 16" for n :: u32
    unfolding uint_sint by (simp add: take_bit_take_bit) (simp add: take_bit_eq_mod)
  then show "prop_int c TARGET_PROPERTY = target_number c mod 2 ^ 16"
    using t by (simp add: true_props_def prop_int_def target_number_def)
  show "prop_ports c \<in> {[], target_ports c}"
    using t by (auto simp: true_props_def prop_ports_def target_ports_def)
qed

section \<open>The list of targets\<close>

text \<open>A row shows a target of the driver.\<close>

definition row_of :: "controller \<Rightarrow> pane_target \<Rightarrow> bool" where
  "row_of c t \<longleftrightarrow> (kShelf t, kSlot t) = target_address c \<and>
     (pt_online t \<longrightarrow> pt_number t = target_number c mod 2 ^ 16 \<and>
       (\<forall>n. target_connected_to_interface t n = (n \<in> set (target_ports c))))"

lemma shown_row:
  assumes "shown_ok w" "c \<in> set (fst w)" "shows_target c t"
  shows "row_of c t"
proof -
  have "(kShelf t, kSlot t) = target_address c"
    using shown_controller(2) [OF assms(1,2)] assms(3) by (simp add: shows_target_def)
  moreover have "prop_ports c = target_ports c" if "pt_online t"
    using shown_controller(4) [OF assms(1,2)] assms(3) that by (auto simp: shows_target_def)
  ultimately show ?thesis
    using shown_controller(3) [OF assms(1,2)] assms(3) by (simp add: row_of_def shows_target_def)
qed

lemma rows_addresses: "list_all2 row_of cs ts \<Longrightarrow> map (\<lambda>t. (kShelf t, kSlot t)) ts = map target_address cs"
  by (induction rule: list_all2_induct) (simp_all add: row_of_def)

lemma addresses_distinct:
  assumes "registry_ok w"
  shows "distinct (map target_address (fst w))"
proof -
  have "inj (map_prod uint uint :: u32 \<times> u32 \<Rightarrow> int \<times> int)" by (intro prod.inj_map injI word_uint_eqI)
  then have "distinct (map (map_prod uint uint) (map (snd \<circ> identity) (fst w)))"
    using assms by (simp add: registry_ok_def ids_ok_def distinct_map [of "map_prod uint uint"] inj_on_subset [of _ UNIV] del: map_map)
  moreover have "map_prod uint uint \<circ> (snd \<circ> identity) = target_address"
    by (auto simp: target_address_def identity_def)
  ultimately show ?thesis by simp
qed

text \<open>C6: whatever has happened to the driver since it started, the list of the preference pane shows exactly the targets
  it has: one row for each, no two with the same shelf and slot, with the capacity and the configuration string that the
  target has published. A row is online when the target publishes interfaces; only then has it a number, that of the
  target modulo 65536, and ports, those of the target: a row that is offline has neither.\<close>

theorem pane_shows_driver:
  assumes "family_keeps af" "family_silent af" "(driver_step af)\<^sup>*\<^sup>* (snd (driver_start v t)) d"
    "update_target_listings arrange F u True (Some (dr_world d)) row p = Some p'" "sorts arrange"
  shows "mset (map (\<lambda>t. (kShelf t, kSlot t)) (m_pTargets p')) = mset (map target_address (fst (dr_world d))) \<and>
    distinct (map (\<lambda>t. (kShelf t, kSlot t)) (m_pTargets p')) \<and>
    (\<forall>t \<in> set (m_pTargets p'). \<exists>c \<in> set (fst (dr_world d)). shows_target c t \<and> row_of c t)"
proof -
  have ok: "shown_ok (dr_world d)" using driver_shown [OF assms(1-3)] .
  obtain ts where ts: "list_all2 shows_target (fst (dr_world d)) ts" "mset (m_pTargets p') = mset ts"
    using listing_rows [OF assms(4,5)] shown_controller(1) [OF ok] by blast
  have rows: "list_all2 row_of (fst (dr_world d)) ts"
    using ts(1) shown_row [OF ok] by (auto simp: list_all2_conv_all_nth)
  have addresses: "mset (map (\<lambda>t. (kShelf t, kSlot t)) (m_pTargets p')) = mset (map target_address (fst (dr_world d)))"
    using rows_addresses [OF rows] ts(2) by (metis mset_map)
  moreover have "distinct (map (\<lambda>t. (kShelf t, kSlot t)) (m_pTargets p'))"
    using addresses_distinct [of "dr_world d"] ok mset_eq_imp_distinct_iff [OF addresses] by (simp add: shown_ok_def)
  moreover have "\<exists>c \<in> set (fst (dr_world d)). shows_target c t \<and> row_of c t" if "t \<in> set (m_pTargets p')" for t
  proof -
    have "t \<in> set ts" using that ts(2) by (metis set_mset_mset)
    then obtain i where "i < length ts" "t = ts ! i" by (auto simp: in_set_conv_nth)
    then show ?thesis using ts(1) rows by (auto simp: list_all2_conv_all_nth intro!: bexI [of _ "fst (dr_world d) ! i"])
  qed
  ultimately show ?thesis by blast
qed

lemma example_family_silent: "family_silent example_family"
  by (auto simp: family_silent_def example_family_def set_command_view)

text \<open>A target answers the search; the pane lists it, and its row is claimed.\<close>

lemma config_frame_listed:
  "case aoe_config_receive example_kernel example_family (Some 1) 2 17 config_header clear_cfghdr []
      (snd (interface_init example_setup service_start)) of
     Some (_, w) \<Rightarrow> (case update_target_listings shelf_order example_foundation 0 True (Some w) 0 example_pane of
         Some p \<Rightarrow> map (\<lambda>t. (kShelf t, kSlot t, pt_online t)) (m_pTargets p) = [(2, 0, True)] \<and>
           (case ClaimedPressed True True (Some w) None False 0 p of Some (cmd, _) \<Rightarrow> cmd = Some ''-c1'' | None \<Rightarrow> False)
       | None \<Rightarrow> False)
   | None \<Rightarrow> False"
  by code_simp

lemma config_frame_shown:
  "\<exists>d p p'. (driver_step example_family)\<^sup>*\<^sup>* (snd (driver_start example_start example_filters)) d \<and>
     update_target_listings shelf_order example_foundation 0 True (Some (dr_world d)) 0 example_pane = Some p \<and>
     map (\<lambda>t. (kShelf t, kSlot t, pt_online t)) (m_pTargets p) = [(2, 0, True)] \<and>
     ClaimedPressed True True (Some (dr_world d)) None False 0 p = Some (Some ''-c1'', p')"
proof -
  obtain r w where received: "aoe_config_receive example_kernel example_family (Some 1) 2 17 config_header clear_cfghdr []
      (snd (interface_init example_setup service_start)) = Some (r, w)"
    using config_frame_listed by (auto split: option.split_asm)
  obtain p p' where p: "update_target_listings shelf_order example_foundation 0 True (Some w) 0 example_pane = Some p"
      "map (\<lambda>t. (kShelf t, kSlot t, pt_online t)) (m_pTargets p) = [(2, 0, True)]"
      "ClaimedPressed True True (Some w) None False 0 p = Some (Some ''-c1'', p')"
    using config_frame_listed unfolding received by (auto split: option.split_asm)
  obtain m' d where "aoefilter_input_func example_kernel (\<lambda>i. i) example_family (Some 1) 0 2 AF_UNSPEC
      (config_frame, snd (driver_start example_start example_filters)) = Some (0, m', d)" and w: "dr_world d = w"
    using config_frame_received [OF received] by (elim exE conjE) (rule that)
  then have "(driver_step example_family)\<^sup>*\<^sup>* (snd (driver_start example_start example_filters)) d"
    by (intro r_into_rtranclp ds_input)
  with p [folded w] show ?thesis by (intro exI [of _ d] exI [of _ p] exI [of _ p'] conjI)
qed

theorem pane_shows_driver_witness:
  "\<exists>d p. (driver_step example_family)\<^sup>*\<^sup>* (snd (driver_start example_start example_filters)) d \<and>
     update_target_listings shelf_order example_foundation 0 True (Some (dr_world d)) 0 example_pane = Some p \<and>
     map (\<lambda>t. (kShelf t, kSlot t, pt_online t)) (m_pTargets p) = [(2, 0, True)] \<and>
     (\<exists>c \<in> set (fst (dr_world d)). row_of c (hd (m_pTargets p)))"
proof -
  obtain d p p' where run: "(driver_step example_family)\<^sup>*\<^sup>* (snd (driver_start example_start example_filters)) d"
      and p: "update_target_listings shelf_order example_foundation 0 True (Some (dr_world d)) 0 example_pane = Some p"
        "map (\<lambda>t. (kShelf t, kSlot t, pt_online t)) (m_pTargets p) = [(2, 0, True)]"
    using config_frame_shown by (elim exE conjE) (rule that)
  have row: "hd (m_pTargets p) \<in> set (m_pTargets p)" using p(2) by (cases "m_pTargets p") simp_all
  have "\<exists>c \<in> set (fst (dr_world d)). row_of c (hd (m_pTargets p))"
    using row pane_shows_driver [OF example_family_keeps example_family_silent run p(1) shelf_order_sorts] by blast
  with run p show ?thesis by (intro exI [of _ d] exI [of _ p] conjI)
qed

section \<open>A claim\<close>

text \<open>C7: whatever has happened to the driver since it started, the claim button pressed on an online row reaches the
  target of that row: \<open>aoed\<close> is given its number, which no other target has, and changes its configuration string;
  it claims a target whose string is empty and releases every other one, that of another computer only after
  the warning has been accepted. Beyond 65535 the number is cut off.\<close>

theorem claim_reaches_driver:
  assumes "family_keeps af" "family_silent af" "(driver_step af)\<^sup>*\<^sup>* (snd (driver_start v t)) d"
    "update_target_listings arrange F u True (Some (dr_world d)) row p0 = Some p" "sorts arrange"
    "ClaimedPressed exists mp service serial reclaim nRow p = Some (Some cmd, p')" "pt_online (m_pTargets p ! nat nRow)"
    "2 ^ 16 \<le> en_long_max env"
  shows "\<exists>c \<in> set (fst (dr_world d)). row_of c (m_pTargets p ! nat nRow) \<and> pn_authorised p' \<and>
    (\<forall>c' \<in> set (fst (dr_world d)). target_number c' = target_number c \<longrightarrow> c' = c) \<and>
    (prop_string c \<noteq> [] \<longrightarrow> cstr_ours serial (Some (prop_string c)) = Some 0 \<or> reclaim) \<and>
    (target_number c < 2 ^ 16 \<longrightarrow> (\<forall>k af' F' (st :: 'cf daemon). options_loop k af' F' env (getopt_argument cmd) st =
      on_kext ((if prop_string c = [] then claim_target k af' F' env else unclaim_target k af' env)
        (snd (connect_to_driver (en_connect env))) (target_number c)) st))"
proof -
  have ok: "shown_ok (dr_world d)" using driver_shown [OF assms(1-3)] .
  have published: "\<forall>c \<in> set (fst (dr_world d)). published c" using shown_controller(1) [OF ok] by blast
  obtain c where c: "c \<in> set (fst (dr_world d))" "shows_target c (m_pTargets p ! nat nRow)" "pn_authorised p'"
      "prop_string c \<noteq> [] \<longrightarrow> cstr_ours serial (Some (prop_string c)) = Some 0 \<or> reclaim"
      "\<And>k af' F' (st :: 'cf daemon). options_loop k af' F' env (getopt_argument cmd) st =
        on_kext ((if prop_string c = [] then claim_target k af' F' env else unclaim_target k af' env)
          (snd (connect_to_driver (en_connect env))) (prop_int c TARGET_PROPERTY)) st"
    using claim_row_target [OF assms(4,5) published assms(6-8)] by blast
  have d: "distinct (map target_number (fst (dr_world d)))" "\<forall>c \<in> set (fst (dr_world d)). 1 \<le> target_number c"
    using registry_ok_distinct [of "fst (dr_world d)" "snd (dr_world d)"] ok by (simp_all add: shown_ok_def)
  have "prop_int c TARGET_PROPERTY = target_number c" if "target_number c < 2 ^ 16"
    using shown_controller(3) [OF ok c(1)] d(2) c(1) that by force
  then show ?thesis
    using c(1,3,4,5) shown_row [OF ok c(1,2)] d(1) by (intro bexI [OF _ c(1)]) (auto simp: distinct_map inj_on_def)
qed

theorem claim_reaches_driver_witness:
  "\<exists>d p p'. (driver_step example_family)\<^sup>*\<^sup>* (snd (driver_start example_start example_filters)) d \<and>
     update_target_listings shelf_order example_foundation 0 True (Some (dr_world d)) 0 example_pane = Some p \<and>
     ClaimedPressed True True (Some (dr_world d)) None False 0 p = Some (Some ''-c1'', p') \<and>
     (\<exists>c \<in> set (fst (dr_world d)). target_address c = (2, 0) \<and> pn_authorised p')"
proof -
  obtain d p p' where run: "(driver_step example_family)\<^sup>*\<^sup>* (snd (driver_start example_start example_filters)) d"
      and p: "update_target_listings shelf_order example_foundation 0 True (Some (dr_world d)) 0 example_pane = Some p"
        "map (\<lambda>t. (kShelf t, kSlot t, pt_online t)) (m_pTargets p) = [(2, 0, True)]"
        "ClaimedPressed True True (Some (dr_world d)) None False 0 p = Some (Some ''-c1'', p')"
    using config_frame_shown by (elim exE conjE) (rule that)
  obtain t where t: "m_pTargets p = [t]" "kShelf t = 2" "kSlot t = 0" "pt_online t" using p(2) by auto
  then have row: "pt_online (m_pTargets p ! nat 0)" by simp
  have "2 ^ 16 \<le> en_long_max example_environment" by (simp add: example_environment_def)
  from claim_reaches_driver [OF example_family_keeps example_family_silent run p(1) shelf_order_sorts p(3) row this]
  obtain c where "c \<in> set (fst (dr_world d))" "row_of c t" "pn_authorised p'" using t(1) by auto
  then have "\<exists>c \<in> set (fst (dr_world d)). target_address c = (2, 0) \<and> pn_authorised p'"
    using t(2,3) by (intro bexI [of _ c]) (simp_all add: row_of_def)
  with run p(1,3) show ?thesis by (intro exI [of _ d] exI [of _ p] exI [of _ p'] conjI)
qed

section \<open>The claim button and the order of the rows\<close>

text \<open>C37: after an update of the list the claim button follows the order in which the driver found the targets, and not the
  rows on the screen: with a row selected, it is on exactly when the target at that place in the driver's list
  publishes interfaces (and the pane is unlocked and the driver there), whatever the sorting puts in that row. When that is
  a target that is offline, pressing the button makes \<open>aoed\<close> claim the number 0, which no target ever has.\<close>

theorem claim_button_row:
  assumes "family_keeps af" "family_silent af" "(driver_step af)\<^sup>*\<^sup>* (snd (driver_start v t)) d"
    "update_target_listings arrange F u True (Some (dr_world d)) row p0 = Some p" "sorts arrange"
    "0 \<le> row" "fst (dr_world d) \<noteq> []"
  shows "nat row < length (fst (dr_world d)) \<and>
    (pn_claim_enabled p \<longleftrightarrow> pn_authorised p0 \<and> m_fDriverLoaded p0 \<and> prop_ports (fst (dr_world d) ! nat row) \<noteq> []) \<and>
    (pn_claim_enabled p \<and> \<not> pt_online (m_pTargets p ! nat row) \<longrightarrow>
      ClaimedPressed True True (Some (dr_world d)) serial reclaim row p = Some (Some ''-c0'', p\<lparr>pn_claim_enabled := False\<rparr>) \<and>
      (\<forall>c \<in> set (fst (dr_world d)). target_number c \<noteq> 0))"
proof -
  have ok: "shown_ok (dr_world d)" using driver_shown [OF assms(1-3)] .
  then have published: "\<forall>c \<in> set (fst (dr_world d)). published c" using shown_controller(1) by blast
  note button = listing_button [OF assms(4) published assms(6,7)]
  obtain ts where ts: "list_all2 shows_target (fst (dr_world d)) ts" "mset (m_pTargets p) = mset ts"
    using listing_rows [OF assms(4,5) published] by blast
  have row: "nat row < length (m_pTargets p)"
    using button(1) list_all2_lengthD [OF ts(1)] ts(2) by (metis size_mset)
  then have "m_pTargets p ! nat row \<in> set ts" using ts(2) by (metis nth_mem set_mset_mset)
  then obtain c where "shows_target c (m_pTargets p ! nat row)"
    using ts(1) by (auto simp: in_set_conv_nth list_all2_conv_all_nth)
  then have "ClaimedPressed True True (Some (dr_world d)) serial reclaim row p = Some (Some ''-c0'', p\<lparr>pn_claim_enabled := False\<rparr>)"
    if "pn_claim_enabled p" "\<not> pt_online (m_pTargets p ! nat row)"
    using offline_pressed [OF _ that(2) assms(6) row] that(1) button(2,3) by auto
  moreover have "\<forall>c \<in> set (fst (dr_world d)). target_number c \<noteq> 0"
    using ok by (auto simp: shown_ok_def registry_ok_def ids_ok_def)
  ultimately show ?thesis using button(1,2) by auto
qed

text \<open>Two targets answer; the list of interfaces of the first cannot be published. Its shelf is the greater one.\<close>

definition later_frame :: frame where
  "later_frame = config_frame\<lparr>fr_mbuf := \<lparr>rx_mem = aoe_header_mem ((aoe_header_to 1 0 AOE_CFG_COMMAND 0x40000001)
     \<lparr>ah_verflagserr := AOE_HEADER_SETVERFLAGERR 1 8 0\<rparr>) @ replicate 8 0, rx_chain = []\<rparr>\<rparr>"

definition poor_kernel :: kernel where
  "poor_kernel = example_kernel\<lparr>OSArray_ok := \<lambda>_. False\<rparr>"

definition two_seen :: "driver option" where
  "two_seen = do {
     (_, _, d) \<leftarrow> aoefilter_input_func poor_kernel (\<lambda>i. i) example_family (Some 1) 0 2 AF_UNSPEC
       (config_frame, snd (driver_start example_start example_filters));
     (_, _, d) \<leftarrow> aoefilter_input_func example_kernel (\<lambda>i. i) example_family (Some 2) 0 2 AF_UNSPEC (later_frame, d);
     Some d }"

lemma two_seen_run:
  "case two_seen of Some d \<Rightarrow> map target_address (fst (dr_world d)) = [(2, 0), (1, 0)] \<and>
     (case update_target_listings shelf_order example_foundation 0 True (Some (dr_world d)) 1 example_pane of
        Some p \<Rightarrow> map (\<lambda>t. (kShelf t, pt_online t)) (m_pTargets p) = [(1, True), (2, False)]
      | None \<Rightarrow> False) \<and> prop_ports (fst (dr_world d) ! 1) \<noteq> []
   | None \<Rightarrow> False"
  by code_simp

theorem claim_button_row_witness:
  "\<exists>d p. (driver_step example_family)\<^sup>*\<^sup>* (snd (driver_start example_start example_filters)) d \<and>
     update_target_listings shelf_order example_foundation 0 True (Some (dr_world d)) 1 example_pane = Some p \<and>
     map (\<lambda>t. (kShelf t, pt_online t)) (m_pTargets p) = [(1, True), (2, False)] \<and> pn_claim_enabled p \<and>
     ClaimedPressed True True (Some (dr_world d)) None False 1 p = Some (Some ''-c0'', p\<lparr>pn_claim_enabled := False\<rparr>)"
proof -
  obtain d where d: "two_seen = Some d" using two_seen_run by (cases two_seen) auto
  note seen = two_seen_run [unfolded d option.case]
  then obtain p where p: "update_target_listings shelf_order example_foundation 0 True (Some (dr_world d)) 1 example_pane = Some p"
      "map (\<lambda>t. (kShelf t, pt_online t)) (m_pTargets p) = [(1, True), (2, False)]"
    by (auto split: option.split_asm)
  obtain r1 m1 d1 r2 m2 where "aoefilter_input_func poor_kernel (\<lambda>i. i) example_family (Some 1) 0 2 AF_UNSPEC
        (config_frame, snd (driver_start example_start example_filters)) = Some (r1, m1, d1)"
      "aoefilter_input_func example_kernel (\<lambda>i. i) example_family (Some 2) 0 2 AF_UNSPEC (later_frame, d1) = Some (r2, m2, d)"
    using d by (auto simp: two_seen_def split: Option.bind_split_asm)
  then have run: "(driver_step example_family)\<^sup>*\<^sup>* (snd (driver_start example_start example_filters)) d"
    using ds_input by (meson rtranclp.rtrancl_refl rtranclp.rtrancl_into_rtrancl)
  have "fst (dr_world d) \<noteq> []" using seen by auto
  note button = claim_button_row [OF example_family_keeps example_family_silent run p(1) shelf_order_sorts _ this, of None False]
  have pane: "pn_authorised example_pane" "m_fDriverLoaded example_pane" by (simp_all add: example_pane_def)
  have "\<not> pt_online (m_pTargets p ! nat 1)" using p(2) by (auto simp: map_eq_Cons_conv)
  moreover have "pn_claim_enabled p" using button seen pane by simp
  ultimately show ?thesis using button run p by (intro exI [of _ d] exI [of _ p]) simp
qed

end
