(* ===== verification/ClaimPacket.thy ===== *)
theory ClaimPacket
  imports PaneDriver
begin

unbundle bit_operations_syntax

text \<open>
  A claim on the wire: \<open>aoed\<close> claiming a target makes the driver queue one packet, which tells the target to take the
  string of this computer; releasing it sends a string as well, of one byte that nobody has set.
\<close>

section \<open>The string\<close>

lemma unique_config_string:
  assumes "length (unique_string serial name) < length buf"
  shows "\<exists>r. get_unique_config_string F (Some serial) (Some name) buf = Some (unique_string serial name @ 0 # r) \<and>
    length (unique_string serial name @ 0 # r) = length buf"
  using assms by (simp add: get_unique_config_string_def Let_def)

lemma unique_string_terminates: "0 \<notin> set serial \<Longrightarrow> 0 \<notin> set name \<Longrightarrow> 0 \<notin> set (unique_string serial name)"
  using prefix_bytes(1) by (simp add: unique_string_def)

lemma take_string: "0 \<notin> set u \<Longrightarrow> takeWhile (\<lambda>x. x \<noteq> 0) (u @ 0 # r) = (u :: u8 list)"
  by (induction u) auto

lemma strncpy_string:
  assumes "0 \<notin> set u" "length u < length dst"
  shows "strncpy dst (u @ 0 # r) (length (u @ [0])) = Some ((u @ [0]) @ drop (length (u @ [0])) dst)"
  using assms take_string [OF assms(1), of "[]"] by (simp add: strncpy_def)

lemma strncpy_byte: "src \<noteq> [] \<Longrightarrow> 1 \<le> length dst \<Longrightarrow> strncpy dst src 1 = Some ([hd src] @ drop 1 dst)"
  by (cases src) (auto simp: strncpy_def)

lemma strncmp_string: "0 \<notin> set u \<Longrightarrow> length u < n \<Longrightarrow> strncmp_eq n (u @ 0 # a) (u @ 0 # b)"
proof (induction u arbitrary: n)
  case Nil
  then show ?case by (cases n) auto
next
  case (Cons x u)
  then show ?case by (cases n) auto
qed

section \<open>The packet\<close>

lemma send_on_interface_our_string:
  "send_packet_on_interface k ifp tag m sh rt s = Some (r, s') \<Longrightarrow> m_pszOurCString s' = m_pszOurCString s"
  by (auto simp: send_packet_on_interface_def add_to_send_queue_def enable_transmit_timer_def
      enable_retransmit_timer_def enable_idle_timer_def purge_to_send_def Let_def split: if_split_asm)

lemma send_packet_our_string:
  "send_packet k m Tag t p = Some (r, t', p') \<Longrightarrow> m_pszOurCString (m_pAoEService p') = m_pszOurCString (m_pAoEService p)"
  by (auto simp: send_packet_def Let_def dest: send_on_interface_our_string split: if_split_asm Option.bind_split_asm prod.splits)

text \<open>The packet is addressed to the target and sets its configuration string to these bytes.\<close>

definition string_packet :: "TargetInfo \<Rightarrow> u8 list \<Rightarrow> ToSendPkt \<Rightarrow> bool" where
  "string_packet t b i \<longleftrightarrow>
     (let h = pk_aoe (ts_mbuf i) in
       uint (AOE_HEADER_GETMAJOR h) = uint (nShelf t) \<and> AOE_HEADER_GETMINOR h = nSlot t \<and>
       AOE_HEADER_GETCMD h = AOE_CFG_COMMAND \<and> AOE_HEADER_GETTAG h = ts_Tag i) \<and>
     (\<exists>g. pk_body (ts_mbuf i) = CFG g \<and> AOE_CFGHEADER_GETCCMD g = CONFIG_STR_FORCE_SET \<and>
        unat (AOE_CFGHEADER_GETCSLEN g) = length b) \<and>
     pk_data (ts_mbuf i) = b"

lemma string_header:
  assumes "nShelf t < 0x10000" "nSlot t < 0x100"
  shows "let h = aoe_header_to (nShelf t) (nSlot t) AOE_CFG_COMMAND tag in
    uint (AOE_HEADER_GETMAJOR h) = uint (nShelf t) \<and> AOE_HEADER_GETMINOR h = nSlot t \<and>
    AOE_HEADER_GETCMD h = AOE_CFG_COMMAND \<and> AOE_HEADER_GETTAG h = tag"
proof -
  let ?h = "(AOE_HEADER_CLEAR clear_aoe_header)\<lparr>ah_verflagserr := AOE_HEADER_SETVERFLAGERR AOE_SUPPORTED_VER 0 0\<rparr>"
  have shelf: "ucast (ucast (nShelf t) :: u16) = nShelf t" "uint (ucast (nShelf t) :: u16) = uint (nShelf t)"
    using assms(1) by (simp_all add: word_less_def word_uint_eq_iff unsigned_ucast_eq unsigned_take_bit_eq take_bit_int_eq_self)
  have slot: "ucast (ucast (nSlot t) :: u8) = nSlot t"
    using assms(2) by (simp add: word_less_def word_uint_eq_iff unsigned_ucast_eq unsigned_take_bit_eq take_bit_int_eq_self)
  have cmd: "ucast (ucast AOE_CFG_COMMAND :: u8) = AOE_CFG_COMMAND" by simp
  from header_address_tag_roundtrip [where p = ?h and shelf = "ucast (nShelf t)" and slot = "ucast (nSlot t)" and cmd = "ucast AOE_CFG_COMMAND" and tag = tag]
  show ?thesis unfolding aoe_header_to_def Let_def shelf slot cmd by (simp add: shelf)
qed

lemma bit_four: "bit (4 :: u32) n \<Longrightarrow> n = 2"
  using bit_exp_iff [where ?'a = u32, of 2 n] by simp

lemma string_fields:
  assumes "n < 0x10000"
  shows "AOE_CFGHEADER_GETCCMD (h\<lparr>ac_scnt_aoe_ccmd := AOE_HEADER_SETSECTOR_CMD m CONFIG_STR_FORCE_SET, ac_cslen := l\<rparr>) = CONFIG_STR_FORCE_SET"
    "unat (AOE_CFGHEADER_GETCSLEN (h\<lparr>ac_cslen := AOE_HEADER_SETCSTRLEN (word_of_nat n)\<rparr>)) = n"
proof -
  show "AOE_CFGHEADER_GETCCMD (h\<lparr>ac_scnt_aoe_ccmd := AOE_HEADER_SETSECTOR_CMD m CONFIG_STR_FORCE_SET, ac_cslen := l\<rparr>) = CONFIG_STR_FORCE_SET"
    unfolding wire_defs by (auto intro!: bit_word_eqI simp: mask_simps bit_simps dest: bit_four)
  show "unat (AOE_CFGHEADER_GETCSLEN (h\<lparr>ac_cslen := AOE_HEADER_SETCSTRLEN (word_of_nat n)\<rparr>)) = n"
    using assms unfolding wire_defs
    by (simp add: unsigned_ucast_eq unsigned_of_nat take_bit_take_bit) (simp add: take_bit_nat_eq_self)
qed

text \<open>The length given is one less than the number of bytes: the terminator is added.\<close>

lemma set_config_string_sends:
  assumes "kernel_ok k" "target_ok (m_target c)" "nShelf (m_target c) < 0x10000" "nSlot (m_target c) < 0x100"
    "interfaces_active (m_pAoEService p) (m_target c)"
    "strncpy (m_aConfigString c) src (length b) = Some (b @ r)" "length b \<le> 1024" "len = int (length b) - 1"
  shows "\<exists>c' p' item. set_config_string k src len (c, p) = Some (0, c', p') \<and>
    m_to_send_queue (m_pAoEService p') = m_to_send_queue (m_pAoEService p) @ [item] \<and> string_packet (m_target c) b item \<and>
    identity c' = identity c \<and> m_fRegistered c' = m_fRegistered c \<and> m_aConfigString c' = b @ r \<and>
    m_pszOurCString (m_pAoEService p') = m_pszOurCString (m_pAoEService p)"
proof -
  obtain Tag q where tag: "next_tag p = (Tag, q)" by (cases "next_tag p")
  have q: "m_pAoEService q = m_pAoEService p" using tag by (auto simp: next_tag_def Let_def)
  let ?m = "\<lparr>ether_dhost = 0, ether_shost = 0, ether_type = 0,
      pk_aoe = aoe_header_to (nShelf (m_target c)) (nSlot (m_target c)) AOE_CFG_COMMAND Tag,
      pk_body = CFG ((AOE_CFGHEADER_CLEAR clear_cfghdr)\<lparr>
        ac_scnt_aoe_ccmd := AOE_HEADER_SETSECTOR_CMD (word_of_int (m_nMaxSectorsPerTransfer c)) CONFIG_STR_FORCE_SET,
        ac_cslen := AOE_HEADER_SETCSTRLEN (word_of_nat (length b))\<rparr>), pk_data = b\<rparr>"
  have small: "unat (word_of_nat j :: u32) = j" if "j < 2 ^ 32" for j
    using that by (simp add: unsigned_of_nat take_bit_nat_eq_self)
  have n: "s32 (len + 1) = int (length b)" "unat (word_of_nat (length b) :: u32) = length b"
    using assms(7,8) by (simp add: s32_id) (rule small, use assms(7) in simp)
  have k: "mbuf_gethdr_err k = 0" "mbuf_attach_err k = 0" using assms(1) by (simp_all add: kernel_ok_def)
  have active: "interfaces_active (m_pAoEService q) (m_target c)" using assms(5) by (simp add: q)
  obtain i s item where send: "send_packet k ?m Tag (m_target c) q =
        Some (0, (m_target c)\<lparr>nLastSentInterface := i\<rparr>, q\<lparr>m_pAoEService := s\<rparr>)"
      "m_to_send_queue s = m_to_send_queue (m_pAoEService p) @ [item]" "ts_Tag item = Tag"
      "pk_aoe (ts_mbuf item) = pk_aoe ?m" "pk_body (ts_mbuf item) = pk_body ?m" "pk_data (ts_mbuf item) = pk_data ?m"
    using send_packet_queues [OF assms(1,2) active, of ?m Tag] unfolding q by blast
  have item: "string_packet (m_target c) b item"
    using string_header [OF assms(3,4), of Tag] string_fields [of "length b"] assms(7)
    by (simp add: string_packet_def send(3-6) Let_def)
  let ?c = "c\<lparr>m_aConfigString := b @ r, m_target := (m_target c)\<lparr>nLastSentInterface := i\<rparr>\<rparr>"
  have w: "word_of_int (int (length b)) = (word_of_nat (length b) :: u32)" by simp
  have "set_config_string k src len (c, p) = Some (0, ?c, q\<lparr>m_pAoEService := s\<rparr>)"
    unfolding set_config_string_def tag Let_def prod.case n(1) w n(2) create_mbuf_for_transfer_def k(1)
    using send(1) k(2) assms(6) by (simp add: attach_ext_to_mbuf_def send_aoe_packet_def)
  then show ?thesis
    using send(2) item send_packet_our_string [OF send(1)]
    by (intro exI [of _ ?c] exI [of _ "q\<lparr>m_pAoEService := s\<rparr>"] exI [of _ item]) (simp add: q identity_def)
qed

section \<open>From the program to the packet\<close>

lemma cstring_skip:
  "\<forall>x \<in> set xs. target_number x \<noteq> n \<Longrightarrow>
    cstring_each k af n s len seen r (xs @ ys, p) = cstring_each k af n s len (seen @ xs) r (ys, p)"
  by (induction xs arbitrary: seen) auto

text \<open>Completing a command may start the next one, which adds packets to the queue and takes none away.\<close>

definition family_appends :: "ata_family \<Rightarrow> bool" where
  "family_appends af \<longleftrightarrow> (\<forall>err cp. \<exists>more. m_to_send_queue (m_pAoEService (snd (af_completeIO af err cp))) =
     m_to_send_queue (m_pAoEService (snd cp)) @ more)"

lemma cancel_command_appends:
  assumes "family_appends af" "cancel_command af f (c, p) = (c', p')"
  shows "\<exists>more. m_to_send_queue (m_pAoEService p') = m_to_send_queue (m_pAoEService p) @ more"
proof -
  let ?c = "set_state kATAComplete (log_event (EventCallout kATAOfflineEvent) c)"
  obtain c1 where "af_completeIO af (if f then kATANoErr else kATADeviceError) (?c, p) = (c1, p')"
    using assms(2) by (auto simp: cancel_command_def Let_def split: prod.split_asm)
  then show ?thesis using assms(1) unfolding family_appends_def by (metis snd_conv)
qed

lemma controller_uninit_appends:
  assumes "family_appends af" "controller_uninit af (c, p) = (c', p')"
  shows "\<exists>more. m_to_send_queue (m_pAoEService p') = m_to_send_queue (m_pAoEService p) @ more"
proof -
  obtain c1 where "cancel_command af True (c, p) = (c1, p')"
    using assms(2) by (auto simp: controller_uninit_def Let_def split: prod.split_asm)
  then show ?thesis by (rule cancel_command_appends [OF assms(1)])
qed

lemma remove_target_appends:
  assumes "family_appends af" "remove_target k af n (cs, p) = Some (r, cs', p')"
  shows "\<exists>more. m_to_send_queue (m_pAoEService p') = m_to_send_queue (m_pAoEService p) @ more"
proof (cases "find_target n cs")
  case None
  then show ?thesis using assms(2) by (simp add: remove_target_def)
next
  case (Some i)
  obtain c1 p1 where a: "cancel_command af False (cs ! i, p) = (c1, p1)" by (cases "cancel_command af False (cs ! i, p)")
  obtain c2 where "remove_all_interfaces k c1 = Some c2" "\<exists>c3. controller_uninit af (c2, p1) = (c3, p')"
    using assms(2) Some a by (auto simp: remove_target_def split: Option.bind_split_asm prod.split_asm)
  then show ?thesis
    using cancel_command_appends [OF assms(1) a] controller_uninit_appends [OF assms(1)] by fastforce
qed

text \<open>
  The target is found by its number. When the bytes start with the string of the driver itself, its disk is registered
  at once; when they do not and the disk was registered, the target is removed from the list.
\<close>

lemma registry_sends:
  assumes "kernel_ok k" "registry_ok (xs @ c # ys, p)" "interfaces_active (m_pAoEService p) (m_target c)"
    "strncpy (m_aConfigString c) src (length b) = Some (b @ r)" "length b \<le> 1024" "len = int (length b) - 1"
    "m_fRegistered c \<longrightarrow> family_keeps af \<and> family_appends af"
  shows "\<exists>cs' p' item more. interface_set_targets_cstring k af (target_number c) src len (xs @ c # ys, p) = Some (0, cs', p') \<and>
    m_to_send_queue (m_pAoEService p') = m_to_send_queue (m_pAoEService p) @ item # more \<and> string_packet (m_target c) b item \<and>
    (if m_fRegistered c \<and> \<not> strncmp_eq 1024 (m_pszOurCString (m_pAoEService p)) (b @ r) then cs' = xs @ ys
     else more = [] \<and> (\<exists>c'. cs' = xs @ c' # ys \<and> identity c' = identity c \<and>
       (m_fRegistered c' \<longleftrightarrow> strncmp_eq 1024 (m_pszOurCString (m_pAoEService p)) (b @ r))))"
proof -
  have ok: "target_ok (m_target c)" "nShelf (m_target c) < 0x10000" "nSlot (m_target c) < 0x100"
    using assms(2) by (auto simp: registry_ok_def ids_ok_def)
  have others: "\<forall>x \<in> set xs. target_number x \<noteq> target_number c" "\<forall>y \<in> set ys. target_number y \<noteq> target_number c"
    using registry_ok_distinct [of "xs @ c # ys" p] assms(2) by (auto simp: image_iff)
  obtain c1 p1 item where sent: "set_config_string k src len (c, p) = Some (0, c1, p1)"
      "m_to_send_queue (m_pAoEService p1) = m_to_send_queue (m_pAoEService p) @ [item]" "string_packet (m_target c) b item"
      "identity c1 = identity c" "m_fRegistered c1 = m_fRegistered c" "m_aConfigString c1 = b @ r"
      "m_pszOurCString (m_pAoEService p1) = m_pszOurCString (m_pAoEService p)"
    using set_config_string_sends [OF assms(1) ok assms(3-6)] by blast
  have ours: "is_ours p1 c1 \<longleftrightarrow> strncmp_eq 1024 (m_pszOurCString (m_pAoEService p)) (b @ r)"
    using sent(6,7) by (simp add: is_ours_def cstring_is_ours_def)
  show ?thesis
  proof (cases "m_fRegistered c \<and> \<not> is_ours p1 c1")
    case True
    have "ids_ok (xs @ c1 # ys)"
      using ids_ok_update [of xs c ys c1] set_config_string_keeps [OF sent(1)] assms(2) sent(4) by (simp add: keeps_def registry_ok_def)
    then obtain p2 where gone: "remove_target k af (target_number c1) (xs @ c1 # ys, p1) = Some (0, xs @ ys, p2)"
      using remove_target_at [of af xs c1 ys k p1] assms(7) True by blast
    moreover obtain more where "m_to_send_queue (m_pAoEService p2) = m_to_send_queue (m_pAoEService p1) @ more"
      using remove_target_appends [OF _ gone] assms(7) True by blast
    moreover have "interface_set_targets_cstring k af (target_number c) src len (xs @ c # ys, p) = Some (0, xs @ ys, p2)"
      unfolding interface_set_targets_cstring_def cstring_skip [OF others(1)]
      using sent(1,5) True gone by (simp add: is_registered_def)
    ultimately show ?thesis using sent(2,3) True ours by auto
  next
    case False
    let ?c = "if \<not> m_fRegistered c1 \<and> is_ours p1 c1 then registerDiskService c1 else c1"
    have "cstring_each k af (target_number c) src len (xs @ [c1]) 0 (ys, p1) = Some (0, xs @ c1 # ys, p1)"
      using cstring_skip [OF others(2), where ys = "[]"] by simp
    then have "interface_set_targets_cstring k af (target_number c) src len (xs @ c # ys, p) = Some (0, xs @ ?c # ys, p1)"
      unfolding interface_set_targets_cstring_def cstring_skip [OF others(1)]
      using sent(1,5) False by (simp add: is_registered_def)
    moreover have "identity ?c = identity c" "m_fRegistered ?c \<longleftrightarrow> is_ours p1 c1"
      using sent(4,5) False by (auto simp: registerDiskService_def log_event_def identity_def Let_def)
    ultimately show ?thesis using sent(2,3) False unfolding ours by auto
  qed
qed

text \<open>The command of the control socket reaches the registry.\<close>

lemma command_sends:
  assumes "kernel_ok k" "registry_ok (dr_world d)" "g_pController d" "m_pCmdGate d" "m_Socket cl \<noteq> - 1" "cl_connected cl"
    "fst (dr_world d) = xs @ c # ys" "interfaces_active (service_of (dr_world d)) (m_target c)"
    "strncpy (m_aConfigString c) src (length b) = Some (b @ r)" "0 < length b" "length b \<le> 1024"
    "m_fRegistered c \<longrightarrow> family_keeps af \<and> family_appends af"
  shows "\<exists>d' item more. client_set_config_string k af cl
      \<lparr>cs_nTargetNumber = word_of_int (target_number c), cs_Length = word_of_nat (length b - 1), cs_pszConfig = src\<rparr> (prefs, d) =
      Some (0, prefs, d') \<and>
    m_to_send_queue (service_of (dr_world d')) = m_to_send_queue (service_of (dr_world d)) @ item # more \<and>
    string_packet (m_target c) b item \<and>
    (if m_fRegistered c \<and> \<not> strncmp_eq 1024 (m_pszOurCString (service_of (dr_world d))) (b @ r) then fst (dr_world d') = xs @ ys
     else more = [] \<and> (\<exists>c'. fst (dr_world d') = xs @ c' # ys \<and> identity c' = identity c \<and>
       (m_fRegistered c' \<longleftrightarrow> strncmp_eq 1024 (m_pszOurCString (service_of (dr_world d))) (b @ r))))"
proof -
  obtain p where w: "dr_world d = (xs @ c # ys, p)" using assms(7) by (cases "dr_world d") simp
  have ok: "registry_ok (xs @ c # ys, p)" "interfaces_active (m_pAoEService p) (m_target c)" using assms(2,8) by (simp_all add: w)
  let ?removed = "m_fRegistered c \<and> \<not> strncmp_eq 1024 (m_pszOurCString (m_pAoEService p)) (b @ r)"
  obtain cs' p' item more where sent: "interface_set_targets_cstring k af (target_number c) src (int (length b) - 1) (xs @ c # ys, p) =
        Some (0, cs', p')"
      "m_to_send_queue (m_pAoEService p') = m_to_send_queue (m_pAoEService p) @ item # more" "string_packet (m_target c) b item"
      "if ?removed then cs' = xs @ ys else more = [] \<and> (\<exists>c'. cs' = xs @ c' # ys \<and> identity c' = identity c \<and>
       (m_fRegistered c' \<longleftrightarrow> strncmp_eq 1024 (m_pszOurCString (m_pAoEService p)) (b @ r)))"
    using registry_sends [OF assms(1) ok assms(9,11) refl assms(12)] by blast
  obtain j where j: "length b = Suc j" using assms(10) by (cases "length b") auto
  have n: "sint (word_of_int (target_number c) :: u32) = target_number c"
      "sint (word_of_nat (length b - 1) :: u32) = int (length b) - 1"
    using sint_word_of_int_32 [of "int j"] sint_range_size [of "nTargetNumber (m_target c)"] assms(11)
    by (simp_all add: sint_word_of_int_32 target_number_def word_size j)
  have run: "client_set_config_string k af cl
      \<lparr>cs_nTargetNumber = word_of_int (target_number c), cs_Length = word_of_nat (length b - 1), cs_pszConfig = src\<rparr> (prefs, d) =
      Some (0, prefs, d\<lparr>dr_world := (cs', p')\<rparr>)"
    using assms(3-6) sent(1) n by (simp add: client_set_config_string_def set_command_def aoeinterface_set_def c_set_targets_cstring_def w)
  show ?thesis
    by (rule exI [of _ "d\<lparr>dr_world := (cs', p')\<rparr>"], rule exI [of _ item], rule exI [of _ more])
      (use run sent(2-4) in \<open>simp add: w\<close>)
qed

text \<open>C8: a claim reaches the wire: when \<open>aoed\<close> claims a target, the driver queues exactly one packet, addressed to the shelf and slot
  of that target, whose command forces the string that names this computer, with its terminator, on the target; no
  other target is touched, and when the string is also the driver's own, the disk of the target is registered at
  once.\<close>

theorem claim_sends_string:
  assumes "kernel_ok k" "registry_ok (dr_world d)" "g_pController d" "m_pCmdGate d" "m_Socket cl \<noteq> - 1" "cl_connected cl"
    "en_serial env = Some serial" "en_name env = Some name" "0 \<notin> set serial" "0 \<notin> set name"
    "length (unique_string serial name) < length (en_stack env)" "length (en_stack env) = 1024"
    "fst (dr_world d) = xs @ c # ys" "\<not> m_fRegistered c" "length (m_aConfigString c) = 1024"
    "interfaces_active (service_of (dr_world d)) (m_target c)"
  shows "\<exists>d' c' item. claim_target k af F env cl (target_number c) (prefs, d) = Some (prefs, d') \<and>
    fst (dr_world d') = xs @ c' # ys \<and> identity c' = identity c \<and>
    m_to_send_queue (service_of (dr_world d')) = m_to_send_queue (service_of (dr_world d)) @ [item] \<and>
    string_packet (m_target c) (unique_string serial name @ [0]) item \<and>
    ((\<exists>a. m_pszOurCString (service_of (dr_world d)) = unique_string serial name @ 0 # a) \<longrightarrow> m_fRegistered c')"
proof -
  let ?u = "unique_string serial name"
  note u = unique_string_terminates [OF assms(9,10)]
  obtain r where buffer: "get_unique_config_string F (Some serial) (Some name) (en_stack env) = Some (?u @ 0 # r)"
    using unique_config_string [OF assms(11)] by blast
  have bytes: "cstr (?u @ 0 # r) = Some ?u" using take_string [OF u] by (simp add: cstr_def)
  have len: "length ?u < 1024" using assms(11,12) by simp
  have copied: "strncpy (m_aConfigString c) (?u @ 0 # r) (length (?u @ [0])) =
      Some ((?u @ [0]) @ drop (length (?u @ [0])) (m_aConfigString c))"
    using len assms(15) by (intro strncpy_string [OF u]) simp
  have b: "0 < length (?u @ [0])" "length (?u @ [0]) \<le> 1024" "length (?u @ [0]) - 1 = length ?u" using len by simp_all
  obtain d' c' item where sent: "client_set_config_string k af cl \<lparr>cs_nTargetNumber = word_of_int (target_number c),
        cs_Length = word_of_nat (length ?u), cs_pszConfig = ?u @ 0 # r\<rparr> (prefs, d) = Some (0, prefs, d')"
      "fst (dr_world d') = xs @ c' # ys" "identity c' = identity c"
      "m_to_send_queue (service_of (dr_world d')) = m_to_send_queue (service_of (dr_world d)) @ [item]"
      "string_packet (m_target c) (?u @ [0]) item"
      "m_fRegistered c' \<longleftrightarrow> strncmp_eq 1024 (m_pszOurCString (service_of (dr_world d)))
        ((?u @ [0]) @ drop (length (?u @ [0])) (m_aConfigString c))"
    using command_sends [OF assms(1-6,13,16) copied b(1,2), where af = af and prefs = prefs] assms(14) unfolding b(3) by auto
  have "m_fRegistered c'" if "\<exists>a. m_pszOurCString (service_of (dr_world d)) = ?u @ 0 # a"
    using that strncmp_string [OF u len] sent(6) by auto
  moreover have "claim_target k af F env cl (target_number c) (prefs, d) = Some (prefs, d')"
    using sent(1) buffer bytes assms(7,8) by (simp add: claim_target_def)
  ultimately show ?thesis using sent(2-5) by blast
qed

text \<open>C39: a release does not empty the string: the length 0 that \<open>aoed\<close> gives makes the driver send one byte, which is the first one
  of a structure on the stack that was never filled. Unless it happens to be 0, the target is told to
  take a string of one random character. A target whose disk is registered, as one that this computer has claimed
  is, then leaves the list, unless the byte is the one its string starts with, so that it still counts as claimed;
  any other target stays.\<close>

theorem release_sends_garbage:
  assumes "kernel_ok k" "registry_ok (dr_world d)" "g_pController d" "m_pCmdGate d" "m_Socket cl \<noteq> - 1" "cl_connected cl"
    "unmount_target env (target_number c) = Some m" "m \<noteq> UnMountError" "length (en_stack env) = 1024"
    "fst (dr_world d) = xs @ c # ys" "length (m_aConfigString c) = 1024"
    "interfaces_active (service_of (dr_world d)) (m_target c)" "family_keeps af" "family_appends af"
  shows "\<exists>d' item more. unclaim_target k af env cl (target_number c) (prefs, d) = Some (prefs, d') \<and>
    m_to_send_queue (service_of (dr_world d')) = m_to_send_queue (service_of (dr_world d)) @ item # more \<and>
    string_packet (m_target c) [en_stack env ! 0] item \<and>
    (if m_fRegistered c \<and>
        \<not> strncmp_eq 1024 (m_pszOurCString (service_of (dr_world d))) ((m_aConfigString c)[0 := en_stack env ! 0])
     then fst (dr_world d') = xs @ ys
     else more = [] \<and> (\<exists>c'. fst (dr_world d') = xs @ c' # ys \<and> identity c' = identity c))"
proof -
  have stack: "en_stack env \<noteq> []" "hd (en_stack env) = en_stack env ! 0" using assms(9) by (cases "en_stack env"; simp)+
  have "m_aConfigString c \<noteq> []" using assms(11) by auto
  then have string: "[en_stack env ! 0] @ drop 1 (m_aConfigString c) = (m_aConfigString c)[0 := en_stack env ! 0]"
    by (cases "m_aConfigString c") simp_all
  have copied: "strncpy (m_aConfigString c) (en_stack env) (length [en_stack env ! 0]) =
      Some ([en_stack env ! 0] @ drop 1 (m_aConfigString c))"
    using strncpy_byte [OF stack(1), of "m_aConfigString c"] assms(11) stack(2) by simp
  obtain d' item more where sent: "client_set_config_string k af cl \<lparr>cs_nTargetNumber = word_of_int (target_number c),
        cs_Length = 0, cs_pszConfig = en_stack env\<rparr> (prefs, d) = Some (0, prefs, d')"
      "m_to_send_queue (service_of (dr_world d')) = m_to_send_queue (service_of (dr_world d)) @ item # more"
      "string_packet (m_target c) [en_stack env ! 0] item"
      "if m_fRegistered c \<and>
        \<not> strncmp_eq 1024 (m_pszOurCString (service_of (dr_world d))) ((m_aConfigString c)[0 := en_stack env ! 0])
       then fst (dr_world d') = xs @ ys
       else more = [] \<and> (\<exists>c'. fst (dr_world d') = xs @ c' # ys \<and> identity c' = identity c)"
    using command_sends [OF assms(1-6,10,12) copied, where af = af and prefs = prefs] assms(13,14) unfolding string
    by (auto split: if_split_asm)
  have "unclaim_target k af env cl (target_number c) (prefs, d) = Some (prefs, d')"
    using sent(1) assms(7,8) by (simp add: unclaim_target_def)
  then show ?thesis using sent(2-4) by blast
qed

text \<open>The first target of a driver is claimed, and one with a registered disk is released by a computer with the letter B on its stack.\<close>

lemma unclaimed_ready:
  "\<not> m_fRegistered example_controller" "length (m_aConfigString example_controller) = 1024"
  "interfaces_active (m_pAoEService example_provider) (m_target example_controller)"
  "length (unique_string [67, 48, 50] [77, 97, 99]) < 1024"
  by code_simp+

lemma unclaimed_driver:
  "registry_ok (dr_world example_driver)" "g_pController example_driver" "m_pCmdGate example_driver"
  "fst (dr_world example_driver) = [] @ example_controller # []"
  "interfaces_active (service_of (dr_world example_driver)) (m_target example_controller)"
  "m_to_send_queue (service_of (dr_world example_driver)) = []"
proof -
  show "registry_ok (dr_world example_driver)"
    by (simp add: registry_ok_def ids_ok_def example_controller_target target_number_def example_driver_def example_provider_def)
      (simp add: target_init_def)
qed (use unclaimed_ready(3) in \<open>simp_all add: example_driver_def example_provider_def example_service_def service_start_def\<close>)

theorem claim_sends_string_witness:
  "\<exists>d' item. claim_target example_kernel example_family example_foundation example_environment
      \<lparr>m_Socket = 3, cl_connected = True\<rparr> (target_number example_controller) (example_preferences [1], example_driver) =
      Some (example_preferences [1], d') \<and>
    m_to_send_queue (service_of (dr_world d')) = [item] \<and>
    string_packet (m_target example_controller) (unique_string [67, 48, 50] [77, 97, 99] @ [0]) item"
proof -
  have env: "en_serial example_environment = Some [67, 48, 50]" "en_name example_environment = Some [77, 97, 99]"
      "length (en_stack example_environment) = 1024" by (simp_all add: example_environment_def)
  note claimed = claim_sends_string [OF kernel_ok_example unclaimed_driver(1-3) _ _ env(1,2) _ _ _ env(3) unclaimed_driver(4)
      unclaimed_ready(1,2) unclaimed_driver(5), where cl = "\<lparr>m_Socket = 3, cl_connected = True\<rparr>" and af = example_family
        and F = example_foundation and prefs = "example_preferences [1]"]
  show ?thesis using claimed unclaimed_ready(4) unfolding unclaimed_driver(6) env(3) by simp blast
qed

definition claimed_controller :: controller where
  "claimed_controller = registerDiskService example_controller"

definition claimed_driver :: driver where
  "claimed_driver = example_driver\<lparr>dr_world := ([claimed_controller], snd (dr_world example_driver))\<rparr>"

lemma claimed_ready:
  "m_fRegistered claimed_controller" "length (m_aConfigString claimed_controller) = 1024"
  "m_target claimed_controller = m_target example_controller"
  "\<not> strncmp_eq 1024 (m_pszOurCString (service_of (dr_world claimed_driver))) ((m_aConfigString claimed_controller)[0 := 66])"
  by code_simp+

lemma claimed_driver_ok:
  "registry_ok (dr_world claimed_driver)" "g_pController claimed_driver" "m_pCmdGate claimed_driver"
  "fst (dr_world claimed_driver) = [] @ claimed_controller # []"
  "interfaces_active (service_of (dr_world claimed_driver)) (m_target claimed_controller)"
  "m_to_send_queue (service_of (dr_world claimed_driver)) = []"
proof -
  have "identity claimed_controller = identity example_controller" by (simp add: identity_def claimed_ready(3))
  then show "registry_ok (dr_world claimed_driver)"
    using unclaimed_driver(1,4) claimed_ready(3)
    by (cases "dr_world example_driver") (simp add: claimed_driver_def registry_ok_def ids_ok_def target_number_def)
qed (use unclaimed_driver in \<open>simp_all add: claimed_driver_def claimed_ready(3)\<close>)

theorem release_sends_garbage_witness:
  "\<exists>d' item more. unclaim_target example_kernel example_family (example_environment\<lparr>en_stack := replicate 1024 66\<rparr>)
      \<lparr>m_Socket = 3, cl_connected = True\<rparr> (target_number claimed_controller) (example_preferences [1], claimed_driver) =
      Some (example_preferences [1], d') \<and>
    m_to_send_queue (service_of (dr_world d')) = item # more \<and> string_packet (m_target claimed_controller) [66] item \<and>
    fst (dr_world d') = []"
proof -
  let ?env = "example_environment\<lparr>en_stack := replicate 1024 66\<rparr>"
  have env: "unmount_target ?env (target_number claimed_controller) = Some UnMountIncomplete" "length (en_stack ?env) = 1024"
      "en_stack ?env ! 0 = 66" by (simp_all add: unmount_target_def example_environment_def)
  have appends: "family_appends example_family" by (simp add: family_appends_def example_family_def)
  note released = release_sends_garbage [OF kernel_ok_example claimed_driver_ok(1-3) _ _ env(1) _ env(2) claimed_driver_ok(4)
      claimed_ready(2) claimed_driver_ok(5) example_family_keeps appends, where cl = "\<lparr>m_Socket = 3, cl_connected = True\<rparr>"
        and prefs = "example_preferences [1]"]
  show ?thesis using released claimed_ready(1,4) unfolding claimed_driver_ok(6) env(3) by simp
qed

end
