(* ===== verification/Commander.thy ===== *)
theory Commander
  imports Settings PortProps
begin

unbundle bit_operations_syntax

text \<open>
  The tool that sends single packets for tests, \<open>AoECommander/WindowController.mm\<close>: it builds the headers from the
  fields of its window and passes them to the driver, which sends them to the targets with their address.
\<close>

section \<open>The window\<close>

text \<open>The numbers in the text fields, the choices in the menus and the buttons; \<open>w_ata_enabled\<close>: which group of fields is enabled.\<close>

record commander =
  m_pAoEVer :: int
  m_pAoEFlags :: int
  m_pAoEError :: int
  m_pAoEShelf :: int
  m_pAoESlot :: int
  m_pAoETag :: int
  m_pAoECommand :: int
  m_pATAErr_Feature :: int
  m_pATASector_Count :: int
  m_pATACmd_Status :: int
  m_pATAlba :: "int list"
  m_pQCConfigStringLength :: int
  m_pQCCCmd :: int
  m_p48LBA :: bool
  m_pWrite :: bool
  m_pAsync :: bool
  w_ata_enabled :: bool
  m_OutputData :: ForcePacketInfo
  m_pDriver :: client

definition commander_started :: "connect_setup \<Rightarrow> commander \<Rightarrow> commander" where
  "commander_started u w = w\<lparr>w_ata_enabled := (m_pAoECommand w = 0), m_pDriver := snd (connect_to_driver u)\<rparr>"

definition UpdateEnabled :: "commander \<Rightarrow> commander" where
  "UpdateEnabled w = w\<lparr>w_ata_enabled := (m_pAoECommand w = 0)\<rparr>"

text \<open>A number of a field, cut to its mask.\<close>

definition field :: "int \<Rightarrow> u32 \<Rightarrow> u32" where
  "field n msk = word_of_int n AND msk"

abbreviation (input) TAG_USER_MASK :: u32 where "TAG_USER_MASK \<equiv> 0x80000000"

definition lba_field :: "commander \<Rightarrow> nat \<Rightarrow> u32" where
  "lba_field w n = field (m_pATAlba w ! n) 0xFF"

definition state_bit :: "bool \<Rightarrow> u32" where
  "state_bit b = (if b then 1 else 0)"

definition user_header :: "commander \<Rightarrow> u32 \<Rightarrow> aoe_header" where
  "user_header w Tag =
     \<lparr>ah_verflagserr = AOE_HEADER_SETVERFLAGERR (field (m_pAoEVer w) 0xF) (field (m_pAoEFlags w) 0xF) (field (m_pAoEError w) 0xFF),
      ah_major = AOE_HEADER_SETMAJOR (field (m_pAoEShelf w) 0xFFFF),
      ah_minorcmd = AOE_HEADER_SETMINORCMD (field (m_pAoESlot w) 0xFF) (field (m_pAoECommand w) 0xFF),
      ah_tag0 = AOE_HEADER_SETTAG1 Tag, ah_tag1 = AOE_HEADER_SETTAG2 Tag\<rparr>"

definition user_atahdr :: "commander \<Rightarrow> aoe_atahdr \<Rightarrow> aoe_atahdr" where
  "user_atahdr w h =
     (let nATAAFlags = push_bit 6 (state_bit (m_p48LBA w)) OR push_bit 1 (state_bit (m_pAsync w)) OR state_bit (m_pWrite w)
      in (AOE_ATAHEADER_CLEAR h)
        \<lparr>aa_aflags_errfeat := AOE_ATAHEADER_SET2 nATAAFlags (field (m_pATAErr_Feature w) 0xFF),
         aa_scnt_cmdstat := AOE_ATAHEADER_SET2 (field (m_pATASector_Count w) 0xFF) (field (m_pATACmd_Status w) 0xFF),
         aa_lba0_1 := AOE_ATAHEADER_SET2 (lba_field w 0) (lba_field w 1),
         aa_lba2_3 := AOE_ATAHEADER_SET2 (lba_field w 2) (lba_field w 3),
         aa_lba4_5 := AOE_ATAHEADER_SET2 (lba_field w 4) (lba_field w 5)\<rparr>)"

text \<open>The header of the kind that is not chosen is cleared.\<close>

definition FormatOutput :: "commander \<Rightarrow> commander" where
  "FormatOutput w =
     (let fATA = (m_pAoECommand w = 0);
          Tag = TAG_USER_MASK + word_of_int (m_pAoETag w);
          out = m_OutputData w
      in w\<lparr>m_OutputData := out
        \<lparr>fp_nShelf := field (m_pAoEShelf w) 0xFFFF, fp_nSlot := field (m_pAoESlot w) 0xFF, fp_Tag := Tag,
         fp_fATA := state_bit fATA, fp_AoEhdr := user_header w Tag,
         fp_ATAhdr := (if fATA then user_atahdr w (fp_ATAhdr out) else AOE_ATAHEADER_CLEAR (fp_ATAhdr out)),
         fp_CFGhdr := (if fATA then AOE_CFGHEADER_CLEAR (fp_CFGhdr out)
           else (AOE_CFGHEADER_CLEAR (fp_CFGhdr out))
             \<lparr>ac_scnt_aoe_ccmd := AOE_HEADER_SETSECTOR_CMD 2 (field (m_pQCCCmd w) 0xF),
              ac_cslen := AOE_HEADER_SETCSTRLEN (field (m_pQCConfigStringLength w) 0xFFFF)\<rparr>)\<rparr>\<rparr>)"

text \<open>The tag in the window goes up to the largest one and stays there. The result of the client is ignored.\<close>

definition commander_send :: "kernel \<Rightarrow> ata_family \<Rightarrow> commander \<Rightarrow> kext \<Rightarrow> (commander \<times> kext) option" where
  "commander_send k af w x = do {
     let w = FormatOutput w;
     let w = w\<lparr>m_pAoETag := min (s32 (m_pAoETag w + 1)) (uint MAX_TAG)\<rparr>;
     (_, x) \<leftarrow> force_packet_send k af (m_pDriver w) (m_OutputData w) x;
     Some (w, x) }"

definition Logging :: "kernel \<Rightarrow> ata_family \<Rightarrow> commander \<Rightarrow> kext \<Rightarrow> (commander \<times> kext) option" where
  "Logging k af w x = do { (_, x) \<leftarrow> enable_logging k af (m_pDriver w) 1 x; Some (w, x) }"

definition applicationWillTerminate :: "commander \<Rightarrow> commander" where
  "applicationWillTerminate w = w\<lparr>m_pDriver := snd (disconnect (m_pDriver w))\<rparr>"

section \<open>The packet\<close>

lemma field_ucast8: "ucast (field n 0xFF) = (word_of_int n :: u8)"
  unfolding field_def by (rule bit_word_eqI) (auto simp: mask_simps bit_simps)

lemma header_read:
  "AOE_HEADER_GETMAJOR (user_header w Tag) = word_of_int (m_pAoEShelf w)"
  "AOE_HEADER_GETMINOR (user_header w Tag) = field (m_pAoESlot w) 0xFF"
  "AOE_HEADER_GETCMD (user_header w Tag) = field (m_pAoECommand w) 0xFF"
  "AOE_HEADER_GETTAG (user_header w Tag) = Tag"
  "AOE_HEADER_GETVER (user_header w Tag) = field (m_pAoEVer w) 0xF"
  "AOE_HEADER_GETERR (user_header w Tag) = field (m_pAoEError w) 0xF"
  unfolding user_header_def field_def wire_defs
  by (auto intro!: bit_word_eqI simp: mask_simps bit_simps)

lemma ata_read:
  "AOE_ATAHEADER_GETSCNT (user_atahdr w h) = word_of_int (m_pATASector_Count w)"
  "AOE_ATAHEADER_GETSTAT (user_atahdr w h) = word_of_int (m_pATACmd_Status w)"
  "AOE_ATAHEADER_GETLBA0 (user_atahdr w h) = word_of_int (m_pATAlba w ! 0)"
  "AOE_ATAHEADER_GETLBA5 (user_atahdr w h) = word_of_int (m_pATAlba w ! 5)"
  by (simp_all add: ata_getters user_atahdr_def lba_field_def field_ucast8 Let_def)

lemma each_others:
  "each sel f (cs, p) = Some (cs', p') \<Longrightarrow> list_all2 (\<lambda>c c'. \<not> sel c \<longrightarrow> c' = c) cs cs'"
proof (induction cs arbitrary: p cs')
  case (Cons c cs)
  obtain c1 p1 where c1: "(if sel c then f (c, p) else Some (c, p)) = Some (c1, p1)"
    using Cons.prems by (cases "if sel c then f (c, p) else Some (c, p)") auto
  have head: "\<not> sel c \<longrightarrow> c1 = c" using c1 by auto
  show ?case
  proof (cases "removed_targets p1 = []")
    case True
    then obtain cs1 where "each sel f (cs, p1) = Some (cs1, p')" "cs' = c1 # cs1"
      using Cons.prems c1 by (auto split: Option.bind_split_asm)
    then show ?thesis using Cons.IH head by auto
  next
    case False
    then show ?thesis using Cons.prems c1 head by (auto simp: list_all2_same)
  qed
qed simp

lemma sint_field: "sint (field n 0xFFFF) = n mod 2 ^ 16" "sint (field n 0xFF) = n mod 2 ^ 8"
proof -
  have "field n 0xFFFF = word_of_int (take_bit 16 n)" "field n 0xFF = word_of_int (take_bit 8 n)"
    unfolding field_def by (rule bit_word_eqI; auto simp: mask_simps bit_simps)+
  moreover have small: "sint (word_of_int (take_bit k n) :: u32) = take_bit k n" if "k < 31" for k
  proof (rule sint_word_of_int_32)
    have "take_bit k n < 2 ^ k" by simp
    also have "(2 :: int) ^ k \<le> 2 ^ 31" using that by (intro power_increasing) simp_all
    finally show "take_bit k n < 2 ^ 31" .
    show "- (2 ^ 31) \<le> take_bit k n" by (rule order_trans [of _ 0]) simp_all
  qed
  ultimately show "sint (field n 0xFFFF) = n mod 2 ^ 16" "sint (field n 0xFF) = n mod 2 ^ 8"
    using small [of 16] small [of 8] by (simp_all add: take_bit_eq_mod)
qed

definition addressed :: "commander \<Rightarrow> controller \<Rightarrow> bool" where
  "addressed w c \<longleftrightarrow> is_device (m_pAoEShelf w mod 2 ^ 16) (m_pAoESlot w mod 2 ^ 8) (m_target c) = 0"

lemma send_others:
  assumes "commander_send k af w (prefs, d) = Some (w', x')"
  shows "fst x' = prefs \<and> list_all2 (\<lambda>c c'. \<not> addressed w c \<longrightarrow> c' = c) (fst (dr_world d)) (fst (dr_world (snd x')))"
proof -
  let ?out = "m_OutputData (FormatOutput w)"
  have same: "list_all2 (\<lambda>c c'. \<not> addressed w c \<longrightarrow> c' = c) cs cs" for cs by (simp add: list_all2_same)
  obtain r where sent: "force_packet_send k af (m_pDriver w) ?out (prefs, d) = Some (r, x')"
    using assms by (auto simp: commander_send_def FormatOutput_def Let_def split: Option.bind_split_asm)
  have address: "sint (fp_nShelf ?out) = m_pAoEShelf w mod 2 ^ 16" "sint (fp_nSlot ?out) = m_pAoESlot w mod 2 ^ 8"
    by (simp_all add: FormatOutput_def Let_def sint_field)
  consider "x' = (prefs, d)"
    | d' where "x' = (prefs, d')" "c_force_packet k af ?out d = Some d'"
    using sent by (auto simp: force_packet_send_def set_command_def aoeinterface_set_def split: if_split_asm)
  then show ?thesis
  proof cases
    case (2 d')
    then show ?thesis
      using address each_others same
      by (cases "dr_world d")
        (auto simp: c_force_packet_def interface_force_packet_send_def addressed_def split: if_split_asm Option.bind_split_asm)
  qed (simp add: same)
qed

text \<open>The packet that the tool sends has the address, the command and the tag of the window, the tag with the highest bit
  set, and, when it is an ATA command, its count, command and block address, each cut to the width of its field; it
  changes no target but those with its address.\<close>

theorem packet_addressed:
  assumes "commander_send k af w (prefs, d) = Some (w', prefs', d')"
  shows "AOE_HEADER_GETMAJOR (fp_AoEhdr (m_OutputData w')) = word_of_int (m_pAoEShelf w) \<and>
    AOE_HEADER_GETMINOR (fp_AoEhdr (m_OutputData w')) = field (m_pAoESlot w) 0xFF \<and>
    AOE_HEADER_GETCMD (fp_AoEhdr (m_OutputData w')) = field (m_pAoECommand w) 0xFF \<and>
    AOE_HEADER_GETTAG (fp_AoEhdr (m_OutputData w')) = TAG_USER_MASK + word_of_int (m_pAoETag w) \<and>
    (m_pAoECommand w = 0 \<longrightarrow>
      AOE_ATAHEADER_GETSCNT (fp_ATAhdr (m_OutputData w')) = word_of_int (m_pATASector_Count w) \<and>
      AOE_ATAHEADER_GETSTAT (fp_ATAhdr (m_OutputData w')) = word_of_int (m_pATACmd_Status w) \<and>
      AOE_ATAHEADER_GETLBA0 (fp_ATAhdr (m_OutputData w')) = word_of_int (m_pATAlba w ! 0) \<and>
      AOE_ATAHEADER_GETLBA5 (fp_ATAhdr (m_OutputData w')) = word_of_int (m_pATAlba w ! 5)) \<and>
    list_all2 (\<lambda>c c'. \<not> addressed w c \<longrightarrow> c' = c) (fst (dr_world d)) (fst (dr_world d'))"
proof -
  have out: "m_OutputData w' = m_OutputData (FormatOutput w)"
    using assms by (auto simp: commander_send_def Let_def split: Option.bind_split_asm)
  show ?thesis
    unfolding out using send_others [OF assms] by (simp add: FormatOutput_def Let_def header_read ata_read)
qed

definition example_window :: commander where
  "example_window = \<lparr>m_pAoEVer = 1, m_pAoEFlags = 0, m_pAoEError = 0, m_pAoEShelf = 0, m_pAoESlot = 2, m_pAoETag = 7,
     m_pAoECommand = 0, m_pATAErr_Feature = 0, m_pATASector_Count = 1, m_pATACmd_Status = 0xEC,
     m_pATAlba = [5, 0, 0, 0, 0, 0], m_pQCConfigStringLength = 0, m_pQCCCmd = 0, m_p48LBA = False, m_pWrite = False,
     m_pAsync = False, w_ata_enabled = True,
     m_OutputData = \<lparr>fp_nShelf = 0, fp_nSlot = 0, fp_fATA = 0, fp_Tag = 0, fp_AoEhdr = \<lparr>ah_verflagserr = 0, ah_major = 0, ah_minorcmd = 0, ah_tag0 = 0, ah_tag1 = 0\<rparr>,
       fp_ATAhdr = clear_atahdr, fp_CFGhdr = clear_cfghdr\<rparr>,
     m_pDriver = \<lparr>m_Socket = 3, cl_connected = True\<rparr>\<rparr>"

definition two_targets :: driver where
  "two_targets = example_driver\<lparr>dr_world := ([example_controller,
     snd (controller_init example_kernel example_family 101 0 2 2 18 1500 262144 2)], example_provider)\<rparr>"

lemma commander_run:
  "case commander_send example_kernel example_family example_window (example_preferences [1], two_targets) of
     Some (w, _, d) \<Rightarrow> m_pAoETag w = 8 \<and> map (addressed example_window) (fst (dr_world two_targets)) = [False, True] \<and>
       length (m_to_send_queue (service_of (dr_world d))) = 1
   | None \<Rightarrow> False"
  by code_simp

theorem packet_addressed_witness:
  "\<exists>w prefs d. commander_send example_kernel example_family example_window (example_preferences [1], two_targets) =
      Some (w, prefs, d) \<and> AOE_HEADER_GETTAG (fp_AoEhdr (m_OutputData w)) = 0x80000007 \<and>
    fst (dr_world d) ! 0 = example_controller"
proof -
  obtain w prefs d where run: "commander_send example_kernel example_family example_window (example_preferences [1], two_targets) =
      Some (w, prefs, d)" "map (addressed example_window) (fst (dr_world two_targets)) = [False, True]"
    using commander_run by (auto split: option.split_asm)
  note sent = packet_addressed [OF run(1)]
  then have "AOE_HEADER_GETTAG (fp_AoEhdr (m_OutputData w)) = 0x80000007" by (simp add: example_window_def)
  moreover have "\<not> addressed example_window (fst (dr_world two_targets) ! 0)" using run(2) by (auto simp: map_eq_Cons_conv)
  then have "fst (dr_world d) ! 0 = fst (dr_world two_targets) ! 0"
    using sent by (auto simp: list_all2_conv_all_nth two_targets_def)
  ultimately show ?thesis using run(1) by (auto simp: two_targets_def)
qed

end
