(* ===== verification/Spec2Isabelle.thy ===== *)
theory Spec2Isabelle
  imports SilentTargets ClaimPacket Commander
begin

text \<open>
  A model of the ATA-over-Ethernet (AoE) driver for Mac OS X and of the programs that configure it.

  \<^bold>\<open>The program.\<close> The kernel extension (\<open>src/AoE\<close>) finds AoE targets on the enabled ethernet
  ports and presents each as an ATA disk. \<open>AoEtherFilter.c\<close> filters the packets of an interface;
  \<open>AoEService.cpp\<close> owns the interfaces (\<open>EInterfaces.cpp\<close>), the queue of packets to send, the queue of packets
  sent, flow control and retransmission; \<open>AoEControllerInterface.cpp\<close> holds the list of targets and routes packets;
  \<open>AoEController.cpp\<close> is the ATA controller of one target, which splits ATA commands into packets and assembles
  the replies; \<open>AoEDevice.cpp\<close> is the disk; \<open>AoEUserInterface.c\<close> is a control socket. In user space
  \<open>aoed\<close> applies its options and the file of settings to the driver through that socket (\<open>src/Shared\<close>), the
  preference pane (\<open>src/AoEPreference\<close>) shows the registry of the driver and runs \<open>aoed\<close>, and
  AoECommander (\<open>src/AoECommander\<close>) sends single packets for tests.

  \<^bold>\<open>Theories.\<close> Each models the source files named, definition by function, with the names of the source.
  \<^item> \<open>Prelude\<close>: machine integers, byte order, list loops; the locale \<open>state_machine\<close> of an inductive invariant and
    \<open>refined_machine\<close> of a refinement.
  \<^item> \<open>Wire\<close>: \<open>aoe.h\<close>, \<open>AoEcommon.h\<close>: headers, their macros and their bytes.
  \<^item> \<open>Kernel\<close>: what the driver calls in the operating system (record \<open>kernel\<close>); time; the filter table.
  \<^item> \<open>NetInterfaces\<close>: \<open>EInterface\<close>, \<open>EInterfaces\<close>: window, threshold, counters, MTU.
  \<^item> \<open>FlowControl\<close>: queues, round trip estimate and timers of \<open>AoEService.cpp\<close>; \<open>Accounting\<close> and
    \<open>FlowProps\<close> hold their lemmas.
  \<^item> \<open>Target\<close>: \<open>TargetInfo\<close>, the interfaces of a target, the two block address formats (locale \<open>block_address\<close>).
  \<^item> \<open>Controller\<close>, \<open>SendPath\<close>, \<open>Commands\<close>, \<open>Responses\<close>: \<open>AoEController.cpp\<close>: state, tags and load balancing,
    commands out, replies in.
  \<^item> \<open>Registry\<close>: \<open>AoEControllerInterface.cpp\<close>; \<open>RegistryInv\<close>: its step relation \<open>registry_step\<close> and invariant.
  \<^item> \<open>Driver\<close>: start and stop, ports, search and received packets of \<open>AoEService.cpp\<close>, the callbacks of
    \<open>AoEtherFilter.c\<close>; \<open>DriverProps\<close> its lemmas; \<open>Progress\<close>: the queue of packets is always looked after;
    \<open>SilentTargets\<close>: what the update timer removes.
  \<^item> \<open>UserInterface\<close>: \<open>AoEUserInterface.c\<close> and the \<open>c_\<close> functions; \<open>PortProps\<close>: the preferences and the ports.
  \<^item> \<open>DriverRefine\<close>: all events of the driver (\<open>driver_step\<close>) and their refinement of the registry.
  \<^item> \<open>Device\<close>, \<open>DeviceProps\<close>: \<open>AoEDevice.cpp\<close>.
  \<^item> \<open>Settings\<close>: \<open>PreferenceLoadSave.cpp\<close>, \<open>Preferences.cpp\<close>, \<open>EthernetDetect.cpp\<close>, \<open>ConfigString.c\<close>,
    \<open>AoEDriverInterface.cpp\<close>; \<open>Daemon\<close>: \<open>aoed/main.cpp\<close>; \<open>SettingsProps\<close> their lemmas.
  \<^item> \<open>Properties\<close>: \<open>AoEProperties.cpp\<close>; \<open>PrefsPane\<close>: \<open>PrefsPane.mm\<close>; \<open>PrefsPaneProps\<close> (ports) and
    \<open>PaneTargets\<close> (targets) their lemmas.
  \<^item> \<open>RegistryShown\<close>: every event of the registry keeps what the controllers publish true; \<open>PaneDriver\<close>: the pane above
    any reachable state of the driver; \<open>ClaimPacket\<close>: what a claim puts in the queue of packets.
  \<^item> \<open>Commander\<close>: \<open>WindowController.mm\<close> of AoECommander.

  \<^bold>\<open>State.\<close> \<open>service\<close> is the object of \<open>AoEService.cpp\<close>, \<open>provider\<close> that of the controller interface with its
  service, \<open>controller\<close> one target; a \<open>world\<close> is the list of controllers with the provider, a \<open>driver\<close> the world with the
  filter table, and a \<open>kext\<close> the preferences the extension keeps with the driver. \<open>daemon\<close>, \<open>pane\<close> and \<open>commander\<close>
  are the programs of user space. The components are joined as in the code: a button of the pane gives an argument of
  \<open>aoed\<close>, whose options become commands of the socket, which become operations of the driver, which sends packets
  through the queues; a packet received goes from the filter through the service and the registry to the controller.
  \<open>None\<close> is a trap: a null pointer, an access outside of an array, a division by zero, or a loop that never ends.

  \<^bold>\<open>What is shown.\<close>
  \<^item> Data: a transfer is split into exactly the packets needed and a read is reassembled whatever the order and the
    buffers of its replies; the count of replies of a write; tags, block addresses; the identify data.
  \<^item> Flow: the outstanding counters are the packets in flight, but for the packets that the code counts wrongly; sending
    stays inside the window; backing off, growth, retransmission and the round trip estimate; while a packet waits, a
    timer or a reply will look at the queue, unless a packet went astray before.
  \<^item> Targets: the invariant of the registry under all events; the outcome of a configuration reply; numbers of targets;
    every event of the driver is a sequence of events of the registry; the update timer returns and removes, at each
    run, the first silent target and no other.
  \<^item> Ports: what becomes of the queues when a port goes down; a search returns exactly when no target has lost
    all its ports; the two loops over the preferences make the enabled ports the chosen ones.
  \<^item> Settings: what comes back of stored settings, whose ports are read from objects already released; a run of \<open>aoed\<close>
    enables exactly the ports of its settings, and after a restart those that come back from the file; the ports whose buttons are on in the pane are those the driver enables, and the pane shows them again.
  \<^item> Targets in user space: in every reachable state of the driver the list of the pane shows exactly its targets, and a
    claim reaches the target of its row and sends it one packet with the string of this computer.
  \<^item> Errors of the code, each as a theorem on the model: among them a lost write error, an error reply that is dropped and stops the
    queue, a release that sets a random string, a search that never returns, a claim button enabled for another row, a buffer that is too small for five ports.

  \<^bold>\<open>Bounds and hypotheses.\<close> C integers have 32 bits and wrap (words, or \<open>s32\<close> on \<open>int\<close>); tags run from 1 to
  \<open>2 ^ 30 - 1\<close>; pointers have four bytes, as in the kernel the driver is written for. Loops are
  structural or have a proof of termination; the load balancing, which has no bound, is the partial function \<open>balance\<close>, \<open>None\<close>
  when it does not return, and the removal of all interfaces of a target has their number as fuel, which every round
  lowers. The clock does not advance during one operation, and the command gate makes
  operations run one at a time. Code that is not in the sources is a parameter: \<open>kernel\<close> (clock, interfaces,
  allocations), \<open>ata_family\<close> (the base class of the controller), \<open>core_foundation\<close> (property lists and files),
  \<open>environment\<close> (computer, sockets, disk arbitration) and \<open>arrange\<close> (sorting). What a theorem relies on
  is a hypothesis of it: \<open>kernel_ok\<close> (no call fails), \<open>family_ports\<close>, \<open>family_keeps\<close>, \<open>family_silent\<close>, \<open>family_quiet\<close>
  and \<open>family_appends\<close> (what the base class leaves alone: the interfaces, the list of targets, their published properties,
  the time after which a target is offline, the packets already queued), \<open>cf_works\<close> (property lists are written to the
  file and read back, nothing else is written), \<open>sorts\<close> (sorting permutes), each with an instance in the witness of the theorem. What memory reads as after its release is a parameter too, of
  which nothing is assumed: an item of the sent queue (\<open>freed\<close>) and a number of Core Foundation (\<open>cf_released\<close>).

  \<^bold>\<open>Not modelled.\<close> Text that is printed; retain counts, but for findings; the locks, since operations are atomic; drawing,
  sheets and timers of the windows; the loader of AoECommander, the about window and the class \<open>Target\<close> that the
  pane does not use; the waiting of \<open>IOSyncer.h\<close>, whose result is a parameter of
  \<open>device_executeCommand\<close>; overrides that only call the base class for debugging.
  Two questions are left out because the sources do not answer them. Several clients of the control socket: the mutex taken
  by a client that connects and given back when it disconnects is modelled, but the waiting for it, and who is next, is the
  mutex of the system. Liveness under fair timers: when the work loop fires a timer is decided by the system, so the
  theorems say which timer is running, or what its runs do, and not that it fires.
\<close>

end
